(* ===== verification/Lspee_Prelude.thy ===== *)
theory Lspee_Prelude
  imports Main "HOL-Library.Word" "HOL-Library.AList" "HOL-Library.Char_ord"
    "HOL-Library.List_Lexorder"
begin

section \<open>Prelude: shared types, strings, numbers, maps\<close>

text \<open>
  The generic layer of the development: machine integers, results, the part of the Rust standard
  library the sources use on strings (UTF-8 byte strings), decimal numbers, paths, hash maps and
  ordered maps. Components add their own facts to the collections declared here:
  \<open>lspee_defs\<close> gathers the definitions a group of proofs unfolds, \<open>lspee_inv\<close> the
  preservation lemmas of the registry invariant.
\<close>

named_theorems lspee_defs
named_theorems lspee_inv

type_synonym u64 = "64 word"
type_synonym u32 = "32 word"
type_synonym instant = nat
type_synonym duration = nat

text \<open>Clocks and \<open>Duration\<close>s count nanoseconds.\<close>

definition from_secs :: "nat \<Rightarrow> duration" where
  "from_secs n = n * 1000000000"

definition from_millis :: "nat \<Rightarrow> duration" where
  "from_millis n = n * 1000000"

definition as_millis :: "duration \<Rightarrow> nat" where
  "as_millis d = d div 1000000"

text \<open>An \<open>anyhow::Result\<close>: the error is its rendered message.\<close>

type_synonym 'a result = "string + 'a"

definition is_ok :: "'e + 'a \<Rightarrow> bool" where
  "is_ok r = (case r of Inl _ \<Rightarrow> False | Inr _ \<Rightarrow> True)"

lemma is_ok_simps [simp]: "is_ok (Inl e) = False" "is_ok (Inr x) = True"
  by (simp_all add: is_ok_def)

fun bind_res :: "'e + 'a \<Rightarrow> ('a \<Rightarrow> 'e + 'b) \<Rightarrow> 'e + 'b" where
  "bind_res (Inl e) f = Inl e"
| "bind_res (Inr x) f = f x"

lemma bind_res_Inr_iff:
  "bind_res r f = Inr y \<longleftrightarrow> (\<exists>x. r = Inr x \<and> f x = Inr y)"
  by (cases r) auto

definition opt_or :: "'a option \<Rightarrow> 'a option \<Rightarrow> 'a option" where
  "opt_or a b = (case a of Some x \<Rightarrow> Some x | None \<Rightarrow> b)"

lemma opt_or_simps [simp]: "opt_or (Some x) b = Some x" "opt_or None b = b"
  by (simp_all add: opt_or_def)

definition unwrap_or :: "'a option \<Rightarrow> 'a \<Rightarrow> 'a" where
  "unwrap_or a d = (case a of Some x \<Rightarrow> x | None \<Rightarrow> d)"

lemma unwrap_or_simps [simp]: "unwrap_or (Some x) d = x" "unwrap_or None d = d"
  by (simp_all add: unwrap_or_def)

text \<open>The first element a predicate accepts: \<open>Iterator::find\<close>.\<close>

lemma find_None_iff_list: "List.find P xs = None \<longleftrightarrow> (\<forall>x \<in> set xs. \<not> P x)"
  by (induction xs) auto

lemma find_Some_split:
  "List.find P xs = Some x \<Longrightarrow>
     \<exists>ys zs. xs = ys @ x # zs \<and> P x \<and> (\<forall>y \<in> set ys. \<not> P y)"
proof (induction xs)
  case Nil
  then show ?case by simp
next
  case (Cons a xs)
  show ?case
  proof (cases "P a")
    case True
    with Cons.prems show ?thesis by (intro exI [of _ "[]"] exI [of _ xs]) auto
  next
    case False
    with Cons.prems have "List.find P xs = Some x" by simp
    from Cons.IH [OF this] obtain ys zs where
      "xs = ys @ x # zs" "P x" "\<forall>y \<in> set ys. \<not> P y" by blast
    with False show ?thesis by (intro exI [of _ "a # ys"] exI [of _ zs]) auto
  qed
qed

subsection \<open>Byte strings\<close>

text \<open>
  A Rust \<open>String\<close> is its UTF-8 bytes, one \<open>char\<close> per byte, so \<open>length\<close> is
  \<open>str::len\<close>. Newline and carriage return have names of their own.
\<close>

abbreviation LF :: char where "LF \<equiv> CHR 0x0A"
abbreviation CR :: char where "CR \<equiv> CHR 0x0D"

fun strip_prefix :: "string \<Rightarrow> string \<Rightarrow> string option" where
  "strip_prefix [] s = Some s"
| "strip_prefix (p # ps) [] = None"
| "strip_prefix (p # ps) (c # s) = (if p = c then strip_prefix ps s else None)"

lemma strip_prefix_append [simp]: "strip_prefix p (p @ s) = Some s"
  by (induction p) auto

lemma strip_prefix_Some_iff: "strip_prefix p s = Some t \<longleftrightarrow> s = p @ t"
  by (induction p s rule: strip_prefix.induct) auto

fun contains :: "string \<Rightarrow> string \<Rightarrow> bool" where
  "contains [] needle = (needle = [])"
| "contains (c # s) needle = (strip_prefix needle (c # s) \<noteq> None \<or> contains s needle)"

lemma contains_iff: "contains s needle \<longleftrightarrow> (\<exists>a b. s = a @ needle @ b)"
proof (induction s)
  case Nil
  show ?case by auto
next
  case (Cons c s)
  have step: "(\<exists>a b. c # s = a @ needle @ b) \<longleftrightarrow>
    (\<exists>b. c # s = needle @ b) \<or> (\<exists>a b. s = a @ needle @ b)"
  proof
    assume "\<exists>a b. c # s = a @ needle @ b"
    then obtain a b where ab: "c # s = a @ needle @ b" by blast
    then show "(\<exists>b. c # s = needle @ b) \<or> (\<exists>a b. s = a @ needle @ b)"
      by (cases a) auto
  next
    assume "(\<exists>b. c # s = needle @ b) \<or> (\<exists>a b. s = a @ needle @ b)"
    then show "\<exists>a b. c # s = a @ needle @ b"
      by (metis append_Cons append_Nil)
  qed
  show ?case
    by (auto simp: step Cons.IH strip_prefix_Some_iff)
qed

fun split_on :: "char \<Rightarrow> string \<Rightarrow> string list" where
  "split_on c [] = [[]]"
| "split_on c (x # s) =
     (if x = c then [] # split_on c s
      else (case split_on c s of [] \<Rightarrow> [[x]] | w # ws \<Rightarrow> (x # w) # ws))"

lemma split_on_nonempty [simp]: "split_on c s \<noteq> []"
  by (induction s) (auto split: list.splits)

fun to_ascii_lower :: "string \<Rightarrow> string" where
  "to_ascii_lower [] = []"
| "to_ascii_lower (c # s) =
     (if CHR ''A'' \<le> c \<and> c \<le> CHR ''Z'' then char_of (of_char c + 32 :: nat) else c)
       # to_ascii_lower s"

definition eq_ignore_ascii_case :: "string \<Rightarrow> string \<Rightarrow> bool" where
  "eq_ignore_ascii_case a b = (to_ascii_lower a = to_ascii_lower b)"

text \<open>
  \<open>str::trim\<close> removes Unicode white space. On UTF-8 bytes: the encodings of the 25 code
  points with the property \<open>White_Space\<close>, stripped from both ends.
\<close>

definition ws_encodings :: "string list" where
  "ws_encodings =
     [[CHR 0x09], [CHR 0x0A], [CHR 0x0B], [CHR 0x0C], [CHR 0x0D], [CHR 0x20],
      [CHR 0xC2, CHR 0x85], [CHR 0xC2, CHR 0xA0], [CHR 0xE1, CHR 0x9A, CHR 0x80],
      [CHR 0xE2, CHR 0x80, CHR 0x80], [CHR 0xE2, CHR 0x80, CHR 0x81],
      [CHR 0xE2, CHR 0x80, CHR 0x82], [CHR 0xE2, CHR 0x80, CHR 0x83],
      [CHR 0xE2, CHR 0x80, CHR 0x84], [CHR 0xE2, CHR 0x80, CHR 0x85],
      [CHR 0xE2, CHR 0x80, CHR 0x86], [CHR 0xE2, CHR 0x80, CHR 0x87],
      [CHR 0xE2, CHR 0x80, CHR 0x88], [CHR 0xE2, CHR 0x80, CHR 0x89],
      [CHR 0xE2, CHR 0x80, CHR 0x8A], [CHR 0xE2, CHR 0x80, CHR 0xA8],
      [CHR 0xE2, CHR 0x80, CHR 0xA9], [CHR 0xE2, CHR 0x80, CHR 0xAF],
      [CHR 0xE2, CHR 0x81, CHR 0x9F], [CHR 0xE3, CHR 0x80, CHR 0x80]]"

fun strip_first :: "string list \<Rightarrow> string \<Rightarrow> string option" where
  "strip_first [] s = None"
| "strip_first (p # ps) s =
     (case strip_prefix p s of Some t \<Rightarrow> Some t | None \<Rightarrow> strip_first ps s)"

lemma strip_prefix_length: "strip_prefix p s = Some t \<Longrightarrow> length s = length p + length t"
  by (simp add: strip_prefix_Some_iff)

lemma strip_first_shorter:
  "strip_first ps s = Some t \<Longrightarrow> [] \<notin> set ps \<Longrightarrow> length t < length s"
  by (induction ps) (auto split: option.splits dest: strip_prefix_length)

text \<open>Each round strips one code point; \<open>length s\<close> rounds always suffice.\<close>

fun strip_many :: "nat \<Rightarrow> string list \<Rightarrow> string \<Rightarrow> string" where
  "strip_many 0 ps s = s"
| "strip_many (Suc n) ps s =
     (case strip_first ps s of None \<Rightarrow> s | Some t \<Rightarrow> strip_many n ps t)"

definition trim_start :: "string \<Rightarrow> string" where
  "trim_start s = strip_many (length s) ws_encodings s"

definition trim_end :: "string \<Rightarrow> string" where
  "trim_end s = rev (strip_many (length s) (map rev ws_encodings) (rev s))"

definition trim :: "string \<Rightarrow> string" where
  "trim s = trim_end (trim_start s)"

lemma strip_many_enough:
  assumes "[] \<notin> set ps" and "length s \<le> n"
  shows "strip_first ps (strip_many n ps s) = None"
  using assms(2)
proof (induction n arbitrary: s)
  case 0
  then have "s = []" by simp
  with assms(1) have "strip_first ps s = None"
    by (metis list.size(3) not_less_zero option.exhaust strip_first_shorter)
  then show ?case by simp
next
  case (Suc n)
  show ?case
  proof (cases "strip_first ps s")
    case None
    then show ?thesis by simp
  next
    case (Some t)
    with assms(1) Suc.prems have "length t \<le> n"
      using strip_first_shorter by fastforce
    with Suc.IH Some show ?thesis by simp
  qed
qed

lemma trim_simple:
  assumes "strip_first ws_encodings s = None"
    and "strip_first (map rev ws_encodings) (rev s) = None"
  shows "trim s = s"
proof -
  have "strip_many n ws_encodings s = s" for n using assms(1) by (cases n) simp_all
  moreover have "strip_many n (map rev ws_encodings) (rev s) = rev s" for n
    using assms(2) by (cases n) simp_all
  ultimately show ?thesis by (simp add: trim_def trim_start_def trim_end_def)
qed

subsection \<open>UTF-8 validity\<close>

definition cont_byte :: "char \<Rightarrow> bool" where
  "cont_byte c = (CHR 0x80 \<le> c \<and> c \<le> CHR 0xBF)"

text \<open>
  \<open>str::from_utf8\<close>: the well-formed byte sequences of the Unicode standard (no overlong forms,
  no surrogates, nothing above U+10FFFF).
\<close>

fun utf8_valid :: "string \<Rightarrow> bool" where
  "utf8_valid [] = True"
| "utf8_valid (a # s) =
     (if a \<le> CHR 0x7F then utf8_valid s
      else case s of
        [] \<Rightarrow> False
      | b # s1 \<Rightarrow>
          (if CHR 0xC2 \<le> a \<and> a \<le> CHR 0xDF then cont_byte b \<and> utf8_valid s1
           else case s1 of
             [] \<Rightarrow> False
           | c # s2 \<Rightarrow>
               (if CHR 0xE0 \<le> a \<and> a \<le> CHR 0xEF
                then (if a = CHR 0xE0 then CHR 0xA0 \<le> b else CHR 0x80 \<le> b)
                     \<and> (if a = CHR 0xED then b \<le> CHR 0x9F else b \<le> CHR 0xBF)
                     \<and> cont_byte c \<and> utf8_valid s2
                else case s2 of
                  [] \<Rightarrow> False
                | d # s3 \<Rightarrow>
                    CHR 0xF0 \<le> a \<and> a \<le> CHR 0xF4
                    \<and> (if a = CHR 0xF0 then CHR 0x90 \<le> b else CHR 0x80 \<le> b)
                    \<and> (if a = CHR 0xF4 then b \<le> CHR 0x8F else b \<le> CHR 0xBF)
                    \<and> cont_byte c \<and> cont_byte d \<and> utf8_valid s3)))"

lemma utf8_valid_ascii: "(\<And>c. c \<in> set s \<Longrightarrow> c \<le> CHR 0x7F) \<Longrightarrow> utf8_valid s"
  by (induction s) auto

subsection \<open>Decimal numbers\<close>

definition digit_char :: "nat \<Rightarrow> char" where
  "digit_char d = char_of (48 + d)"

definition char_digit :: "char \<Rightarrow> nat option" where
  "char_digit c =
     (if CHR ''0'' \<le> c \<and> c \<le> CHR ''9'' then Some (of_char c - 48) else None)"

text \<open>\<open>u64::to_string\<close> and the \<open>{}\<close> of \<open>format!\<close> on an unsigned integer.\<close>

fun nat_str :: "nat \<Rightarrow> string" where
  "nat_str n = (if n < 10 then [digit_char n] else nat_str (n div 10) @ [digit_char (n mod 10)])"

declare nat_str.simps [simp del]

fun digits_val :: "nat \<Rightarrow> string \<Rightarrow> nat option" where
  "digits_val acc [] = Some acc"
| "digits_val acc (c # s) =
     (case char_digit c of None \<Rightarrow> None | Some d \<Rightarrow> digits_val (10 * acc + d) s)"

text \<open>
  \<open>str::parse\<close> at an unsigned type of \<open>w\<close> bits: an optional plus sign, at least one digit,
  digits only, and no overflow.
\<close>

definition parse_unsigned :: "nat \<Rightarrow> string \<Rightarrow> nat option" where
  "parse_unsigned w s =
     (let ds = (case s of c # t \<Rightarrow> if c = CHR ''+'' then t else s | [] \<Rightarrow> s)
      in if ds = [] then None
         else case digits_val 0 ds of
           None \<Rightarrow> None
         | Some n \<Rightarrow> if n < 2 ^ w then Some n else None)"

lemma of_char_digit_char: "d < 10 \<Longrightarrow> of_char (digit_char d) = 48 + d"
  by (simp add: digit_char_def)

lemma char_digit_digit_char [simp]: "d < 10 \<Longrightarrow> char_digit (digit_char d) = Some d"
  by (simp add: char_digit_def less_eq_char_def of_char_digit_char)

lemma digits_val_append:
  "digits_val acc (s @ t) = (case digits_val acc s of None \<Rightarrow> None | Some n \<Rightarrow> digits_val n t)"
  by (induction acc s rule: digits_val.induct) (auto split: option.splits)

lemma nat_str_not_Nil [simp]: "nat_str n \<noteq> []"
  by (subst nat_str.simps) simp

lemma digits_val_nat_str [simp]: "digits_val 0 (nat_str n) = Some n"
proof (induction n rule: nat_str.induct)
  case (1 n)
  show ?case
  proof (cases "n < 10")
    case True
    then show ?thesis by (subst nat_str.simps) simp
  next
    case False
    with 1 have "digits_val 0 (nat_str (n div 10)) = Some (n div 10)" by simp
    with False show ?thesis by (subst nat_str.simps) (simp add: digits_val_append)
  qed
qed

lemma nat_str_inject [simp]: "nat_str m = nat_str n \<longleftrightarrow> m = n"
  by (metis digits_val_nat_str option.inject)

definition is_digit :: "char \<Rightarrow> bool" where
  "is_digit c = (CHR ''0'' \<le> c \<and> c \<le> CHR ''9'')"

lemma is_digit_digit_char [simp]: "d < 10 \<Longrightarrow> is_digit (digit_char d)"
  by (simp add: is_digit_def less_eq_char_def of_char_digit_char)

lemma nat_str_digits: "c \<in> set (nat_str n) \<Longrightarrow> is_digit c"
proof (induction n rule: nat_str.induct)
  case (1 n)
  then show ?case
    by (subst (asm) nat_str.simps) (auto split: if_splits)
qed

lemma is_digit_code: "is_digit c \<longleftrightarrow> 48 \<le> (of_char c :: nat) \<and> (of_char c :: nat) \<le> 57"
  by (simp add: is_digit_def less_eq_char_def)

lemma is_digit_facts:
  assumes "is_digit c"
  shows "c \<noteq> CHR ''+''" "c \<noteq> LF" "c \<noteq> CR" "c \<noteq> CHR '' ''" "c \<le> CHR 0x7F"
  using assms by (auto simp: is_digit_code less_eq_char_def)

lemma parse_unsigned_nat_str [simp]:
  "parse_unsigned w (nat_str n) = (if n < 2 ^ w then Some n else None)"
proof -
  obtain c t where ct: "nat_str n = c # t"
    using nat_str_not_Nil by (meson list.exhaust)
  then have "c \<in> set (nat_str n)" by simp
  then have "c \<noteq> CHR ''+''" using nat_str_digits is_digit_facts(1) by blast
  with ct have "parse_unsigned w (nat_str n) =
      (case digits_val 0 (nat_str n) of None \<Rightarrow> None
       | Some k \<Rightarrow> if k < 2 ^ w then Some k else None)"
    by (simp add: parse_unsigned_def)
  then show ?thesis by simp
qed

lemma strip_first_None:
  "(\<And>p. p \<in> set ps \<Longrightarrow> p \<noteq> [] \<and> hd p \<noteq> c) \<Longrightarrow> strip_first ps (c # s) = None"
proof (induction ps)
  case Nil
  then show ?case by simp
next
  case (Cons p ps)
  then have "p \<noteq> [] \<and> hd p \<noteq> c" by simp
  then have "strip_prefix p (c # s) = None" by (cases p) auto
  with Cons show ?case by simp
qed

lemma ws_heads_not_digit:
  assumes "p \<in> set ws_encodings \<or> p \<in> set (map rev ws_encodings)"
  shows "p \<noteq> [] \<and> \<not> is_digit (hd p)"
proof -
  have "list_all (\<lambda>p. p \<noteq> [] \<and> \<not> is_digit (hd p)) (ws_encodings @ map rev ws_encodings)"
    by code_simp
  with assms show ?thesis by (auto simp: list_all_iff)
qed

lemma strip_first_ws_digit:
  assumes "is_digit c"
  shows "strip_first ws_encodings (c # s) = None"
    and "strip_first (map rev ws_encodings) (c # s) = None"
  using assms ws_heads_not_digit by (blast intro: strip_first_None)+

lemma trim_nat_str [simp]: "trim (nat_str n) = nat_str n"
proof (rule trim_simple)
  obtain c t where "nat_str n = c # t"
    using nat_str_not_Nil by (meson list.exhaust)
  moreover from this have "is_digit c" using nat_str_digits [of c n] by simp
  ultimately show "strip_first ws_encodings (nat_str n) = None"
    by (simp add: strip_first_ws_digit)
  obtain d u where "rev (nat_str n) = d # u"
    using nat_str_not_Nil by (metis list.exhaust rev_is_Nil_conv)
  moreover from this have "d \<in> set (nat_str n)" by (metis list.set_intros(1) set_rev)
  then have "is_digit d" by (rule nat_str_digits)
  ultimately show "strip_first (map rev ws_encodings) (rev (nat_str n)) = None"
    by (simp add: strip_first_ws_digit)
qed

subsection \<open>Paths\<close>

text \<open>
  A \<open>PathBuf\<close> is the list of its components, which is what its \<open>Eq\<close> and \<open>Hash\<close>
  compare: repeated separators, a trailing separator and inner \<open>.\<close> components vanish. The root
  directory is the component \<open>/\<close>. \<open>path_display\<close> prints the canonical spelling.
\<close>

type_synonym path = "string list"

definition path_of :: "string \<Rightarrow> path" where
  "path_of s =
     (let parts = filter (\<lambda>w. w \<noteq> []) (split_on (CHR ''/'') s)
      in case s of
        [] \<Rightarrow> []
      | c # _ \<Rightarrow>
          (if c = CHR ''/'' then ''/'' # filter (\<lambda>w. w \<noteq> ''.'') parts
           else case parts of [] \<Rightarrow> [] | p # ps \<Rightarrow> p # filter (\<lambda>w. w \<noteq> ''.'') ps))"

definition path_is_absolute :: "path \<Rightarrow> bool" where
  "path_is_absolute p = (case p of [] \<Rightarrow> False | c # _ \<Rightarrow> c = ''/'')"

definition path_join :: "path \<Rightarrow> string \<Rightarrow> path" where
  "path_join p s =
     (if path_is_absolute (path_of s) then path_of s
      else p @ filter (\<lambda>w. w \<noteq> ''.'') (path_of s))"

definition path_parent :: "path \<Rightarrow> path option" where
  "path_parent p = (if p = [] \<or> last p = ''/'' then None else Some (butlast p))"

fun join_with :: "string \<Rightarrow> string list \<Rightarrow> string" where
  "join_with sep [] = []"
| "join_with sep [w] = w"
| "join_with sep (w # v # ws) = w @ sep @ join_with sep (v # ws)"

definition path_display :: "path \<Rightarrow> string" where
  "path_display p =
     (case p of [] \<Rightarrow> []
      | c # cs \<Rightarrow> if c = ''/'' then ''/'' @ join_with ''/'' cs else join_with ''/'' p)"

text \<open>\<open>Path::extension\<close>: what follows the last dot of the file name, unless the dot leads it.\<close>

definition path_file_name :: "path \<Rightarrow> string option" where
  "path_file_name p =
     (if p = [] \<or> last p \<in> {''/'', ''.'', ''..''} then None else Some (last p))"

definition path_extension :: "path \<Rightarrow> string option" where
  "path_extension p =
     (case path_file_name p of
        None \<Rightarrow> None
      | Some name \<Rightarrow>
          (let ext = takeWhile (\<lambda>c. c \<noteq> CHR ''.'') (rev name);
               before = drop (Suc (length ext)) (rev name)
           in if CHR ''.'' \<notin> set name \<or> before = [] then None else Some (rev ext)))"

lemma path_is_absolute_path_of:
  "path_is_absolute (path_of s) \<longleftrightarrow> (\<exists>t. s = CHR ''/'' # t)"
proof (cases s)
  case Nil
  then show ?thesis by (simp add: path_of_def path_is_absolute_def)
next
  case (Cons c t)
  have no_sep: "w \<in> set (split_on (CHR ''/'') u) \<Longrightarrow> CHR ''/'' \<notin> set w" for u w
    by (induction u arbitrary: w) (auto split: if_splits list.splits)
  show ?thesis
  proof (cases "c = CHR ''/''")
    case True
    with Cons show ?thesis by (simp add: path_of_def path_is_absolute_def Let_def)
  next
    case False
    have "filter (\<lambda>w. w \<noteq> []) (split_on (CHR ''/'') s) = p # ps \<Longrightarrow> p \<noteq> ''/''" for p ps
      using no_sep [of p s] by (auto simp: filter_eq_Cons_iff)
    with False Cons show ?thesis
      by (auto simp: path_of_def path_is_absolute_def Let_def split: list.splits)
  qed
qed

subsection \<open>Hash maps\<close>

text \<open>
  A \<open>HashMap\<close> is an association list with distinct keys; its order is the map's iteration
  order, which Rust leaves unspecified, so no component relies on a particular one. \<open>get\<close> is
  \<open>map_of\<close>, \<open>insert\<close> is \<open>AList.update\<close>, \<open>remove\<close> is \<open>AList.delete\<close>, a
  \<open>get_mut\<close> followed by an assignment is \<open>AList.map_entry\<close>, \<open>retain\<close> is \<open>filter\<close>.
\<close>

definition distinct_keys :: "('k \<times> 'v) list \<Rightarrow> bool" where
  "distinct_keys m = distinct (map fst m)"

lemma distinct_keys_Nil [simp]: "distinct_keys []"
  by (simp add: distinct_keys_def)

lemma distinct_keys_update [simp]: "distinct_keys m \<Longrightarrow> distinct_keys (AList.update k v m)"
  by (simp add: distinct_keys_def distinct_update)

lemma distinct_keys_delete [simp]: "distinct_keys m \<Longrightarrow> distinct_keys (AList.delete k m)"
  by (simp add: distinct_keys_def distinct_delete)

lemma distinct_keys_map_entry [simp]:
  "distinct_keys m \<Longrightarrow> distinct_keys (AList.map_entry k f m)"
  by (simp add: distinct_keys_def distinct_map_entry)

lemma distinct_keys_filter [simp]: "distinct_keys m \<Longrightarrow> distinct_keys (filter P m)"
  by (simp add: distinct_keys_def distinct_map_filter)

lemma map_of_eq_Some_iff_mem:
  "distinct_keys m \<Longrightarrow> map_of m k = Some v \<longleftrightarrow> (k, v) \<in> set m"
  by (simp add: distinct_keys_def)

lemma map_of_delete: "map_of (AList.delete k m) = (map_of m)(k := None)"
  by (simp add: delete_conv')

lemma map_of_retain:
  assumes "distinct_keys m"
  shows "map_of (filter (\<lambda>(k, v). P k v) m) k =
     (case map_of m k of None \<Rightarrow> None | Some v \<Rightarrow> if P k v then Some v else None)"
  using assms
proof (induction m)
  case Nil
  then show ?case by simp
next
  case (Cons e m)
  obtain k' v' where e: "e = (k', v')" by (cases e)
  from Cons.prems e have dm: "distinct_keys m" and notin: "k' \<notin> fst ` set m"
    by (auto simp: distinct_keys_def)
  from notin have "map_of m k' = None" by (simp add: map_of_eq_None_iff)
  with Cons.IH [OF dm] e show ?case by (auto split: option.splits)
qed

lemma map_of_map_entry':
  "map_of (AList.map_entry k f m) = (map_of m)(k := map_option f (map_of m k))"
  by (rule ext) (simp add: map_of_map_entry split: option.splits)

lemma map_of_map_values:
  "map_of (map (\<lambda>(k, v). (k, f k v)) m) k = map_option (f k) (map_of m k)"
  by (induction m) auto

text \<open>Counting the entries of a map that satisfy a predicate.\<close>

definition count_entries :: "('k \<Rightarrow> 'v \<Rightarrow> bool) \<Rightarrow> ('k \<times> 'v) list \<Rightarrow> nat" where
  "count_entries P m = length (filter (\<lambda>(k, v). P k v) m)"

lemma count_entries_Nil [simp]: "count_entries P [] = 0"
  by (simp add: count_entries_def)

lemma count_entries_update_new:
  "k \<notin> fst ` set m \<Longrightarrow>
     count_entries P (AList.update k v m) = count_entries P m + (if P k v then 1 else 0)"
  by (induction m) (auto simp: count_entries_def)

lemma count_entries_delete:
  "distinct_keys m \<Longrightarrow> map_of m k = Some v \<Longrightarrow>
     count_entries P m = count_entries P (AList.delete k m) + (if P k v then 1 else 0)"
proof (induction m)
  case Nil
  then show ?case by simp
next
  case (Cons e m)
  obtain k' v' where e: "e = (k', v')" by (cases e)
  show ?case
  proof (cases "k' = k")
    case True
    with Cons.prems e have "k \<notin> fst ` set m" and v: "v' = v"
      by (auto simp: distinct_keys_def)
    then have "AList.delete k m = m" by (simp add: delete_id)
    with True e v show ?thesis by (simp add: count_entries_def)
  next
    case False
    with Cons.prems e have "distinct_keys m" "map_of m k = Some v"
      by (auto simp: distinct_keys_def)
    from Cons.IH [OF this] False e show ?thesis by (simp add: count_entries_def)
  qed
qed

lemma count_entries_zero_iff:
  "count_entries P m = 0 \<longleftrightarrow> (\<forall>(k, v) \<in> set m. \<not> P k v)"
  by (auto simp: count_entries_def filter_empty_conv)

subsection \<open>Ordered maps\<close>

text \<open>
  A \<open>BTreeMap\<close> is an association list with ascending keys, its iteration order; strings compare
  by bytes, as \<open>str\<close>'s \<open>Ord\<close> does.
\<close>

fun bt_insert :: "'k::linorder \<Rightarrow> 'v \<Rightarrow> ('k \<times> 'v) list \<Rightarrow> ('k \<times> 'v) list" where
  "bt_insert k v [] = [(k, v)]"
| "bt_insert k v ((k', v') # m) =
     (if k < k' then (k, v) # (k', v') # m
      else if k = k' then (k, v) # m
      else (k', v') # bt_insert k v m)"

definition bt_sorted :: "('k::linorder \<times> 'v) list \<Rightarrow> bool" where
  "bt_sorted m = sorted_wrt (<) (map fst m)"

lemma map_of_bt_insert [simp]: "map_of (bt_insert k v m) = (map_of m)(k \<mapsto> v)"
  by (induction m) auto

lemma keys_bt_insert [simp]: "fst ` set (bt_insert k v m) = insert k (fst ` set m)"
  by (induction k v m rule: bt_insert.induct) (simp_all add: insert_commute)

lemma bt_sorted_insert [simp]: "bt_sorted m \<Longrightarrow> bt_sorted (bt_insert k v m)"
proof (induction m)
  case Nil
  then show ?case by (simp add: bt_sorted_def)
next
  case (Cons e m)
  obtain k' v' where e: "e = (k', v')" by (cases e)
  from Cons.prems e have "bt_sorted m" and "\<forall>x \<in> fst ` set m. k' < x"
    by (auto simp: bt_sorted_def)
  with Cons.IH e keys_bt_insert [of k v m] Cons.prems show ?case
    by (auto simp: bt_sorted_def simp del: keys_bt_insert)
qed

lemma bt_sorted_Nil [simp]: "bt_sorted []"
  by (simp add: bt_sorted_def)

lemma bt_sorted_distinct: "bt_sorted m \<Longrightarrow> distinct_keys m"
  by (simp add: bt_sorted_def distinct_keys_def strict_sorted_iff)

end
