(* ===== verification/Lspee_Json.thy ===== *)
theory Lspee_Json
  imports Lspee_Prelude "HOL-Library.Finite_Map"
begin

section \<open>JSON values and the derived codecs\<close>

text \<open>
  The data type mirrors \<open>serde_json::Value\<close>, whose constructors the sources match on and build
  with \<open>json!\<close>. Objects are finite maps: without the \<open>preserve_order\<close> feature (the workspace
  does not enable it) a \<open>serde_json::Map\<close> is a \<open>BTreeMap\<close>, so two objects are equal when they
  are equal as maps. Integers are the \<open>PosInt\<close>/\<open>NegInt\<close> numbers; a float is its IEEE bits.
  The text layer (\<open>serde_json::from_str\<close>, \<open>to_string\<close>) is not in the repository and stays a
  parameter of the definitions that use it.
\<close>

datatype json =
    JNull
  | JBool bool
  | JInt int
  | JFloat u64
  | JStr string
  | JArr "json list"
  | JObj "(string, json) fmap"

text \<open>An object literal of \<open>json!\<close>.\<close>

definition jobj :: "(string \<times> json) list \<Rightarrow> json" where
  "jobj kvs = JObj (fmap_of_list kvs)"

text \<open>\<open>Value::get\<close> with a string index, \<open>as_str\<close>, \<open>as_u64\<close>, \<open>as_bool\<close>.\<close>

definition jget :: "json \<Rightarrow> string \<Rightarrow> json option" where
  "jget v k = (case v of JObj m \<Rightarrow> fmlookup m k | _ \<Rightarrow> None)"

definition as_str :: "json \<Rightarrow> string option" where
  "as_str v = (case v of JStr s \<Rightarrow> Some s | _ \<Rightarrow> None)"

definition as_u64 :: "json \<Rightarrow> u64 option" where
  "as_u64 v =
     (case v of JInt i \<Rightarrow> if 0 \<le> i \<and> i < 2 ^ 64 then Some (word_of_int i) else None | _ \<Rightarrow> None)"

definition as_bool :: "json \<Rightarrow> bool option" where
  "as_bool v = (case v of JBool b \<Rightarrow> Some b | _ \<Rightarrow> None)"

definition jget_str :: "json \<Rightarrow> string \<Rightarrow> string option" where
  "jget_str v k = Option.bind (jget v k) as_str"

text \<open>
  The assignment \<open>v[k] = x\<close>: inserts into an object, turns \<open>null\<close> into an object, and panics
  (\<open>None\<close>) on anything else.
\<close>

definition jset :: "json \<Rightarrow> string \<Rightarrow> json \<Rightarrow> json option" where
  "jset v k x =
     (case v of
        JObj m \<Rightarrow> Some (JObj (fmupd k x m))
      | JNull \<Rightarrow> Some (JObj (fmupd k x fmempty))
      | _ \<Rightarrow> None)"

lemma as_simps [simp]:
  "as_str (JStr s) = Some s" "as_str JNull = None" "as_str (JBool b) = None"
  "as_str (JInt i) = None" "as_str (JFloat f) = None" "as_str (JArr xs) = None"
  "as_str (JObj m) = None" "as_bool (JBool b) = Some b" "as_bool JNull = None"
  by (simp_all add: as_str_def as_bool_def)

lemma jget_simps [simp]:
  "jget JNull k = None" "jget (JBool b) k = None" "jget (JInt i) k = None"
  "jget (JFloat f) k = None" "jget (JStr s) k = None" "jget (JArr xs) k = None"
  "jget (JObj m) k = fmlookup m k" "jget (jobj kvs) k = map_of kvs k"
  by (simp_all add: jget_def jobj_def fmlookup_of_list)

lemma jget_str_jobj [simp]: "jget_str (jobj kvs) k = Option.bind (map_of kvs k) as_str"
  by (simp add: jget_str_def)

lemma jget_Some_JObj: "jget v k = Some x \<Longrightarrow> \<exists>m. v = JObj m"
  by (cases v) simp_all

lemma jset_after_jget:
  "jget v k = Some x \<Longrightarrow> \<exists>v'. jset v k' y = Some v' \<and> jget v' k' = Some y \<and>
     (\<forall>j. j \<noteq> k' \<longrightarrow> jget v' j = jget v j)"
  by (cases v) (auto simp: jset_def)

subsection \<open>\<open>#[derive(Serialize)]\<close>\<close>

text \<open>
  A struct serialises to an object with one entry per field; a field under
  \<open>skip_serializing_if = "Option::is_none"\<close> is left out when it is \<open>None\<close>.
\<close>

fun present_fields :: "(string \<times> json option) list \<Rightarrow> (string \<times> json) list" where
  "present_fields [] = []"
| "present_fields ((k, None) # fs) = present_fields fs"
| "present_fields ((k, Some v) # fs) = (k, v) # present_fields fs"

definition jstruct :: "(string \<times> json option) list \<Rightarrow> json" where
  "jstruct fs = jobj (present_fields fs)"

lemma map_of_present_fields_absent:
  "k \<notin> set (map fst fs) \<Longrightarrow> map_of (present_fields fs) k = None"
  by (induction fs rule: present_fields.induct) auto

lemma map_of_present_fields:
  "distinct (map fst fs) \<Longrightarrow>
     map_of (present_fields fs) k = (case map_of fs k of None \<Rightarrow> None | Some v \<Rightarrow> v)"
  by (induction fs rule: present_fields.induct) (auto simp: map_of_present_fields_absent)

lemma jget_jstruct [simp]:
  "distinct (map fst fs) \<Longrightarrow>
     jget (jstruct fs) k = (case map_of fs k of None \<Rightarrow> None | Some v \<Rightarrow> v)"
  by (simp add: jstruct_def map_of_present_fields)

definition ju64 :: "u64 \<Rightarrow> json" where
  "ju64 n = JInt (uint n)"

definition ju32 :: "u32 \<Rightarrow> json" where
  "ju32 n = JInt (uint n)"

lemma ju_not_Null [simp]: "ju64 n \<noteq> JNull" "ju32 m \<noteq> JNull"
  by (simp_all add: ju64_def ju32_def)

lemma as_u64_ju64 [simp]: "as_u64 (ju64 n) = Some n"
  using uint_bounded [of n] by (simp add: as_u64_def ju64_def)

subsection \<open>\<open>#[derive(Deserialize)]\<close>\<close>

text \<open>
  A derived struct decoder reads an object by field name, ignoring unknown keys, or an array of
  exactly its fields in order. A missing field is an error unless its type is an \<open>Option\<close>, which
  also reads \<open>null\<close> as \<open>None\<close>.
\<close>

definition struct_fields :: "string list \<Rightarrow> json \<Rightarrow> (string \<Rightarrow> json option) option" where
  "struct_fields names v =
     (case v of
        JObj m \<Rightarrow> Some (fmlookup m)
      | JArr xs \<Rightarrow> if length xs = length names then Some (map_of (zip names xs)) else None
      | _ \<Rightarrow> None)"

definition de_req :: "(json \<Rightarrow> 'a option) \<Rightarrow> (string \<Rightarrow> json option) \<Rightarrow> string \<Rightarrow> 'a option" where
  "de_req d fld k = Option.bind (fld k) d"

definition de_option :: "(json \<Rightarrow> 'a option) \<Rightarrow> json \<Rightarrow> 'a option option" where
  "de_option d v = (if v = JNull then Some None else map_option Some (d v))"

definition de_opt :: "(json \<Rightarrow> 'a option) \<Rightarrow> (string \<Rightarrow> json option) \<Rightarrow> string \<Rightarrow> 'a option option" where
  "de_opt d fld k = (case fld k of None \<Rightarrow> Some None | Some v \<Rightarrow> de_option d v)"

definition de_u64 :: "json \<Rightarrow> u64 option" where
  "de_u64 = as_u64"

definition de_u32 :: "json \<Rightarrow> u32 option" where
  "de_u32 v =
     (case v of JInt i \<Rightarrow> if 0 \<le> i \<and> i < 2 ^ 32 then Some (word_of_int i) else None | _ \<Rightarrow> None)"

definition de_any :: "json \<Rightarrow> json option" where
  "de_any v = Some v"

text \<open>A list: \<open>Vec<T>\<close> decodes an array element by element.\<close>

fun de_all :: "(json \<Rightarrow> 'a option) \<Rightarrow> json list \<Rightarrow> 'a list option" where
  "de_all d [] = Some []"
| "de_all d (x # xs) =
     (case d x of None \<Rightarrow> None | Some y \<Rightarrow> map_option (Cons y) (de_all d xs))"

definition de_vec :: "(json \<Rightarrow> 'a option) \<Rightarrow> json \<Rightarrow> 'a list option" where
  "de_vec d v = (case v of JArr xs \<Rightarrow> de_all d xs | _ \<Rightarrow> None)"

text \<open>An enum of unit variants: the variant's name, or an object whose one entry maps it to null.\<close>

definition de_enum :: "(string \<times> 'a) list \<Rightarrow> json \<Rightarrow> 'a option" where
  "de_enum tbl v =
     (case v of
        JStr s \<Rightarrow> map_of tbl s
      | JObj m \<Rightarrow> map_option snd (List.find (\<lambda>(k, _). m = fmap_of_list [(k, JNull)]) tbl)
      | _ \<Rightarrow> None)"

lemma struct_fields_jstruct [simp]:
  "distinct (map fst fs) \<Longrightarrow>
     struct_fields names (jstruct fs) = Some (\<lambda>k. case map_of fs k of None \<Rightarrow> None | Some v \<Rightarrow> v)"
proof -
  assume d: "distinct (map fst fs)"
  obtain m where m: "jstruct fs = JObj m" by (simp add: jstruct_def jobj_def)
  with d have "fmlookup m k = (case map_of fs k of None \<Rightarrow> None | Some v \<Rightarrow> v)" for k
    by (metis jget_jstruct jget_simps(7))
  with m show ?thesis by (auto simp: struct_fields_def)
qed

lemma de_req_simp [simp]: "fld k = Some v \<Longrightarrow> de_req d fld k = d v"
  by (simp add: de_req_def)

lemma de_opt_simp:
  "fld k = map_option f x \<Longrightarrow> (\<And>y. x = Some y \<Longrightarrow> f y \<noteq> JNull \<and> d (f y) = Some y) \<Longrightarrow>
     de_opt d fld k = Some x"
  by (cases x) (simp_all add: de_opt_def de_option_def)

lemma de_opt_any:
  "fld k = x \<Longrightarrow> x \<noteq> Some JNull \<Longrightarrow> de_opt de_any fld k = Some x"
  by (cases x) (auto simp: de_opt_def de_option_def de_any_def)

lemma de_u64_ju64 [simp]: "de_u64 (ju64 n) = Some n"
  by (simp add: de_u64_def)

lemma de_u32_ju32 [simp]: "de_u32 (ju32 n) = Some n"
  using uint_bounded [of n] by (simp add: de_u32_def ju32_def)

lemma de_any_simp [simp]: "de_any v = Some v"
  by (simp add: de_any_def)

lemma de_vec_map [simp]:
  "(\<And>x. x \<in> set xs \<Longrightarrow> d (f x) = Some x) \<Longrightarrow> de_vec d (JArr (map f xs)) = Some xs"
  by (induction xs) (simp_all add: de_vec_def)

lemma de_enum_name [simp]: "de_enum tbl (JStr s) = map_of tbl s"
  by (simp add: de_enum_def)

text \<open>
  The text layer the sources get from \<open>serde_json\<close>: a printer and a parser such that parsing a
  printed value gives it back, and the compact printing is non-empty UTF-8 text without a raw line
  break (control characters are escaped).
\<close>

definition json_text_ok :: "(json \<Rightarrow> string) \<Rightarrow> (string \<Rightarrow> json option) \<Rightarrow> json \<Rightarrow> bool" where
  "json_text_ok ser par v =
     (par (ser v) = Some v \<and> ser v \<noteq> [] \<and> LF \<notin> set (ser v) \<and> CR \<notin> set (ser v) \<and>
      utf8_valid (ser v))"

lemma json_text_okD:
  assumes "json_text_ok ser par v"
  shows "par (ser v) = Some v" "ser v \<noteq> []" "LF \<notin> set (ser v)" "CR \<notin> set (ser v)"
    "utf8_valid (ser v)"
  using assms by (simp_all add: json_text_ok_def)

end
