(* ===== verification/Lspee_Protocol.thy ===== *)
theory Lspee_Protocol
  imports Lspee_Json
begin

section \<open>Wire protocol\<close>

text \<open>
  The constants and wire structs of \<open>crates/lspee_protocol/src/lib.rs\<close>: one record per struct,
  one datatype per enum, and for each the JSON its derived \<open>Serialize\<close> writes (\<open>to_value_...\<close>)
  and its derived \<open>Deserialize\<close> reads (\<open>from_value_...\<close>). The lemmas are the round trips.
\<close>

definition PROTOCOL_VERSION :: u32 where [lspee_defs]: "PROTOCOL_VERSION = 1"
definition MAX_FRAME_SIZE_BYTES :: nat where "MAX_FRAME_SIZE_BYTES = 1048576"

abbreviation TYPE_ATTACH :: string where "TYPE_ATTACH \<equiv> ''Attach''"
abbreviation TYPE_ATTACH_OK :: string where "TYPE_ATTACH_OK \<equiv> ''AttachOk''"
abbreviation TYPE_RELEASE :: string where "TYPE_RELEASE \<equiv> ''Release''"
abbreviation TYPE_RELEASE_OK :: string where "TYPE_RELEASE_OK \<equiv> ''ReleaseOk''"
abbreviation TYPE_CALL :: string where "TYPE_CALL \<equiv> ''Call''"
abbreviation TYPE_CALL_OK :: string where "TYPE_CALL_OK \<equiv> ''CallOk''"
abbreviation TYPE_NOTIFY :: string where "TYPE_NOTIFY \<equiv> ''Notify''"
abbreviation TYPE_NOTIFY_OK :: string where "TYPE_NOTIFY_OK \<equiv> ''NotifyOk''"
abbreviation TYPE_PING :: string where "TYPE_PING \<equiv> ''Ping''"
abbreviation TYPE_PONG :: string where "TYPE_PONG \<equiv> ''Pong''"
abbreviation TYPE_SHUTDOWN :: string where "TYPE_SHUTDOWN \<equiv> ''Shutdown''"
abbreviation TYPE_SHUTDOWN_OK :: string where "TYPE_SHUTDOWN_OK \<equiv> ''ShutdownOk''"
abbreviation TYPE_STATS :: string where "TYPE_STATS \<equiv> ''Stats''"
abbreviation TYPE_STATS_OK :: string where "TYPE_STATS_OK \<equiv> ''StatsOk''"
abbreviation TYPE_ERROR :: string where "TYPE_ERROR \<equiv> ''Error''"

abbreviation ERROR_UNSUPPORTED_VERSION :: string where
  "ERROR_UNSUPPORTED_VERSION \<equiv> ''E_UNSUPPORTED_VERSION''"
abbreviation ERROR_BAD_MESSAGE :: string where "ERROR_BAD_MESSAGE \<equiv> ''E_BAD_MESSAGE''"
abbreviation ERROR_FRAME_TOO_LARGE :: string where "ERROR_FRAME_TOO_LARGE \<equiv> ''E_FRAME_TOO_LARGE''"
abbreviation ERROR_UNKNOWN_TYPE :: string where "ERROR_UNKNOWN_TYPE \<equiv> ''E_UNKNOWN_TYPE''"
abbreviation ERROR_TIMEOUT :: string where "ERROR_TIMEOUT \<equiv> ''E_TIMEOUT''"
abbreviation ERROR_INTERNAL :: string where "ERROR_INTERNAL \<equiv> ''E_INTERNAL''"
abbreviation ERROR_INVALID_SESSION_KEY :: string where
  "ERROR_INVALID_SESSION_KEY \<equiv> ''E_INVALID_SESSION_KEY''"
abbreviation ERROR_SESSION_SPAWN_FAILED :: string where
  "ERROR_SESSION_SPAWN_FAILED \<equiv> ''E_SESSION_SPAWN_FAILED''"
abbreviation ERROR_SESSION_RESTARTING :: string where
  "ERROR_SESSION_RESTARTING \<equiv> ''E_SESSION_RESTARTING''"
abbreviation ERROR_LEASE_NOT_FOUND :: string where
  "ERROR_LEASE_NOT_FOUND \<equiv> ''E_LEASE_NOT_FOUND''"
abbreviation ERROR_SESSION_EVICTED_MEMORY :: string where
  "ERROR_SESSION_EVICTED_MEMORY \<equiv> ''E_SESSION_EVICTED_MEMORY''"

subsection \<open>The control envelope\<close>

record control_envelope =
  ce_v :: u32
  ce_id :: "string option"
  ce_type :: string
  ce_payload :: json

definition to_value_envelope :: "control_envelope \<Rightarrow> json" where
  "to_value_envelope e = jstruct
     [(''v'', Some (ju32 (ce_v e))), (''id'', map_option JStr (ce_id e)),
      (''type'', Some (JStr (ce_type e))), (''payload'', Some (ce_payload e))]"

definition from_value_envelope :: "json \<Rightarrow> control_envelope option" where
  "from_value_envelope j =
     Option.bind (struct_fields [''v'', ''id'', ''type'', ''payload''] j) (\<lambda>fld.
     Option.bind (de_req de_u32 fld ''v'') (\<lambda>v.
     Option.bind (de_opt as_str fld ''id'') (\<lambda>i.
     Option.bind (de_req as_str fld ''type'') (\<lambda>t.
     Option.bind (de_req de_any fld ''payload'') (\<lambda>p.
       Some \<lparr>ce_v = v, ce_id = i, ce_type = t, ce_payload = p\<rparr>)))))"

lemma envelope_roundtrip: "from_value_envelope (to_value_envelope e) = Some e"
  by (simp add: from_value_envelope_def to_value_envelope_def
      de_opt_simp [where f = JStr and x = "ce_id e"])

subsection \<open>Attach\<close>

record session_key_wire =
  skw_project_root :: string
  skw_config_hash :: string
  skw_lsp_id :: string

datatype client_kind = Editor | Agent | Human | Ci | Other

datatype stream_mode = Dedicated | MuxControl

record client_meta =
  cm_client_name :: string
  cm_client_version :: string
  cm_client_kind :: "client_kind option"
  cm_pid :: "u32 option"
  cm_cwd :: "string option"

record attach_capabilities =
  ac_stream_mode :: "stream_mode list"

record attach =
  at_session_key :: session_key_wire
  at_client_meta :: client_meta
  at_capabilities :: "attach_capabilities option"

definition to_value_session_key :: "session_key_wire \<Rightarrow> json" where
  "to_value_session_key k = jstruct
     [(''project_root'', Some (JStr (skw_project_root k))),
      (''config_hash'', Some (JStr (skw_config_hash k))),
      (''lsp_id'', Some (JStr (skw_lsp_id k)))]"

definition from_value_session_key :: "json \<Rightarrow> session_key_wire option" where
  "from_value_session_key j =
     Option.bind (struct_fields [''project_root'', ''config_hash'', ''lsp_id''] j) (\<lambda>fld.
     Option.bind (de_req as_str fld ''project_root'') (\<lambda>r.
     Option.bind (de_req as_str fld ''config_hash'') (\<lambda>h.
     Option.bind (de_req as_str fld ''lsp_id'') (\<lambda>l.
       Some \<lparr>skw_project_root = r, skw_config_hash = h, skw_lsp_id = l\<rparr>))))"

definition client_kind_table :: "(string \<times> client_kind) list" where
  "client_kind_table =
     [(''editor'', Editor), (''agent'', Agent), (''human'', Human), (''ci'', Ci), (''other'', Other)]"

fun client_kind_name :: "client_kind \<Rightarrow> string" where
  "client_kind_name Editor = ''editor''"
| "client_kind_name Agent = ''agent''"
| "client_kind_name Human = ''human''"
| "client_kind_name Ci = ''ci''"
| "client_kind_name Other = ''other''"

definition stream_mode_table :: "(string \<times> stream_mode) list" where
  "stream_mode_table = [(''dedicated'', Dedicated), (''mux_control'', MuxControl)]"

fun stream_mode_name :: "stream_mode \<Rightarrow> string" where
  "stream_mode_name Dedicated = ''dedicated''"
| "stream_mode_name MuxControl = ''mux_control''"

lemma client_kind_table_name [simp]: "map_of client_kind_table (client_kind_name k) = Some k"
  by (cases k) (simp_all add: client_kind_table_def)

lemma stream_mode_table_name [simp]: "map_of stream_mode_table (stream_mode_name m) = Some m"
  by (cases m) (simp_all add: stream_mode_table_def)

definition to_value_client_meta :: "client_meta \<Rightarrow> json" where
  "to_value_client_meta m = jstruct
     [(''client_name'', Some (JStr (cm_client_name m))),
      (''client_version'', Some (JStr (cm_client_version m))),
      (''client_kind'', map_option (\<lambda>k. JStr (client_kind_name k)) (cm_client_kind m)),
      (''pid'', map_option ju32 (cm_pid m)),
      (''cwd'', map_option JStr (cm_cwd m))]"

definition from_value_client_meta :: "json \<Rightarrow> client_meta option" where
  "from_value_client_meta j =
     Option.bind (struct_fields [''client_name'', ''client_version'', ''client_kind'', ''pid'', ''cwd''] j)
       (\<lambda>fld.
     Option.bind (de_req as_str fld ''client_name'') (\<lambda>n.
     Option.bind (de_req as_str fld ''client_version'') (\<lambda>v.
     Option.bind (de_opt (de_enum client_kind_table) fld ''client_kind'') (\<lambda>k.
     Option.bind (de_opt de_u32 fld ''pid'') (\<lambda>p.
     Option.bind (de_opt as_str fld ''cwd'') (\<lambda>c.
       Some \<lparr>cm_client_name = n, cm_client_version = v, cm_client_kind = k, cm_pid = p, cm_cwd = c\<rparr>))))))"

definition to_value_capabilities :: "attach_capabilities \<Rightarrow> json" where
  "to_value_capabilities c = jstruct
     [(''stream_mode'', Some (JArr (map (\<lambda>m. JStr (stream_mode_name m)) (ac_stream_mode c))))]"

definition from_value_capabilities :: "json \<Rightarrow> attach_capabilities option" where
  "from_value_capabilities j =
     Option.bind (struct_fields [''stream_mode''] j) (\<lambda>fld.
     Option.bind (de_req (de_vec (de_enum stream_mode_table)) fld ''stream_mode'') (\<lambda>ms.
       Some \<lparr>ac_stream_mode = ms\<rparr>))"

definition to_value_attach :: "attach \<Rightarrow> json" where
  "to_value_attach a = jstruct
     [(''session_key'', Some (to_value_session_key (at_session_key a))),
      (''client_meta'', Some (to_value_client_meta (at_client_meta a))),
      (''capabilities'', map_option to_value_capabilities (at_capabilities a))]"

definition from_value_attach :: "json \<Rightarrow> attach option" where
  "from_value_attach j =
     Option.bind (struct_fields [''session_key'', ''client_meta'', ''capabilities''] j) (\<lambda>fld.
     Option.bind (de_req from_value_session_key fld ''session_key'') (\<lambda>k.
     Option.bind (de_req from_value_client_meta fld ''client_meta'') (\<lambda>m.
     Option.bind (de_opt from_value_capabilities fld ''capabilities'') (\<lambda>c.
       Some \<lparr>at_session_key = k, at_client_meta = m, at_capabilities = c\<rparr>))))"

lemma jstruct_not_Null [simp]: "jstruct fs \<noteq> JNull"
  by (simp add: jstruct_def jobj_def)

lemma session_key_roundtrip [simp]: "from_value_session_key (to_value_session_key k) = Some k"
  by (simp add: from_value_session_key_def to_value_session_key_def)

lemma client_meta_roundtrip [simp]: "from_value_client_meta (to_value_client_meta m) = Some m"
  by (simp add: from_value_client_meta_def to_value_client_meta_def
      de_opt_simp [where f = JStr and x = "cm_cwd m"]
      de_opt_simp [where f = ju32 and x = "cm_pid m"]
      de_opt_simp [where f = "\<lambda>k. JStr (client_kind_name k)" and x = "cm_client_kind m"])

lemma capabilities_roundtrip [simp]:
  "from_value_capabilities (to_value_capabilities c) = Some c"
  by (simp add: from_value_capabilities_def to_value_capabilities_def)

lemma attach_roundtrip: "from_value_attach (to_value_attach a) = Some a"
proof -
  have "to_value_capabilities c \<noteq> JNull" for c by (simp add: to_value_capabilities_def)
  then show ?thesis
    by (simp add: from_value_attach_def to_value_attach_def
        de_opt_simp [where f = to_value_capabilities and x = "at_capabilities a"])
qed

subsection \<open>Attach replies\<close>

record server_info =
  si_state :: string
  si_reused :: bool

definition to_value_server_info :: "server_info \<Rightarrow> json" where
  "to_value_server_info x = jstruct
     [(''state'', Some (JStr (si_state x))),
      (''reused'', Some (JBool (si_reused x)))]"

definition from_value_server_info :: "json \<Rightarrow> server_info option" where
  "from_value_server_info j =
     Option.bind (struct_fields [''state'', ''reused''] j) (\<lambda>fld.
     Option.bind (de_req as_str fld ''state'') (\<lambda>f0.
     Option.bind (de_req as_bool fld ''reused'') (\<lambda>f1.
       Some \<lparr>si_state = f0, si_reused = f1\<rparr>)))"

lemma server_info_roundtrip [simp]:
  "from_value_server_info (to_value_server_info x) = Some x"
  by (simp add: from_value_server_info_def to_value_server_info_def)

lemma to_value_server_info_not_Null [simp]: "to_value_server_info x \<noteq> JNull"
  by (simp add: to_value_server_info_def)

record stream_info =
  st_mode :: stream_mode
  st_endpoint :: "string option"

definition to_value_stream_info :: "stream_info \<Rightarrow> json" where
  "to_value_stream_info x = jstruct
     [(''mode'', Some (JStr (stream_mode_name (st_mode x)))),
      (''endpoint'', map_option JStr (st_endpoint x))]"

definition from_value_stream_info :: "json \<Rightarrow> stream_info option" where
  "from_value_stream_info j =
     Option.bind (struct_fields [''mode'', ''endpoint''] j) (\<lambda>fld.
     Option.bind (de_req (de_enum stream_mode_table) fld ''mode'') (\<lambda>f0.
     Option.bind (de_opt as_str fld ''endpoint'') (\<lambda>f1.
       Some \<lparr>st_mode = f0, st_endpoint = f1\<rparr>)))"

lemma stream_info_roundtrip [simp]:
  "from_value_stream_info (to_value_stream_info x) = Some x"
  by (simp add: from_value_stream_info_def to_value_stream_info_def
      de_opt_simp [where f = JStr and x = "st_endpoint x"])

lemma to_value_stream_info_not_Null [simp]: "to_value_stream_info x \<noteq> JNull"
  by (simp add: to_value_stream_info_def)

record attach_ok =
  ao_lease_id :: string
  ao_session_id :: "string option"
  ao_stream :: stream_info
  ao_server :: "server_info option"
  ao_initialize_result :: "json option"

definition to_value_attach_ok :: "attach_ok \<Rightarrow> json" where
  "to_value_attach_ok x = jstruct
     [(''lease_id'', Some (JStr (ao_lease_id x))),
      (''session_id'', map_option JStr (ao_session_id x)),
      (''stream'', Some (to_value_stream_info (ao_stream x))),
      (''server'', map_option to_value_server_info (ao_server x)),
      (''initialize_result'', ao_initialize_result x)]"

definition from_value_attach_ok :: "json \<Rightarrow> attach_ok option" where
  "from_value_attach_ok j =
     Option.bind (struct_fields [''lease_id'', ''session_id'', ''stream'', ''server'', ''initialize_result''] j) (\<lambda>fld.
     Option.bind (de_req as_str fld ''lease_id'') (\<lambda>f0.
     Option.bind (de_opt as_str fld ''session_id'') (\<lambda>f1.
     Option.bind (de_req from_value_stream_info fld ''stream'') (\<lambda>f2.
     Option.bind (de_opt from_value_server_info fld ''server'') (\<lambda>f3.
     Option.bind (de_opt de_any fld ''initialize_result'') (\<lambda>f4.
       Some \<lparr>ao_lease_id = f0, ao_session_id = f1, ao_stream = f2, ao_server = f3, ao_initialize_result = f4\<rparr>))))))"

lemma attach_ok_roundtrip:
  "ao_initialize_result x \<noteq> Some JNull \<Longrightarrow> from_value_attach_ok (to_value_attach_ok x) = Some x"
  by (simp add: from_value_attach_ok_def to_value_attach_ok_def
      de_opt_simp [where f = JStr and x = "ao_session_id x"]
      de_opt_simp [where f = to_value_server_info and x = "ao_server x"]
      de_opt_any [where x = "ao_initialize_result x"])

lemma to_value_attach_ok_not_Null [simp]: "to_value_attach_ok x \<noteq> JNull"
  by (simp add: to_value_attach_ok_def)

subsection \<open>Release, Call, Notify\<close>

datatype release_reason = ClientExit | ClientDisconnect | ReasonShutdown | ReasonError

definition release_reason_table :: "(string \<times> release_reason) list" where
  "release_reason_table =
     [(''client_exit'', ClientExit), (''client_disconnect'', ClientDisconnect),
      (''shutdown'', ReasonShutdown), (''error'', ReasonError)]"

fun release_reason_name :: "release_reason \<Rightarrow> string" where
  "release_reason_name ClientExit = ''client_exit''"
| "release_reason_name ClientDisconnect = ''client_disconnect''"
| "release_reason_name ReasonShutdown = ''shutdown''"
| "release_reason_name ReasonError = ''error''"

lemma release_reason_table_name [simp]: "map_of release_reason_table (release_reason_name r) = Some r"
  by (cases r) (simp_all add: release_reason_table_def)

record release =
  rl_lease_id :: string
  rl_reason :: "release_reason option"

definition to_value_release :: "release \<Rightarrow> json" where
  "to_value_release x = jstruct
     [(''lease_id'', Some (JStr (rl_lease_id x))),
      (''reason'', map_option (\<lambda>k. JStr (release_reason_name k)) (rl_reason x))]"

definition from_value_release :: "json \<Rightarrow> release option" where
  "from_value_release j =
     Option.bind (struct_fields [''lease_id'', ''reason''] j) (\<lambda>fld.
     Option.bind (de_req as_str fld ''lease_id'') (\<lambda>f0.
     Option.bind (de_opt (de_enum release_reason_table) fld ''reason'') (\<lambda>f1.
       Some \<lparr>rl_lease_id = f0, rl_reason = f1\<rparr>)))"

lemma release_roundtrip [simp]:
  "from_value_release (to_value_release x) = Some x"
  by (simp add: from_value_release_def to_value_release_def
      de_opt_simp [where f = "\<lambda>k. JStr (release_reason_name k)" and x = "rl_reason x"])

lemma to_value_release_not_Null [simp]: "to_value_release x \<noteq> JNull"
  by (simp add: to_value_release_def)

record release_ok =
  ro_lease_id :: string
  ro_ref_count :: u64

definition to_value_release_ok :: "release_ok \<Rightarrow> json" where
  "to_value_release_ok x = jstruct
     [(''lease_id'', Some (JStr (ro_lease_id x))),
      (''ref_count'', Some (ju64 (ro_ref_count x)))]"

definition from_value_release_ok :: "json \<Rightarrow> release_ok option" where
  "from_value_release_ok j =
     Option.bind (struct_fields [''lease_id'', ''ref_count''] j) (\<lambda>fld.
     Option.bind (de_req as_str fld ''lease_id'') (\<lambda>f0.
     Option.bind (de_req de_u64 fld ''ref_count'') (\<lambda>f1.
       Some \<lparr>ro_lease_id = f0, ro_ref_count = f1\<rparr>)))"

lemma release_ok_roundtrip [simp]:
  "from_value_release_ok (to_value_release_ok x) = Some x"
  by (simp add: from_value_release_ok_def to_value_release_ok_def)

lemma to_value_release_ok_not_Null [simp]: "to_value_release_ok x \<noteq> JNull"
  by (simp add: to_value_release_ok_def)

record call =
  ca_lease_id :: string
  ca_request :: json

definition to_value_call :: "call \<Rightarrow> json" where
  "to_value_call x = jstruct
     [(''lease_id'', Some (JStr (ca_lease_id x))),
      (''request'', Some (ca_request x))]"

definition from_value_call :: "json \<Rightarrow> call option" where
  "from_value_call j =
     Option.bind (struct_fields [''lease_id'', ''request''] j) (\<lambda>fld.
     Option.bind (de_req as_str fld ''lease_id'') (\<lambda>f0.
     Option.bind (de_req de_any fld ''request'') (\<lambda>f1.
       Some \<lparr>ca_lease_id = f0, ca_request = f1\<rparr>)))"

lemma call_roundtrip [simp]:
  "from_value_call (to_value_call x) = Some x"
  by (simp add: from_value_call_def to_value_call_def)

lemma to_value_call_not_Null [simp]: "to_value_call x \<noteq> JNull"
  by (simp add: to_value_call_def)

record call_ok =
  co_lease_id :: string
  co_response :: json

definition to_value_call_ok :: "call_ok \<Rightarrow> json" where
  "to_value_call_ok x = jstruct
     [(''lease_id'', Some (JStr (co_lease_id x))),
      (''response'', Some (co_response x))]"

definition from_value_call_ok :: "json \<Rightarrow> call_ok option" where
  "from_value_call_ok j =
     Option.bind (struct_fields [''lease_id'', ''response''] j) (\<lambda>fld.
     Option.bind (de_req as_str fld ''lease_id'') (\<lambda>f0.
     Option.bind (de_req de_any fld ''response'') (\<lambda>f1.
       Some \<lparr>co_lease_id = f0, co_response = f1\<rparr>)))"

lemma call_ok_roundtrip [simp]:
  "from_value_call_ok (to_value_call_ok x) = Some x"
  by (simp add: from_value_call_ok_def to_value_call_ok_def)

lemma to_value_call_ok_not_Null [simp]: "to_value_call_ok x \<noteq> JNull"
  by (simp add: to_value_call_ok_def)

record notify =
  no_lease_id :: string
  no_message :: json

definition to_value_notify :: "notify \<Rightarrow> json" where
  "to_value_notify x = jstruct
     [(''lease_id'', Some (JStr (no_lease_id x))),
      (''message'', Some (no_message x))]"

definition from_value_notify :: "json \<Rightarrow> notify option" where
  "from_value_notify j =
     Option.bind (struct_fields [''lease_id'', ''message''] j) (\<lambda>fld.
     Option.bind (de_req as_str fld ''lease_id'') (\<lambda>f0.
     Option.bind (de_req de_any fld ''message'') (\<lambda>f1.
       Some \<lparr>no_lease_id = f0, no_message = f1\<rparr>)))"

lemma notify_roundtrip [simp]:
  "from_value_notify (to_value_notify x) = Some x"
  by (simp add: from_value_notify_def to_value_notify_def)

lemma to_value_notify_not_Null [simp]: "to_value_notify x \<noteq> JNull"
  by (simp add: to_value_notify_def)

record notify_ok =
  nk_lease_id :: string

definition to_value_notify_ok :: "notify_ok \<Rightarrow> json" where
  "to_value_notify_ok x = jstruct
     [(''lease_id'', Some (JStr (nk_lease_id x)))]"

definition from_value_notify_ok :: "json \<Rightarrow> notify_ok option" where
  "from_value_notify_ok j =
     Option.bind (struct_fields [''lease_id''] j) (\<lambda>fld.
     Option.bind (de_req as_str fld ''lease_id'') (\<lambda>f0.
       Some \<lparr>nk_lease_id = f0\<rparr>))"

lemma notify_ok_roundtrip [simp]:
  "from_value_notify_ok (to_value_notify_ok x) = Some x"
  by (simp add: from_value_notify_ok_def to_value_notify_ok_def)

lemma to_value_notify_ok_not_Null [simp]: "to_value_notify_ok x \<noteq> JNull"
  by (simp add: to_value_notify_ok_def)

subsection \<open>Ping, Shutdown, Stats\<close>

record ping =
  pi_ts_ms :: u64

definition to_value_ping :: "ping \<Rightarrow> json" where
  "to_value_ping x = jstruct
     [(''ts_ms'', Some (ju64 (pi_ts_ms x)))]"

definition from_value_ping :: "json \<Rightarrow> ping option" where
  "from_value_ping j =
     Option.bind (struct_fields [''ts_ms''] j) (\<lambda>fld.
     Option.bind (de_req de_u64 fld ''ts_ms'') (\<lambda>f0.
       Some \<lparr>pi_ts_ms = f0\<rparr>))"

lemma ping_roundtrip [simp]:
  "from_value_ping (to_value_ping x) = Some x"
  by (simp add: from_value_ping_def to_value_ping_def)

lemma to_value_ping_not_Null [simp]: "to_value_ping x \<noteq> JNull"
  by (simp add: to_value_ping_def)

record pong =
  po_ts_ms :: u64

definition to_value_pong :: "pong \<Rightarrow> json" where
  "to_value_pong x = jstruct
     [(''ts_ms'', Some (ju64 (po_ts_ms x)))]"

definition from_value_pong :: "json \<Rightarrow> pong option" where
  "from_value_pong j =
     Option.bind (struct_fields [''ts_ms''] j) (\<lambda>fld.
     Option.bind (de_req de_u64 fld ''ts_ms'') (\<lambda>f0.
       Some \<lparr>po_ts_ms = f0\<rparr>))"

lemma pong_roundtrip [simp]:
  "from_value_pong (to_value_pong x) = Some x"
  by (simp add: from_value_pong_def to_value_pong_def)

lemma to_value_pong_not_Null [simp]: "to_value_pong x \<noteq> JNull"
  by (simp add: to_value_pong_def)

text \<open>\<open>Shutdown {}\<close> and \<open>Stats {}\<close> have no field: any object decodes, and the empty array.\<close>

definition to_value_shutdown :: "unit \<Rightarrow> json" where
  "to_value_shutdown x = jstruct []"

definition from_value_shutdown :: "json \<Rightarrow> unit option" where
  "from_value_shutdown j = map_option (\<lambda>_. ()) (struct_fields [] j)"

definition to_value_stats :: "unit \<Rightarrow> json" where
  "to_value_stats x = jstruct []"

lemma shutdown_roundtrip [simp]: "from_value_shutdown (to_value_shutdown x) = Some x"
  by (simp add: from_value_shutdown_def to_value_shutdown_def)

record shutdown_ok =
  sd_accepted :: bool

definition to_value_shutdown_ok :: "shutdown_ok \<Rightarrow> json" where
  "to_value_shutdown_ok x = jstruct
     [(''accepted'', Some (JBool (sd_accepted x)))]"

definition from_value_shutdown_ok :: "json \<Rightarrow> shutdown_ok option" where
  "from_value_shutdown_ok j =
     Option.bind (struct_fields [''accepted''] j) (\<lambda>fld.
     Option.bind (de_req as_bool fld ''accepted'') (\<lambda>f0.
       Some \<lparr>sd_accepted = f0\<rparr>))"

lemma shutdown_ok_roundtrip [simp]:
  "from_value_shutdown_ok (to_value_shutdown_ok x) = Some x"
  by (simp add: from_value_shutdown_ok_def to_value_shutdown_ok_def)

lemma to_value_shutdown_ok_not_Null [simp]: "to_value_shutdown_ok x \<noteq> JNull"
  by (simp add: to_value_shutdown_ok_def)

record memory_stats =
  mst_total_bytes :: u64
  mst_max_total_bytes :: "u64 option"
  mst_max_session_bytes :: "u64 option"

definition to_value_memory_stats :: "memory_stats \<Rightarrow> json" where
  "to_value_memory_stats x = jstruct
     [(''total_bytes'', Some (ju64 (mst_total_bytes x))),
      (''max_total_bytes'', map_option ju64 (mst_max_total_bytes x)),
      (''max_session_bytes'', map_option ju64 (mst_max_session_bytes x))]"

definition from_value_memory_stats :: "json \<Rightarrow> memory_stats option" where
  "from_value_memory_stats j =
     Option.bind (struct_fields [''total_bytes'', ''max_total_bytes'', ''max_session_bytes''] j) (\<lambda>fld.
     Option.bind (de_req de_u64 fld ''total_bytes'') (\<lambda>f0.
     Option.bind (de_opt de_u64 fld ''max_total_bytes'') (\<lambda>f1.
     Option.bind (de_opt de_u64 fld ''max_session_bytes'') (\<lambda>f2.
       Some \<lparr>mst_total_bytes = f0, mst_max_total_bytes = f1, mst_max_session_bytes = f2\<rparr>))))"

lemma memory_stats_roundtrip [simp]:
  "from_value_memory_stats (to_value_memory_stats x) = Some x"
  by (simp add: from_value_memory_stats_def to_value_memory_stats_def
      de_opt_simp [where f = ju64 and x = "mst_max_total_bytes x"]
      de_opt_simp [where f = ju64 and x = "mst_max_session_bytes x"])

lemma to_value_memory_stats_not_Null [simp]: "to_value_memory_stats x \<noteq> JNull"
  by (simp add: to_value_memory_stats_def)

record stats_counters =
  stc_sessions_spawned_total :: u64
  stc_sessions_reused_total :: u64
  stc_sessions_gc_idle_total :: u64
  stc_sessions_evicted_memory_total :: u64
  stc_session_crashes_total :: u64
  stc_attach_requests_total :: u64

definition to_value_stats_counters :: "stats_counters \<Rightarrow> json" where
  "to_value_stats_counters x = jstruct
     [(''sessions_spawned_total'', Some (ju64 (stc_sessions_spawned_total x))),
      (''sessions_reused_total'', Some (ju64 (stc_sessions_reused_total x))),
      (''sessions_gc_idle_total'', Some (ju64 (stc_sessions_gc_idle_total x))),
      (''sessions_evicted_memory_total'', Some (ju64 (stc_sessions_evicted_memory_total x))),
      (''session_crashes_total'', Some (ju64 (stc_session_crashes_total x))),
      (''attach_requests_total'', Some (ju64 (stc_attach_requests_total x)))]"

definition from_value_stats_counters :: "json \<Rightarrow> stats_counters option" where
  "from_value_stats_counters j =
     Option.bind (struct_fields [''sessions_spawned_total'', ''sessions_reused_total'', ''sessions_gc_idle_total'', ''sessions_evicted_memory_total'', ''session_crashes_total'', ''attach_requests_total''] j) (\<lambda>fld.
     Option.bind (de_req de_u64 fld ''sessions_spawned_total'') (\<lambda>f0.
     Option.bind (de_req de_u64 fld ''sessions_reused_total'') (\<lambda>f1.
     Option.bind (de_req de_u64 fld ''sessions_gc_idle_total'') (\<lambda>f2.
     Option.bind (de_req de_u64 fld ''sessions_evicted_memory_total'') (\<lambda>f3.
     Option.bind (de_req de_u64 fld ''session_crashes_total'') (\<lambda>f4.
     Option.bind (de_req de_u64 fld ''attach_requests_total'') (\<lambda>f5.
       Some \<lparr>stc_sessions_spawned_total = f0, stc_sessions_reused_total = f1, stc_sessions_gc_idle_total = f2, stc_sessions_evicted_memory_total = f3, stc_session_crashes_total = f4, stc_attach_requests_total = f5\<rparr>)))))))"

lemma stats_counters_roundtrip [simp]:
  "from_value_stats_counters (to_value_stats_counters x) = Some x"
  by (simp add: from_value_stats_counters_def to_value_stats_counters_def)

lemma to_value_stats_counters_not_Null [simp]: "to_value_stats_counters x \<noteq> JNull"
  by (simp add: to_value_stats_counters_def)

record stats_ok =
  so_sessions :: u64
  so_leases :: u64
  so_uptime_ms :: u64
  so_counters :: stats_counters
  so_memory :: memory_stats

definition to_value_stats_ok :: "stats_ok \<Rightarrow> json" where
  "to_value_stats_ok x = jstruct
     [(''sessions'', Some (ju64 (so_sessions x))),
      (''leases'', Some (ju64 (so_leases x))),
      (''uptime_ms'', Some (ju64 (so_uptime_ms x))),
      (''counters'', Some (to_value_stats_counters (so_counters x))),
      (''memory'', Some (to_value_memory_stats (so_memory x)))]"

definition from_value_stats_ok :: "json \<Rightarrow> stats_ok option" where
  "from_value_stats_ok j =
     Option.bind (struct_fields [''sessions'', ''leases'', ''uptime_ms'', ''counters'', ''memory''] j) (\<lambda>fld.
     Option.bind (de_req de_u64 fld ''sessions'') (\<lambda>f0.
     Option.bind (de_req de_u64 fld ''leases'') (\<lambda>f1.
     Option.bind (de_req de_u64 fld ''uptime_ms'') (\<lambda>f2.
     Option.bind (de_req from_value_stats_counters fld ''counters'') (\<lambda>f3.
     Option.bind (de_req from_value_memory_stats fld ''memory'') (\<lambda>f4.
       Some \<lparr>so_sessions = f0, so_leases = f1, so_uptime_ms = f2, so_counters = f3, so_memory = f4\<rparr>))))))"

lemma stats_ok_roundtrip [simp]:
  "from_value_stats_ok (to_value_stats_ok x) = Some x"
  by (simp add: from_value_stats_ok_def to_value_stats_ok_def)

lemma to_value_stats_ok_not_Null [simp]: "to_value_stats_ok x \<noteq> JNull"
  by (simp add: to_value_stats_ok_def)

subsection \<open>Errors and stream frames\<close>

record error_response =
  er_code :: string
  er_message :: string
  er_retryable :: bool
  er_details :: "json option"

definition to_value_error_response :: "error_response \<Rightarrow> json" where
  "to_value_error_response x = jstruct
     [(''code'', Some (JStr (er_code x))),
      (''message'', Some (JStr (er_message x))),
      (''retryable'', Some (JBool (er_retryable x))),
      (''details'', er_details x)]"

definition from_value_error_response :: "json \<Rightarrow> error_response option" where
  "from_value_error_response j =
     Option.bind (struct_fields [''code'', ''message'', ''retryable'', ''details''] j) (\<lambda>fld.
     Option.bind (de_req as_str fld ''code'') (\<lambda>f0.
     Option.bind (de_req as_str fld ''message'') (\<lambda>f1.
     Option.bind (de_req as_bool fld ''retryable'') (\<lambda>f2.
     Option.bind (de_opt de_any fld ''details'') (\<lambda>f3.
       Some \<lparr>er_code = f0, er_message = f1, er_retryable = f2, er_details = f3\<rparr>)))))"

lemma error_response_roundtrip:
  "er_details x \<noteq> Some JNull \<Longrightarrow> from_value_error_response (to_value_error_response x) = Some x"
  by (simp add: from_value_error_response_def to_value_error_response_def
      de_opt_any [where x = "er_details x"])

lemma to_value_error_response_not_Null [simp]: "to_value_error_response x \<noteq> JNull"
  by (simp add: to_value_error_response_def)

datatype stream_frame_type = LspIn | LspOut | StreamError

definition stream_frame_type_table :: "(string \<times> stream_frame_type) list" where
  "stream_frame_type_table = [(''LspIn'', LspIn), (''LspOut'', LspOut), (''StreamError'', StreamError)]"

fun stream_frame_type_name :: "stream_frame_type \<Rightarrow> string" where
  "stream_frame_type_name LspIn = ''LspIn''"
| "stream_frame_type_name LspOut = ''LspOut''"
| "stream_frame_type_name StreamError = ''StreamError''"

lemma stream_frame_type_table_name [simp]:
  "map_of stream_frame_type_table (stream_frame_type_name t) = Some t"
  by (cases t) (simp_all add: stream_frame_type_table_def)

record stream_frame =
  sf_v :: u32
  sf_frame_type :: stream_frame_type
  sf_lease_id :: string
  sf_seq :: u64
  sf_payload :: json

definition to_value_stream_frame :: "stream_frame \<Rightarrow> json" where
  "to_value_stream_frame x = jstruct
     [(''v'', Some (ju32 (sf_v x))),
      (''type'', Some (JStr (stream_frame_type_name (sf_frame_type x)))),
      (''lease_id'', Some (JStr (sf_lease_id x))),
      (''seq'', Some (ju64 (sf_seq x))),
      (''payload'', Some (sf_payload x))]"

definition from_value_stream_frame :: "json \<Rightarrow> stream_frame option" where
  "from_value_stream_frame j =
     Option.bind (struct_fields [''v'', ''type'', ''lease_id'', ''seq'', ''payload''] j) (\<lambda>fld.
     Option.bind (de_req de_u32 fld ''v'') (\<lambda>f0.
     Option.bind (de_req (de_enum stream_frame_type_table) fld ''type'') (\<lambda>f1.
     Option.bind (de_req as_str fld ''lease_id'') (\<lambda>f2.
     Option.bind (de_req de_u64 fld ''seq'') (\<lambda>f3.
     Option.bind (de_req de_any fld ''payload'') (\<lambda>f4.
       Some \<lparr>sf_v = f0, sf_frame_type = f1, sf_lease_id = f2, sf_seq = f3, sf_payload = f4\<rparr>))))))"

lemma stream_frame_roundtrip [simp]:
  "from_value_stream_frame (to_value_stream_frame x) = Some x"
  by (simp add: from_value_stream_frame_def to_value_stream_frame_def)

lemma to_value_stream_frame_not_Null [simp]: "to_value_stream_frame x \<noteq> JNull"
  by (simp add: to_value_stream_frame_def)

record stream_error_payload =
  sep_code :: string
  sep_message :: string
  sep_retryable :: bool
  sep_details :: "json option"

definition to_value_stream_error_payload :: "stream_error_payload \<Rightarrow> json" where
  "to_value_stream_error_payload x = jstruct
     [(''code'', Some (JStr (sep_code x))),
      (''message'', Some (JStr (sep_message x))),
      (''retryable'', Some (JBool (sep_retryable x))),
      (''details'', sep_details x)]"

definition from_value_stream_error_payload :: "json \<Rightarrow> stream_error_payload option" where
  "from_value_stream_error_payload j =
     Option.bind (struct_fields [''code'', ''message'', ''retryable'', ''details''] j) (\<lambda>fld.
     Option.bind (de_req as_str fld ''code'') (\<lambda>f0.
     Option.bind (de_req as_str fld ''message'') (\<lambda>f1.
     Option.bind (de_req as_bool fld ''retryable'') (\<lambda>f2.
     Option.bind (de_opt de_any fld ''details'') (\<lambda>f3.
       Some \<lparr>sep_code = f0, sep_message = f1, sep_retryable = f2, sep_details = f3\<rparr>)))))"

lemma stream_error_payload_roundtrip:
  "sep_details x \<noteq> Some JNull \<Longrightarrow> from_value_stream_error_payload (to_value_stream_error_payload x) = Some x"
  by (simp add: from_value_stream_error_payload_def to_value_stream_error_payload_def
      de_opt_any [where x = "sep_details x"])

lemma to_value_stream_error_payload_not_Null [simp]: "to_value_stream_error_payload x \<noteq> JNull"
  by (simp add: to_value_stream_error_payload_def)

end
