(* ===== verification/Lspee_Registry.thy ===== *)
theory Lspee_Registry
  imports Lspee_Protocol
begin

section \<open>Session registry\<close>

text \<open>
  \<open>crates/lspee_daemon/src/registry.rs\<close>: the sessions keyed by project root, language server and
  configuration hash, the leases clients hold on them, and the spawn gates. Every definition
  between two \<open>await\<close> points that runs under one lock is one atomic section here
  (\<open>count_attach\<close>, \<open>gate_for\<close>, \<open>try_reuse\<close>, \<open>enter_gate\<close>, \<open>finish_spawn\<close>,
  \<open>install\<close>, \<open>drop_gate\<close>, ...); the operations compose them in the order of the code. The
  theory \<open>Lspee_Registry_Conc\<close> interleaves the same sections.

  A runtime (\<open>Arc<LspRuntime>\<close>) is the number of the child process; reading the clock is the
  argument \<open>now\<close>. Counters are \<open>u64\<close> and wrap; \<open>ref_count\<close> is a \<open>usize\<close> that the
  invariant bounds by the number of leases in memory, so it is a natural number.
\<close>

subsection \<open>State\<close>

definition DEFAULT_IDLE_TTL :: duration where "DEFAULT_IDLE_TTL = from_secs 300"

record session_key =
  sk_root :: path
  sk_lsp_id :: string
  sk_config_hash :: string

definition session_key_new :: "path \<Rightarrow> string \<Rightarrow> string \<Rightarrow> session_key" where
  "session_key_new root lsp_id config_hash =
     \<lparr>sk_root = root, sk_lsp_id = lsp_id, sk_config_hash = config_hash\<rparr>"

record session_handle =
  sh_key :: session_key
  sh_runtime :: nat
  sh_initialize_result :: json

record session_record =
  sr_handle :: session_handle
  sr_ref_count :: nat
  sr_last_used :: instant
  sr_terminating :: bool
  sr_termination_notice :: "stream_error_payload option"

definition session_record_new :: "instant \<Rightarrow> session_handle \<Rightarrow> session_record" where
  "session_record_new now h =
     \<lparr>sr_handle = h, sr_ref_count = 0, sr_last_used = now, sr_terminating = False,
      sr_termination_notice = None\<rparr>"

definition touch_record :: "instant \<Rightarrow> session_record \<Rightarrow> session_record" where
  "touch_record now rec = rec\<lparr>sr_last_used := now\<rparr>"

text \<open>
  A gate is shared by reference (\<open>Arc<Mutex<SpawnGate>>\<close>): the map holds its address. Of its
  \<open>Notify\<close>, what the code observes is how many times \<open>notify_waiters\<close> has been called: a
  \<open>notified_owned\<close> future completes once that number has moved past the one it was made at.
\<close>

record spawn_gate =
  sg_notify :: nat
  sg_started :: bool

definition spawn_gate_new :: spawn_gate where
  "spawn_gate_new = \<lparr>sg_notify = 0, sg_started = False\<rparr>"

record lease_record =
  lr_key :: session_key
  lr_client_kind :: "client_kind option"

record lease =
  le_id :: string
  le_key :: session_key

record registry_counters =
  rc_sessions_spawned_total :: u64
  rc_sessions_reused_total :: u64
  rc_sessions_gc_idle_total :: u64
  rc_sessions_evicted_memory_total :: u64
  rc_session_crashes_total :: u64
  rc_attach_requests_total :: u64

record registry =
  reg_sessions :: "(session_key \<times> session_record) list"
  reg_leases :: "(string \<times> lease_record) list"
  reg_spawn_gates :: "(session_key \<times> nat) list"
  reg_gate_heap :: "spawn_gate list"
  reg_counters :: registry_counters
  reg_lease_seq :: u64
  reg_idle_ttl :: duration

definition with_idle_ttl :: "duration \<Rightarrow> registry" where
  "with_idle_ttl ttl =
     \<lparr>reg_sessions = [], reg_leases = [], reg_spawn_gates = [], reg_gate_heap = [],
      reg_counters = \<lparr>rc_sessions_spawned_total = 0, rc_sessions_reused_total = 0,
        rc_sessions_gc_idle_total = 0, rc_sessions_evicted_memory_total = 0,
        rc_session_crashes_total = 0, rc_attach_requests_total = 0\<rparr>,
      reg_lease_seq = 1, reg_idle_ttl = ttl\<rparr>"

definition registry_new :: registry where
  "registry_new = with_idle_ttl DEFAULT_IDLE_TTL"

subsection \<open>Acquiring a lease\<close>

definition lease_name :: "u64 \<Rightarrow> string" where
  "lease_name n = ''lease_'' @ nat_str (unat n)"

definition next_lease_id :: "registry \<Rightarrow> string \<times> registry" where
  "next_lease_id r = (lease_name (reg_lease_seq r), r\<lparr>reg_lease_seq := reg_lease_seq r + 1\<rparr>)"

definition count_attach :: "registry \<Rightarrow> registry" where
  "count_attach r = r\<lparr>reg_counters := (reg_counters r)
     \<lparr>rc_attach_requests_total := rc_attach_requests_total (reg_counters r) + 1\<rparr>\<rparr>"

definition gate_for :: "session_key \<Rightarrow> registry \<Rightarrow> nat \<times> registry" where
  "gate_for key r =
     (case map_of (reg_spawn_gates r) key of
        Some g \<Rightarrow> (g, r)
      | None \<Rightarrow>
          (let g = length (reg_gate_heap r)
           in (g, r\<lparr>reg_gate_heap := reg_gate_heap r @ [spawn_gate_new],
                    reg_spawn_gates := AList.update key g (reg_spawn_gates r)\<rparr>)))"

text \<open>The four assignments both branches make on the record they hand a lease on.\<close>

definition lease_on_record :: "instant \<Rightarrow> session_record \<Rightarrow> session_record" where
  "lease_on_record now rec =
     touch_record now (rec\<lparr>sr_ref_count := sr_ref_count rec + 1, sr_terminating := False,
                           sr_termination_notice := None\<rparr>)"

definition insert_lease ::
  "session_key \<Rightarrow> client_kind option \<Rightarrow> registry \<Rightarrow> lease \<times> registry" where
  "insert_lease key client_kind r =
     (let (lease_id, r1) = next_lease_id r
      in (\<lparr>le_id = lease_id, le_key = key\<rparr>,
          r1\<lparr>reg_leases := AList.update lease_id
                \<lparr>lr_key = key, lr_client_kind = client_kind\<rparr> (reg_leases r1)\<rparr>))"

definition try_reuse ::
  "instant \<Rightarrow> session_key \<Rightarrow> client_kind option \<Rightarrow> registry \<Rightarrow> (lease \<times> registry) option" where
  "try_reuse now key client_kind r =
     (case map_of (reg_sessions r) key of
        None \<Rightarrow> None
      | Some rec \<Rightarrow>
          Some (insert_lease key client_kind
            (r\<lparr>reg_sessions := AList.map_entry key (lease_on_record now) (reg_sessions r),
               reg_counters := (reg_counters r)
                 \<lparr>rc_sessions_reused_total := rc_sessions_reused_total (reg_counters r) + 1\<rparr>\<rparr>)))"

datatype gate_entry = ShouldSpawn | WaitForSpawn nat

definition enter_gate :: "nat \<Rightarrow> registry \<Rightarrow> gate_entry \<times> registry" where
  "enter_gate g r =
     (let gate = reg_gate_heap r ! g
      in if sg_started gate then (WaitForSpawn (sg_notify gate), r)
         else (ShouldSpawn,
               r\<lparr>reg_gate_heap := (reg_gate_heap r)[g := gate\<lparr>sg_started := True\<rparr>]\<rparr>))"

definition finish_spawn :: "nat \<Rightarrow> registry \<Rightarrow> registry" where
  "finish_spawn g r =
     (let gate = reg_gate_heap r ! g
      in r\<lparr>reg_gate_heap := (reg_gate_heap r)
             [g := gate\<lparr>sg_started := False, sg_notify := sg_notify gate + 1\<rparr>]\<rparr>)"

definition install ::
  "instant \<Rightarrow> session_key \<Rightarrow> client_kind option \<Rightarrow> session_handle \<Rightarrow> registry \<Rightarrow> lease \<times> registry"
where
  "install now key client_kind handle r =
     (let sessions =
            (case map_of (reg_sessions r) key of
               Some _ \<Rightarrow> reg_sessions r
             | None \<Rightarrow> AList.update key (session_record_new now handle) (reg_sessions r))
      in insert_lease key client_kind
           (r\<lparr>reg_sessions := AList.map_entry key (lease_on_record now) sessions,
              reg_counters := (reg_counters r)
                \<lparr>rc_sessions_spawned_total := rc_sessions_spawned_total (reg_counters r) + 1\<rparr>\<rparr>))"

definition drop_gate :: "session_key \<Rightarrow> registry \<Rightarrow> registry" where
  "drop_gate key r = r\<lparr>reg_spawn_gates := AList.delete key (reg_spawn_gates r)\<rparr>"

text \<open>
  The whole operation when no other task runs in between. \<open>None\<close>: the task waits for a spawn
  another task has under way. \<open>spawn\<close> is the caller's closure.
\<close>

definition acquire_or_spawn ::
  "instant \<Rightarrow> session_key \<Rightarrow> client_kind option \<Rightarrow> (session_key \<Rightarrow> session_handle result)
     \<Rightarrow> registry \<Rightarrow> (lease result \<times> registry) option" where
  "acquire_or_spawn now key client_kind spawn r =
     (let (g, r2) = gate_for key (count_attach r)
      in case try_reuse now key client_kind r2 of
           Some (l, r3) \<Rightarrow> Some (Inr l, r3)
         | None \<Rightarrow>
             (case enter_gate g r2 of
                (WaitForSpawn _, _) \<Rightarrow> None
              | (ShouldSpawn, r3) \<Rightarrow>
                  (let r4 = finish_spawn g r3
                   in case spawn key of
                        Inr handle \<Rightarrow>
                          (let (l, r5) = install now key client_kind handle r4 in Some (Inr l, r5))
                      | Inl e \<Rightarrow> Some (Inl e, drop_gate key r4))))"

definition session_handle_of :: "session_key \<Rightarrow> registry \<Rightarrow> session_handle option" where
  "session_handle_of key r = map_option sr_handle (map_of (reg_sessions r) key)"

definition handle_for_lease_id :: "string \<Rightarrow> registry \<Rightarrow> session_handle option" where
  "handle_for_lease_id lease_id r =
     (case map_of (reg_leases r) lease_id of
        None \<Rightarrow> None
      | Some l \<Rightarrow> session_handle_of (lr_key l) r)"

subsection \<open>Releasing leases\<close>

text \<open>\<open>release_by_lease_id\<close> takes the two locks one after the other: two sections.\<close>

definition take_lease :: "string \<Rightarrow> registry \<Rightarrow> (session_key \<times> registry) option" where
  "take_lease lease_id r =
     (case map_of (reg_leases r) lease_id of
        None \<Rightarrow> None
      | Some l \<Rightarrow> Some (lr_key l, r\<lparr>reg_leases := AList.delete lease_id (reg_leases r)\<rparr>))"

definition release_on_record :: "instant \<Rightarrow> session_record \<Rightarrow> session_record" where
  "release_on_record now rec =
     touch_record now
       (if sr_ref_count rec > 0 then rec\<lparr>sr_ref_count := sr_ref_count rec - 1\<rparr> else rec)"

definition drop_ref :: "instant \<Rightarrow> session_key \<Rightarrow> registry \<Rightarrow> nat \<times> registry" where
  "drop_ref now key r =
     (case map_of (reg_sessions r) key of
        Some rec \<Rightarrow>
          (sr_ref_count (release_on_record now rec),
           r\<lparr>reg_sessions := AList.map_entry key (release_on_record now) (reg_sessions r)\<rparr>)
      | None \<Rightarrow> (0, r))"

definition release_by_lease_id :: "instant \<Rightarrow> string \<Rightarrow> registry \<Rightarrow> nat option \<times> registry" where
  "release_by_lease_id now lease_id r =
     (case take_lease lease_id r of
        None \<Rightarrow> (None, r)
      | Some (key, r1) \<Rightarrow> (let (n, r2) = drop_ref now key r1 in (Some n, r2)))"

fun release_many :: "instant \<Rightarrow> string list \<Rightarrow> registry \<Rightarrow> registry" where
  "release_many now [] r = r"
| "release_many now (i # is) r = release_many now is (snd (release_by_lease_id now i r))"

subsection \<open>Calls through a lease\<close>

text \<open>
  The part \<open>call_by_lease_id\<close> and \<open>notify_by_lease_id\<close> share: resolve the lease and its session,
  refuse a terminating one, touch it and hand out its runtime.
\<close>

definition runtime_for_lease ::
  "instant \<Rightarrow> string \<Rightarrow> registry \<Rightarrow> (session_key \<times> nat) option result \<times> registry" where
  "runtime_for_lease now lease_id r =
     (case map_of (reg_leases r) lease_id of
        None \<Rightarrow> (Inr None, r)
      | Some l \<Rightarrow>
          (case map_of (reg_sessions r) (lr_key l) of
             None \<Rightarrow> (Inr None, r)
           | Some rec \<Rightarrow>
               if sr_terminating rec then
                 (case sr_termination_notice rec of
                    Some notice \<Rightarrow> (Inl (sep_code notice @ '': '' @ sep_message notice), r)
                  | None \<Rightarrow> (Inl ''session is terminating'', r))
               else
                 (Inr (Some (lr_key l, sh_runtime (sr_handle rec))),
                  r\<lparr>reg_sessions :=
                      AList.map_entry (lr_key l) (touch_record now) (reg_sessions r)\<rparr>)))"

definition touch :: "instant \<Rightarrow> session_key \<Rightarrow> registry \<Rightarrow> registry" where
  "touch now key r = r\<lparr>reg_sessions := AList.map_entry key (touch_record now) (reg_sessions r)\<rparr>"

definition call_by_lease_id ::
  "instant \<Rightarrow> (nat \<Rightarrow> json \<Rightarrow> json result) \<Rightarrow> string \<Rightarrow> json \<Rightarrow> registry
     \<Rightarrow> json option result \<times> registry" where
  "call_by_lease_id now runtime_call lease_id request r =
     (case runtime_for_lease now lease_id r of
        (Inl e, r1) \<Rightarrow> (Inl e, r1)
      | (Inr None, r1) \<Rightarrow> (Inr None, r1)
      | (Inr (Some (key, rt)), r1) \<Rightarrow>
          (case runtime_call rt request of
             Inl e \<Rightarrow> (Inl e, r1)
           | Inr response \<Rightarrow> (Inr (Some response), touch now key r1)))"

definition notify_by_lease_id ::
  "instant \<Rightarrow> (nat \<Rightarrow> json \<Rightarrow> unit result) \<Rightarrow> string \<Rightarrow> json \<Rightarrow> registry
     \<Rightarrow> unit option result \<times> registry" where
  "notify_by_lease_id now runtime_send lease_id message r =
     (case runtime_for_lease now lease_id r of
        (Inl e, r1) \<Rightarrow> (Inl e, r1)
      | (Inr None, r1) \<Rightarrow> (Inr None, r1)
      | (Inr (Some (key, rt)), r1) \<Rightarrow>
          (case runtime_send rt message of
             Inl e \<Rightarrow> (Inl e, r1)
           | Inr _ \<Rightarrow> (Inr (Some ()), touch now key r1)))"

subsection \<open>Termination and garbage collection\<close>

definition mark_terminating_with_notice ::
  "session_key \<Rightarrow> stream_error_payload option \<Rightarrow> registry \<Rightarrow> registry" where
  "mark_terminating_with_notice key notice r =
     r\<lparr>reg_sessions := AList.map_entry key
         (\<lambda>rec. rec\<lparr>sr_terminating := True, sr_termination_notice := notice\<rparr>) (reg_sessions r)\<rparr>"

text \<open>\<open>remove\<close> takes its three locks one after the other.\<close>

definition remove_session :: "session_key \<Rightarrow> registry \<Rightarrow> registry" where
  "remove_session key r = r\<lparr>reg_sessions := AList.delete key (reg_sessions r)\<rparr>"

definition remove_leases :: "session_key \<Rightarrow> registry \<Rightarrow> registry" where
  "remove_leases key r =
     r\<lparr>reg_leases := filter (\<lambda>(_, lease). lr_key lease \<noteq> key) (reg_leases r)\<rparr>"

definition remove :: "session_key \<Rightarrow> registry \<Rightarrow> registry" where
  "remove key r = drop_gate key (remove_leases key (remove_session key r))"

definition is_idle_candidate :: "instant \<Rightarrow> duration \<Rightarrow> session_record \<Rightarrow> bool" where
  "is_idle_candidate now ttl rec =
     (\<not> sr_terminating rec \<and> sr_ref_count rec = 0 \<and> now - sr_last_used rec \<ge> ttl)"

definition idle_candidates :: "instant \<Rightarrow> registry \<Rightarrow> session_handle list \<times> registry" where
  "idle_candidates now r =
     (let idle = is_idle_candidate now (reg_idle_ttl r)
      in (map (sr_handle \<circ> snd) (filter (\<lambda>(_, rec). idle rec) (reg_sessions r)),
          r\<lparr>reg_sessions := map (\<lambda>(k, rec).
               (k, if idle rec then rec\<lparr>sr_terminating := True\<rparr> else rec)) (reg_sessions r)\<rparr>))"

definition all_handles :: "registry \<Rightarrow> session_handle list" where
  "all_handles r = map (sr_handle \<circ> snd) (reg_sessions r)"

subsection \<open>Snapshots and counters\<close>

text \<open>The set of client kinds is collected in a \<open>HashSet\<close>: each kind at most once.\<close>

definition lease_client_kinds ::
  "session_key \<Rightarrow> (string \<times> lease_record) list \<Rightarrow> client_kind list" where
  "lease_client_kinds key leases =
     remdups (List.map_filter
       (\<lambda>(_, lease). if lr_key lease = key then lr_client_kind lease else None) leases)"

record memory_session_snapshot =
  mss_handle :: session_handle
  mss_ref_count :: nat
  mss_idle_for :: duration
  mss_client_kinds :: "client_kind list"

definition memory_snapshots :: "instant \<Rightarrow> registry \<Rightarrow> memory_session_snapshot list" where
  "memory_snapshots now r = map (\<lambda>(_, rec).
     \<lparr>mss_handle = sr_handle rec, mss_ref_count = sr_ref_count rec,
      mss_idle_for = now - sr_last_used rec,
      mss_client_kinds = lease_client_kinds (sh_key (sr_handle rec)) (reg_leases r)\<rparr>)
     (reg_sessions r)"

record session_snapshot =
  ss_key :: session_key
  ss_ref_count :: nat
  ss_terminating :: bool
  ss_idle_for :: duration
  ss_idle_ttl :: duration
  ss_client_kinds :: "client_kind list"

record registry_snapshot =
  rs_sessions :: "session_snapshot list"
  rs_lease_count :: nat
  rs_counters :: registry_counters

definition snapshot :: "instant \<Rightarrow> registry \<Rightarrow> registry_snapshot" where
  "snapshot now r =
     \<lparr>rs_sessions = map (\<lambda>(_, rec).
        \<lparr>ss_key = sh_key (sr_handle rec), ss_ref_count = sr_ref_count rec,
         ss_terminating = sr_terminating rec, ss_idle_for = now - sr_last_used rec,
         ss_idle_ttl = reg_idle_ttl r,
         ss_client_kinds = lease_client_kinds (sh_key (sr_handle rec)) (reg_leases r)\<rparr>)
        (reg_sessions r),
      rs_lease_count = length (reg_leases r),
      rs_counters = reg_counters r\<rparr>"

definition session_count :: "registry \<Rightarrow> nat" where
  "session_count r = length (reg_sessions r)"

definition lease_count :: "registry \<Rightarrow> nat" where
  "lease_count r = length (reg_leases r)"

definition increment_idle_gc :: "registry \<Rightarrow> registry" where
  "increment_idle_gc r = r\<lparr>reg_counters := (reg_counters r)
     \<lparr>rc_sessions_gc_idle_total := rc_sessions_gc_idle_total (reg_counters r) + 1\<rparr>\<rparr>"

definition increment_memory_eviction :: "registry \<Rightarrow> registry" where
  "increment_memory_eviction r = r\<lparr>reg_counters := (reg_counters r)
     \<lparr>rc_sessions_evicted_memory_total := rc_sessions_evicted_memory_total (reg_counters r) + 1\<rparr>\<rparr>"

definition increment_session_crash :: "registry \<Rightarrow> registry" where
  "increment_session_crash r = r\<lparr>reg_counters := (reg_counters r)
     \<lparr>rc_session_crashes_total := rc_session_crashes_total (reg_counters r) + 1\<rparr>\<rparr>"

subsection \<open>The invariant\<close>

text \<open>
  A session's \<open>ref_count\<close> is the number of leases on it, every lease belongs to a live session,
  and lease names come from numbers the sequence has passed.
\<close>

definition leases_on :: "session_key \<Rightarrow> (string \<times> lease_record) list \<Rightarrow> nat" where
  "leases_on key leases = count_entries (\<lambda>_ lease. lr_key lease = key) leases"

definition sessions_ok ::
  "(session_key \<times> session_record) list \<Rightarrow> (string \<times> lease_record) list \<Rightarrow> bool" where
  "sessions_ok S L = (distinct_keys S \<and>
     (\<forall>k rec. map_of S k = Some rec \<longrightarrow>
        sh_key (sr_handle rec) = k \<and> sr_ref_count rec = leases_on k L))"

definition leases_ok ::
  "(session_key \<times> session_record) list \<Rightarrow> (string \<times> lease_record) list \<Rightarrow> u64 \<Rightarrow> bool" where
  "leases_ok S L n = (distinct_keys L \<and>
     (\<forall>i l. map_of L i = Some l \<longrightarrow>
        map_of S (lr_key l) \<noteq> None \<and> (\<exists>m < n. i = lease_name m)))"

definition gates_ok :: "registry \<Rightarrow> bool" where
  "gates_ok r = (\<forall>k g. map_of (reg_spawn_gates r) k = Some g \<longrightarrow> g < length (reg_gate_heap r))"

definition registry_inv :: "registry \<Rightarrow> bool" where
  "registry_inv r = (sessions_ok (reg_sessions r) (reg_leases r) \<and>
     leases_ok (reg_sessions r) (reg_leases r) (reg_lease_seq r) \<and> gates_ok r)"

text \<open>No spawn is under way: the state between two operations when tasks do not overlap.\<close>

definition gates_idle :: "registry \<Rightarrow> bool" where
  "gates_idle r = (\<forall>gate \<in> set (reg_gate_heap r). \<not> sg_started gate)"

lemma lease_name_inject [simp]: "lease_name m = lease_name n \<longleftrightarrow> m = n"
  by (simp add: lease_name_def word_unat_eq_iff)

lemma lease_on_record_simps [simp]:
  "sr_handle (lease_on_record now rec) = sr_handle rec"
  "sr_ref_count (lease_on_record now rec) = sr_ref_count rec + 1"
  "sr_terminating (lease_on_record now rec) = False"
  "sr_termination_notice (lease_on_record now rec) = None"
  "sr_last_used (lease_on_record now rec) = now"
  by (simp_all add: lease_on_record_def touch_record_def)

lemma touch_record_simps [simp]:
  "sr_handle (touch_record now rec) = sr_handle rec"
  "sr_ref_count (touch_record now rec) = sr_ref_count rec"
  "sr_terminating (touch_record now rec) = sr_terminating rec"
  "sr_termination_notice (touch_record now rec) = sr_termination_notice rec"
  "sr_last_used (touch_record now rec) = now"
  by (simp_all add: touch_record_def)

lemma release_on_record_simps [simp]:
  "sr_handle (release_on_record now rec) = sr_handle rec"
  "sr_ref_count (release_on_record now rec) = sr_ref_count rec - 1"
  "sr_terminating (release_on_record now rec) = sr_terminating rec"
  "sr_last_used (release_on_record now rec) = now"
  by (simp_all add: release_on_record_def)

lemma session_record_new_simps [simp]:
  "sr_handle (session_record_new now h) = h"
  "sr_ref_count (session_record_new now h) = 0"
  "sr_terminating (session_record_new now h) = False"
  "sr_last_used (session_record_new now h) = now"
  by (simp_all add: session_record_new_def)

lemma leases_on_add:
  assumes "map_of L i = None"
  shows "leases_on k (AList.update i l L) = leases_on k L + (if lr_key l = k then 1 else 0)"
proof -
  from assms have "i \<notin> fst ` set L" by (simp add: map_of_eq_None_iff)
  then show ?thesis by (simp add: leases_on_def count_entries_update_new)
qed

lemma leases_on_delete:
  assumes "distinct_keys L" and "map_of L i = Some l"
  shows "leases_on k (AList.delete i L) = leases_on k L - (if lr_key l = k then 1 else 0)"
  using count_entries_delete [OF assms, of "\<lambda>_ l. lr_key l = k"] by (simp add: leases_on_def)

lemma leases_on_pos:
  assumes "distinct_keys L" and "map_of L i = Some l"
  shows "leases_on (lr_key l) L > 0"
  using count_entries_delete [OF assms, of "\<lambda>_ l'. lr_key l' = lr_key l"]
  by (simp add: leases_on_def)

lemma leases_on_none:
  "distinct_keys L \<Longrightarrow> (\<And>i l. map_of L i = Some l \<Longrightarrow> lr_key l \<noteq> k) \<Longrightarrow> leases_on k L = 0"
  by (auto simp: leases_on_def count_entries_zero_iff map_of_eq_Some_iff_mem)

lemma leases_on_filter:
  "leases_on k (filter (\<lambda>(_, l). lr_key l \<noteq> key) L) = (if k = key then 0 else leases_on k L)"
  unfolding leases_on_def count_entries_def
  by (auto simp: filter_empty_conv intro!: arg_cong [where f = length] filter_cong)

lemma map_of_retain_leases:
  assumes "distinct_keys L"
  shows "map_of (filter (\<lambda>(_, l). lr_key l \<noteq> key) L) i =
    (case map_of L i of None \<Rightarrow> None | Some l \<Rightarrow> if lr_key l \<noteq> key then Some l else None)"
  using map_of_retain [OF assms, of "\<lambda>_ l. lr_key l \<noteq> key"] by simp

lemma leases_okD:
  assumes "leases_ok S L n" and "map_of L i = Some l"
  shows "\<exists>rec. map_of S (lr_key l) = Some rec" and "\<exists>m < n. i = lease_name m"
  using assms unfolding leases_ok_def by blast+

lemma no_lease_without_session:
  assumes "leases_ok S L n" and "map_of S k = None"
  shows "leases_on k L = 0"
  using assms leases_okD(1) [OF assms(1)] by (intro leases_on_none) (fastforce simp: leases_ok_def)+

lemma ok_new_session:
  assumes "sessions_ok S L" "leases_ok S L n" "map_of S k = None" "sh_key h = k"
  shows "sessions_ok (AList.update k (session_record_new now h) S) L"
    and "leases_ok (AList.update k (session_record_new now h) S) L n"
  using assms no_lease_without_session [OF assms(2,3)]
  by (auto simp: sessions_ok_def leases_ok_def update_conv')

lemma lease_name_fresh:
  assumes "leases_ok S L n"
  shows "map_of L (lease_name n) = None"
proof (rule ccontr)
  assume "map_of L (lease_name n) \<noteq> None"
  with leases_okD(2) [OF assms] obtain m where "m < n" "lease_name n = lease_name m" by blast
  then show False by simp
qed

lemma leases_ok_add:
  assumes L: "leases_ok S L n" and k: "map_of S (lr_key l) \<noteq> None"
    and n: "unat n + 1 < 2 ^ 64"
  shows "leases_ok (AList.map_entry k f S) (AList.update (lease_name n) l L) (n + 1)"
proof -
  have less: "m < n + 1 \<longleftrightarrow> m < n \<or> m = n" for m
    using n by (simp add: word_less_nat_alt unat_word_ariths(1)) (metis less_antisym less_SucI nat_neq_iff word_unat_eq_iff less_Suc_eq)
  show ?thesis
    using L k by (auto simp: leases_ok_def map_of_map_entry' update_conv' less)
qed

lemma ok_add_lease:
  assumes S: "sessions_ok S L" and L: "leases_ok S L n" and k: "map_of S k = Some rec"
    and n: "unat n + 1 < 2 ^ 64" and l: "lr_key l = k"
  shows "sessions_ok (AList.map_entry k (lease_on_record now) S) (AList.update (lease_name n) l L)"
    and "leases_ok (AList.map_entry k (lease_on_record now) S) (AList.update (lease_name n) l L) (n + 1)"
proof -
  show "sessions_ok (AList.map_entry k (lease_on_record now) S) (AList.update (lease_name n) l L)"
    using S l k
    by (auto simp: sessions_ok_def map_of_map_entry' leases_on_add [OF lease_name_fresh [OF L]])
  show "leases_ok (AList.map_entry k (lease_on_record now) S) (AList.update (lease_name n) l L) (n + 1)"
    by (rule leases_ok_add [OF L _ n]) (simp add: l k)
qed

lemma sessions_ok_map_entry:
  assumes "sessions_ok S L" and "\<And>rec. sr_handle (f rec) = sr_handle rec"
    and "\<And>rec. sr_ref_count (f rec) = sr_ref_count rec"
  shows "sessions_ok (AList.map_entry k f S) L"
  using assms by (auto simp: sessions_ok_def map_of_map_entry')

lemma leases_ok_map_entry: "leases_ok S L n \<Longrightarrow> leases_ok (AList.map_entry k f S) L n"
  by (auto simp: leases_ok_def map_of_map_entry')

lemma ok_release:
  assumes S: "sessions_ok S L" and L: "leases_ok S L n" and i: "map_of L i = Some l"
  shows "sessions_ok (AList.map_entry (lr_key l) (release_on_record now) S) (AList.delete i L)"
    and "leases_ok (AList.map_entry (lr_key l) (release_on_record now) S) (AList.delete i L) n"
proof -
  from L have d: "distinct_keys L" by (simp add: leases_ok_def)
  show "sessions_ok (AList.map_entry (lr_key l) (release_on_record now) S) (AList.delete i L)"
    using S by (auto simp: sessions_ok_def map_of_map_entry' leases_on_delete [OF d i])
  show "leases_ok (AList.map_entry (lr_key l) (release_on_record now) S) (AList.delete i L) n"
    using d leases_okD [OF L]
    by (fastforce simp: leases_ok_def map_of_map_entry' map_of_delete split: if_splits)
qed

lemma ok_remove:
  fixes k :: session_key
  assumes S: "sessions_ok S L" and L: "leases_ok S L n"
  defines "L' \<equiv> filter (\<lambda>(_, l). lr_key l \<noteq> k) L"
  shows "sessions_ok (AList.delete k S) L'" and "leases_ok (AList.delete k S) L' n"
proof -
  from L have d: "distinct_keys L" by (simp add: leases_ok_def)
  show "sessions_ok (AList.delete k S) L'"
    using S by (auto simp: sessions_ok_def map_of_delete L'_def leases_on_filter split: if_splits)
  show "leases_ok (AList.delete k S) L' n"
    using L d unfolding L'_def
    by (auto simp: leases_ok_def map_of_delete map_of_retain_leases split: option.splits if_splits)
qed

subsection \<open>Operations on the invariant\<close>

lemma insert_lease_simps [simp]:
  "fst (insert_lease key ck r) = \<lparr>le_id = lease_name (reg_lease_seq r), le_key = key\<rparr>"
  "snd (insert_lease key ck r) = r\<lparr>reg_lease_seq := reg_lease_seq r + 1,
     reg_leases := AList.update (lease_name (reg_lease_seq r))
       \<lparr>lr_key = key, lr_client_kind = ck\<rparr> (reg_leases r)\<rparr>"
  by (simp_all add: insert_lease_def next_lease_id_def)

lemma insert_lease_pair:
  "insert_lease key ck r =
     (\<lparr>le_id = lease_name (reg_lease_seq r), le_key = key\<rparr>,
      r\<lparr>reg_lease_seq := reg_lease_seq r + 1,
        reg_leases := AList.update (lease_name (reg_lease_seq r))
          \<lparr>lr_key = key, lr_client_kind = ck\<rparr> (reg_leases r)\<rparr>)"
  by (simp add: insert_lease_def next_lease_id_def)

text \<open>What a gate section leaves alone: everything but the gates.\<close>

definition same_but_gates :: "registry \<Rightarrow> registry \<Rightarrow> bool" where
  "same_but_gates r r' = (reg_sessions r' = reg_sessions r \<and> reg_leases r' = reg_leases r \<and>
     reg_lease_seq r' = reg_lease_seq r \<and> reg_idle_ttl r' = reg_idle_ttl r)"

lemma same_but_gates_refl [simp]: "same_but_gates r r"
  by (simp add: same_but_gates_def)

lemma same_but_gates_trans [trans]:
  "same_but_gates r r' \<Longrightarrow> same_but_gates r' r'' \<Longrightarrow> same_but_gates r r''"
  by (simp add: same_but_gates_def)

lemma count_attach_same [simp]: "same_but_gates r (count_attach r)"
  by (simp add: same_but_gates_def count_attach_def)

lemma gate_for_same: "gate_for key r = (g, r') \<Longrightarrow> same_but_gates r r'"
  by (auto simp: same_but_gates_def gate_for_def Let_def split: option.splits)

lemma enter_gate_same: "enter_gate g r = (e, r') \<Longrightarrow> same_but_gates r r'"
  by (auto simp: same_but_gates_def enter_gate_def Let_def split: if_splits)

lemma finish_spawn_same [simp]: "same_but_gates r (finish_spawn g r)"
  by (simp add: same_but_gates_def finish_spawn_def Let_def)

lemma drop_gate_same [simp]: "same_but_gates r (drop_gate key r)"
  by (simp add: same_but_gates_def drop_gate_def)

lemma count_attach_gates [simp]:
  "reg_gate_heap (count_attach r) = reg_gate_heap r"
  "reg_spawn_gates (count_attach r) = reg_spawn_gates r"
  by (simp_all add: count_attach_def)

lemma gate_for_gates:
  assumes "gate_for key r = (g, r')" and "gates_ok r"
  shows "gates_ok r'" and "g < length (reg_gate_heap r')"
    and "map_of (reg_spawn_gates r') key = Some g"
  using assms
  by (auto simp: gates_ok_def gate_for_def Let_def update_conv' less_Suc_eq
      split: option.splits if_splits)

lemma gate_for_idle: "gate_for key r = (g, r') \<Longrightarrow> gates_idle r \<Longrightarrow> gates_idle r'"
  by (auto simp: gates_idle_def gate_for_def Let_def spawn_gate_new_def split: option.splits)

lemma gates_ok_heap:
  "gates_ok r \<Longrightarrow> reg_spawn_gates r' = reg_spawn_gates r \<Longrightarrow>
     length (reg_gate_heap r') = length (reg_gate_heap r) \<Longrightarrow> gates_ok r'"
  by (simp add: gates_ok_def)

lemma gates_ok_drop [simp]: "gates_ok r \<Longrightarrow> gates_ok (drop_gate key r)"
  by (auto simp: gates_ok_def drop_gate_def map_of_delete split: if_splits)

lemma enter_gate_gates:
  assumes "enter_gate g r = (e, r')"
  shows "gates_ok r \<Longrightarrow> gates_ok r'" and "length (reg_gate_heap r') = length (reg_gate_heap r)"
  using assms by (auto simp: enter_gate_def Let_def gates_ok_def split: if_splits)

lemma finish_spawn_gates [simp]:
  "gates_ok (finish_spawn g r) = gates_ok r"
  "length (reg_gate_heap (finish_spawn g r)) = length (reg_gate_heap r)"
  by (simp_all add: finish_spawn_def Let_def gates_ok_def)

lemma inv_same_but_gates:
  "registry_inv r \<Longrightarrow> same_but_gates r r' \<Longrightarrow> gates_ok r' \<Longrightarrow> registry_inv r'"
  by (simp add: registry_inv_def same_but_gates_def)

lemma inv_try_reuse [lspee_inv]:
  assumes inv: "registry_inv r" and n: "unat (reg_lease_seq r) + 1 < 2 ^ 64"
    and reuse: "try_reuse now key ck r = Some (l, r')"
  shows "registry_inv r'"
proof -
  from reuse obtain rec where rec: "map_of (reg_sessions r) key = Some rec"
    by (auto simp: try_reuse_def split: option.splits)
  with reuse have r': "r' = snd (insert_lease key ck
      (r\<lparr>reg_sessions := AList.map_entry key (lease_on_record now) (reg_sessions r),
         reg_counters := (reg_counters r)
           \<lparr>rc_sessions_reused_total := rc_sessions_reused_total (reg_counters r) + 1\<rparr>\<rparr>))"
    by (simp add: try_reuse_def)
  from inv have S: "sessions_ok (reg_sessions r) (reg_leases r)"
    and L: "leases_ok (reg_sessions r) (reg_leases r) (reg_lease_seq r)" and G: "gates_ok r"
    by (auto simp: registry_inv_def)
  show ?thesis
    using ok_add_lease [OF S L rec n] G
    by (simp add: r' registry_inv_def gates_ok_def)
qed

lemma inv_install [lspee_inv]:
  assumes inv: "registry_inv r" and n: "unat (reg_lease_seq r) + 1 < 2 ^ 64"
    and h: "sh_key h = key"
  shows "registry_inv (snd (install now key ck h r))"
proof -
  from inv have S: "sessions_ok (reg_sessions r) (reg_leases r)"
    and L: "leases_ok (reg_sessions r) (reg_leases r) (reg_lease_seq r)" and G: "gates_ok r"
    by (auto simp: registry_inv_def)
  define S' where "S' = (case map_of (reg_sessions r) key of Some _ \<Rightarrow> reg_sessions r
     | None \<Rightarrow> AList.update key (session_record_new now h) (reg_sessions r))"
  have S'ok: "sessions_ok S' (reg_leases r)" "leases_ok S' (reg_leases r) (reg_lease_seq r)"
    using S L ok_new_session [OF S L _ h] by (auto simp: S'_def split: option.splits)
  have "map_of S' key \<noteq> None" by (auto simp: S'_def update_conv' split: option.splits)
  then obtain rec where "map_of S' key = Some rec" by auto
  from ok_add_lease [OF S'ok this n] G show ?thesis
    by (simp add: install_def registry_inv_def gates_ok_def flip: S'_def)
qed

lemma inv_touch [lspee_inv]: "registry_inv r \<Longrightarrow> registry_inv (touch now key r)"
  by (simp add: registry_inv_def touch_def sessions_ok_map_entry leases_ok_map_entry gates_ok_def)

lemma inv_mark_terminating [lspee_inv]:
  "registry_inv r \<Longrightarrow> registry_inv (mark_terminating_with_notice key notice r)"
  by (simp add: registry_inv_def mark_terminating_with_notice_def sessions_ok_map_entry leases_ok_map_entry gates_ok_def)

lemma inv_remove [lspee_inv]: "registry_inv r \<Longrightarrow> registry_inv (remove key r)"
  using ok_remove [of "reg_sessions r" "reg_leases r" "reg_lease_seq r" key]
  by (auto simp: registry_inv_def remove_def remove_leases_def remove_session_def drop_gate_def
      gates_ok_def map_of_delete split: if_splits)

lemma lease_session:
  assumes "registry_inv r" and "map_of (reg_leases r) i = Some l"
  obtains rec where "map_of (reg_sessions r) (lr_key l) = Some rec"
  using assms leases_okD(1) unfolding registry_inv_def by blast

lemma release_known:
  "map_of (reg_leases r) i = Some l \<Longrightarrow> map_of (reg_sessions r) (lr_key l) = Some rec \<Longrightarrow>
     release_by_lease_id now i r =
      (Some (sr_ref_count rec - 1),
       r\<lparr>reg_leases := AList.delete i (reg_leases r),
         reg_sessions :=
           AList.map_entry (lr_key l) (release_on_record now) (reg_sessions r)\<rparr>)"
  by (simp add: release_by_lease_id_def take_lease_def drop_ref_def split_def)

lemma release_unknown:
  "map_of (reg_leases r) i = None \<Longrightarrow> release_by_lease_id now i r = (None, r)"
  by (simp add: release_by_lease_id_def take_lease_def)

lemma inv_release [lspee_inv]:
  assumes inv: "registry_inv r"
  shows "registry_inv (snd (release_by_lease_id now i r))"
proof (cases "map_of (reg_leases r) i")
  case None
  with inv show ?thesis by (simp add: release_unknown)
next
  case (Some l)
  obtain rec where rec: "map_of (reg_sessions r) (lr_key l) = Some rec"
    by (rule lease_session [OF inv Some])
  from inv have S: "sessions_ok (reg_sessions r) (reg_leases r)"
    and L: "leases_ok (reg_sessions r) (reg_leases r) (reg_lease_seq r)" and G: "gates_ok r"
    by (auto simp: registry_inv_def)
  then show ?thesis
    using ok_release [OF S L Some, of now]
    by (simp add: release_known [OF Some rec] registry_inv_def gates_ok_def)
qed

lemma inv_release_many [lspee_inv]: "registry_inv r \<Longrightarrow> registry_inv (release_many now is r)"
  by (induction "is" arbitrary: r) (auto intro: lspee_inv)

lemma inv_runtime_for_lease [lspee_inv]:
  "registry_inv r \<Longrightarrow> registry_inv (snd (runtime_for_lease now i r))"
  using inv_touch [of r now]
  by (simp add: runtime_for_lease_def flip: touch_def split: option.splits)

lemma inv_call [lspee_inv]:
  "registry_inv r \<Longrightarrow> registry_inv (snd (call_by_lease_id now f i req r))"
  using inv_runtime_for_lease [of r now i]
  by (cases "runtime_for_lease now i r")
    (simp add: call_by_lease_id_def inv_touch split: prod.splits sum.splits option.splits)

lemma inv_notify [lspee_inv]:
  "registry_inv r \<Longrightarrow> registry_inv (snd (notify_by_lease_id now f i msg r))"
  using inv_runtime_for_lease [of r now i]
  by (cases "runtime_for_lease now i r")
    (simp add: notify_by_lease_id_def inv_touch split: prod.splits sum.splits option.splits)

lemma map_entries_map_of:
  "map_of (map (\<lambda>(k, v). (k, f v)) m) k = map_option f (map_of m k)"
  using map_of_map_values [of "\<lambda>_. f"] .

lemma distinct_keys_map_values [simp]:
  "distinct_keys (map (\<lambda>(k, v). (k, f v)) m) = distinct_keys m"
  by (simp add: distinct_keys_def split_def comp_def)

lemma inv_idle_candidates [lspee_inv]:
  "registry_inv r \<Longrightarrow> registry_inv (snd (idle_candidates now r))"
  by (auto simp: registry_inv_def idle_candidates_def Let_def sessions_ok_def leases_ok_def
      gates_ok_def map_entries_map_of)

lemma inv_increments [lspee_inv]:
  "registry_inv r \<Longrightarrow> registry_inv (increment_idle_gc r)"
  "registry_inv r \<Longrightarrow> registry_inv (increment_memory_eviction r)"
  "registry_inv r \<Longrightarrow> registry_inv (increment_session_crash r)"
  by (simp_all add: registry_inv_def gates_ok_def increment_idle_gc_def
      increment_memory_eviction_def increment_session_crash_def)

lemma inv_with_idle_ttl [simp]: "registry_inv (with_idle_ttl ttl)"
  by (simp add: registry_inv_def with_idle_ttl_def sessions_ok_def leases_ok_def gates_ok_def)

subsection \<open>What acquiring does\<close>

lemma try_reuse_None_iff: "try_reuse now key ck r = None \<longleftrightarrow> map_of (reg_sessions r) key = None"
  by (auto simp: try_reuse_def split: option.splits)

text \<open>The three outcomes, each over the state the gate sections have prepared.\<close>

text \<open>Entering an open gate, spawning and finishing leaves everything but the gates as it was.\<close>

lemma spawn_cycle:
  assumes e: "enter_gate g r = (ShouldSpawn, r')" and ok: "gates_ok r" and g: "g < length (reg_gate_heap r)"
  shows "same_but_gates r (finish_spawn g r')" and "gates_ok (finish_spawn g r')"
    and "gates_idle r \<Longrightarrow> gates_idle (finish_spawn g r')"
proof -
  show "same_but_gates r (finish_spawn g r')"
    by (rule same_but_gates_trans [OF enter_gate_same [OF e]]) simp
  show "gates_ok (finish_spawn g r')" using enter_gate_gates [OF e] ok by simp
  have "finish_spawn g r' = r\<lparr>reg_gate_heap := (reg_gate_heap r)
      [g := (reg_gate_heap r ! g)\<lparr>sg_started := False, sg_notify := sg_notify (reg_gate_heap r ! g) + 1\<rparr>]\<rparr>"
    using e g by (auto simp: enter_gate_def finish_spawn_def Let_def split: if_splits)
  then show "gates_idle (finish_spawn g r')" if "gates_idle r"
    using that by (auto simp: gates_idle_def dest!: set_update_subset_insert [THEN subsetD])
qed

lemma acquire_cases:
  assumes "acquire_or_spawn now key ck spawn r = Some (res, r')" and "gates_ok r"
  obtains (reuse) r1 l where "same_but_gates r r1" "gates_ok r1"
      "gates_idle r \<Longrightarrow> gates_idle r1"
      "try_reuse now key ck r1 = Some (l, r')" "res = Inr l"
  | (spawned) r1 h where "same_but_gates r r1" "gates_ok r1"
      "gates_idle r \<Longrightarrow> gates_idle r1"
      "map_of (reg_sessions r) key = None" "spawn key = Inr h"
      "res = Inr (fst (install now key ck h r1))" "r' = snd (install now key ck h r1)"
  | (failed) e where "same_but_gates r r'" "gates_ok r'"
      "gates_idle r \<Longrightarrow> gates_idle r'"
      "map_of (reg_sessions r) key = None" "spawn key = Inl e" "res = Inl e"
proof -
  obtain g r2 where g: "gate_for key (count_attach r) = (g, r2)"
    by (cases "gate_for key (count_attach r)")
  have ok0: "gates_ok (count_attach r)" using assms(2) by (simp add: gates_ok_def)
  have s2: "same_but_gates r r2"
    using count_attach_same gate_for_same [OF g] by (rule same_but_gates_trans)
  have ok2: "gates_ok r2" and glen: "g < length (reg_gate_heap r2)"
    using gate_for_gates [OF g ok0] by simp_all
  have idle2: "gates_idle r \<Longrightarrow> gates_idle r2"
    using gate_for_idle [OF g] by (simp add: gates_idle_def)
  show ?thesis
  proof (cases "try_reuse now key ck r2")
    case (Some p)
    with assms(1) g have "try_reuse now key ck r2 = Some (fst p, r')" "res = Inr (fst p)"
      by (auto simp: acquire_or_spawn_def split: prod.splits)
    with s2 ok2 idle2 show ?thesis by (rule reuse)
  next
    case None
    with s2 have nosess: "map_of (reg_sessions r) key = None"
      by (simp add: try_reuse_None_iff same_but_gates_def)
    obtain e r3 where e: "enter_gate g r2 = (e, r3)" by (cases "enter_gate g r2")
    from assms(1) g None e have "e = ShouldSpawn"
      by (cases e) (auto simp: acquire_or_spawn_def)
    define r4 where "r4 = finish_spawn g r3"
    note cycle = spawn_cycle [OF e [unfolded \<open>e = ShouldSpawn\<close>] ok2 glen, folded r4_def]
    note s4 = same_but_gates_trans [OF s2 cycle(1)] and ok4 = cycle(2)
    have idle4: "gates_idle r4" if "gates_idle r" by (rule cycle(3) [OF idle2 [OF that]])
    show ?thesis
    proof (cases "spawn key")
      case (Inl err)
      with assms(1) g None e \<open>e = ShouldSpawn\<close> have "res = Inl err" "r' = drop_gate key r4"
        by (auto simp: acquire_or_spawn_def Let_def r4_def)
      moreover have "same_but_gates r (drop_gate key r4)"
        using s4 drop_gate_same by (rule same_but_gates_trans)
      moreover have "gates_idle r \<Longrightarrow> gates_idle (drop_gate key r4)"
        using idle4 by (simp add: gates_idle_def drop_gate_def)
      ultimately show ?thesis using failed nosess Inl ok4 by simp
    next
      case (Inr h)
      with assms(1) g None e \<open>e = ShouldSpawn\<close>
      have "res = Inr (fst (install now key ck h r4))" "r' = snd (install now key ck h r4)"
        by (auto simp: acquire_or_spawn_def Let_def r4_def split: prod.splits)
      with s4 ok4 idle4 nosess Inr show ?thesis by (rule spawned)
    qed
  qed
qed

text \<open>A spawn closure that labels the handle with the key it was asked for.\<close>

definition spawn_keyed :: "(session_key \<Rightarrow> session_handle result) \<Rightarrow> session_key \<Rightarrow> bool" where
  "spawn_keyed spawn key = (case spawn key of Inl _ \<Rightarrow> True | Inr h \<Rightarrow> sh_key h = key)"

lemma inv_acquire [lspee_inv]:
  assumes inv: "registry_inv r" and n: "unat (reg_lease_seq r) + 1 < 2 ^ 64"
    and sp: "spawn_keyed spawn key"
    and acq: "acquire_or_spawn now key ck spawn r = Some (res, r')"
  shows "registry_inv r'"
proof -
  from inv have "gates_ok r" by (simp add: registry_inv_def)
  with acq show ?thesis
  proof (cases rule: acquire_cases)
    case (reuse r1 l)
    then have "registry_inv r1" using inv_same_but_gates [OF inv] by simp
    with reuse n show ?thesis by (auto simp: same_but_gates_def intro: inv_try_reuse)
  next
    case (spawned r1 h)
    then have "registry_inv r1" using inv_same_but_gates [OF inv] by simp
    with spawned n sp show ?thesis by (auto simp: same_but_gates_def spawn_keyed_def intro: inv_install)
  next
    case (failed e)
    then show ?thesis using inv_same_but_gates [OF inv] by simp
  qed
qed

lemma acquire_idle_gates:
  assumes "acquire_or_spawn now key ck spawn r = Some (res, r')" "gates_ok r" "gates_idle r"
  shows "gates_idle r'"
  using assms(1,2)
proof (cases rule: acquire_cases)
  case (reuse r1 l)
  with assms(3) show ?thesis
    by (auto simp: try_reuse_def insert_lease_pair gates_idle_def split: option.splits)
next
  case (spawned r1 h)
  with assms(3) show ?thesis by (simp add: install_def gates_idle_def)
next
  case (failed e)
  with assms(3) show ?thesis by simp
qed

lemma acquire_returns:
  assumes "gates_ok r" "gates_idle r"
  shows "acquire_or_spawn now key ck spawn r \<noteq> None"
proof -
  obtain g r2 where g: "gate_for key (count_attach r) = (g, r2)"
    by (cases "gate_for key (count_attach r)")
  have "gates_ok (count_attach r)" using assms(1) by (simp add: gates_ok_def)
  with gate_for_gates [OF g] have glen: "g < length (reg_gate_heap r2)" by simp
  have "gates_idle r2"
    using gate_for_idle [OF g] assms(2) by (simp add: gates_idle_def)
  with glen have "\<not> sg_started (reg_gate_heap r2 ! g)" by (simp add: gates_idle_def)
  with g show ?thesis
    by (auto simp: acquire_or_spawn_def enter_gate_def Let_def split: option.splits prod.splits
        sum.splits)
qed

subsection \<open>Owners and reference counts\<close>

text \<open>
  What a client of the registry can observe: the key a lease is on, the number of leases a
  session has.
\<close>

definition lease_owner :: "registry \<Rightarrow> string \<Rightarrow> session_key option" where
  "lease_owner r i = map_option lr_key (map_of (reg_leases r) i)"

definition session_refs :: "registry \<Rightarrow> session_key \<Rightarrow> nat option" where
  "session_refs r k = map_option sr_ref_count (map_of (reg_sessions r) k)"

definition lease_room :: "registry \<Rightarrow> bool" where
  "lease_room r = (unat (reg_lease_seq r) + 1 < 2 ^ 64)"

lemma acquire_Inr:
  assumes inv: "registry_inv r"
    and acq: "acquire_or_spawn now key ck spawn r = Some (Inr l, r')"
  shows "le_key l = key" "le_id l = lease_name (reg_lease_seq r)"
    and "reg_lease_seq r' = reg_lease_seq r + 1"
    and "lease_owner r' = (lease_owner r)(le_id l \<mapsto> key)"
    and "session_refs r' = (session_refs r)(key \<mapsto> case session_refs r key of None \<Rightarrow> 1 | Some n \<Rightarrow> n + 1)"
    and "\<exists>rec. map_of (reg_sessions r') key = Some rec \<and> \<not> sr_terminating rec \<and>
           sr_termination_notice rec = None \<and> sr_last_used rec = now"
proof -
  from inv have "gates_ok r" by (simp add: registry_inv_def)
  with acq have all: "le_key l = key \<and> le_id l = lease_name (reg_lease_seq r) \<and>
     reg_lease_seq r' = reg_lease_seq r + 1 \<and>
     lease_owner r' = (lease_owner r)(le_id l \<mapsto> key) \<and>
     session_refs r' = (session_refs r)(key \<mapsto> case session_refs r key of None \<Rightarrow> 1 | Some n \<Rightarrow> n + 1) \<and>
     (\<exists>rec. map_of (reg_sessions r') key = Some rec \<and> \<not> sr_terminating rec \<and>
        sr_termination_notice rec = None \<and> sr_last_used rec = now)"
  proof (cases rule: acquire_cases)
    case (reuse r1 l')
    then show ?thesis
      by (auto simp: same_but_gates_def try_reuse_def insert_lease_pair lease_owner_def session_refs_def fun_eq_iff
          update_conv' map_of_map_entry' split: option.splits)
  next
    case (spawned r1 h)
    then show ?thesis
      by (auto simp: same_but_gates_def install_def lease_owner_def session_refs_def fun_eq_iff
          update_conv' map_of_map_entry' split: option.splits)
  next
    case (failed e)
    then show ?thesis by simp
  qed
  then show "le_key l = key" "le_id l = lease_name (reg_lease_seq r)"
    and "reg_lease_seq r' = reg_lease_seq r + 1"
    and "lease_owner r' = (lease_owner r)(le_id l \<mapsto> key)"
    and "session_refs r' = (session_refs r)(key \<mapsto> case session_refs r key of None \<Rightarrow> 1 | Some n \<Rightarrow> n + 1)"
    and "\<exists>rec. map_of (reg_sessions r') key = Some rec \<and> \<not> sr_terminating rec \<and>
           sr_termination_notice rec = None \<and> sr_last_used rec = now"
    by blast+
qed

lemma acquire_Inl:
  assumes inv: "registry_inv r"
    and acq: "acquire_or_spawn now key ck spawn r = Some (Inl e, r')"
  shows "spawn key = Inl e" "reg_sessions r' = reg_sessions r" "reg_leases r' = reg_leases r"
    "reg_lease_seq r' = reg_lease_seq r"
proof -
  from inv have "gates_ok r" by (simp add: registry_inv_def)
  with acq have "spawn key = Inl e \<and> reg_sessions r' = reg_sessions r \<and>
      reg_leases r' = reg_leases r \<and> reg_lease_seq r' = reg_lease_seq r"
    by (cases rule: acquire_cases) (auto simp: same_but_gates_def)
  then show "spawn key = Inl e" "reg_sessions r' = reg_sessions r" "reg_leases r' = reg_leases r"
    "reg_lease_seq r' = reg_lease_seq r" by simp_all
qed

lemma lease_owner_fresh:
  assumes "registry_inv r"
  shows "lease_owner r (lease_name (reg_lease_seq r)) = None"
  using assms leases_okD(2) [of "reg_sessions r" "reg_leases r" "reg_lease_seq r"]
  by (fastforce simp: registry_inv_def lease_owner_def)

lemma refs_leases_on:
  "registry_inv r \<Longrightarrow> session_refs r k = Some n \<Longrightarrow> n = leases_on k (reg_leases r)"
  by (auto simp: registry_inv_def sessions_ok_def session_refs_def)

subsection \<open>The lease contract\<close>

text \<open>
  What the daemon's connection handlers rely on: a lease has one owner, releasing it takes one
  reference away from its owner and can be done once.
\<close>

locale lease_store =
  fixes inv :: "'s \<Rightarrow> bool"
    and release :: "'i \<Rightarrow> 's \<Rightarrow> nat option \<times> 's"
    and owner :: "'s \<Rightarrow> 'i \<Rightarrow> 'k option"
    and refs :: "'s \<Rightarrow> 'k \<Rightarrow> nat option"
  assumes release_inv: "inv s \<Longrightarrow> inv (snd (release i s))"
    and release_unowned: "owner s i = None \<Longrightarrow> release i s = (None, s)"
    and release_owner: "inv s \<Longrightarrow> owner (snd (release i s)) = (owner s)(i := None)"
    and release_refs: "inv s \<Longrightarrow> owner s i = Some k \<Longrightarrow>
      refs (snd (release i s)) = (refs s)(k := map_option (\<lambda>n. n - 1) (refs s k))"
    and release_count: "inv s \<Longrightarrow> owner s i = Some k \<Longrightarrow>
      fst (release i s) = refs (snd (release i s)) k"
    and owner_live: "inv s \<Longrightarrow> owner s i = Some k \<Longrightarrow> refs s k \<noteq> None \<and> refs s k \<noteq> Some 0"
begin

definition release_all :: "'i list \<Rightarrow> 's \<Rightarrow> 's" where
  "release_all is s = fold (\<lambda>i s. snd (release i s)) is s"

lemma release_all_simps [simp]:
  "release_all [] s = s"
  "release_all (i # is) s = release_all is (snd (release i s))"
  by (simp_all add: release_all_def)

lemma release_all_inv: "inv s \<Longrightarrow> inv (release_all is s)"
  by (induction "is" arbitrary: s) (simp_all add: release_inv)

lemma release_all_owner:
  "inv s \<Longrightarrow> owner (release_all is s) j = (if j \<in> set is then None else owner s j)"
  by (induction "is" arbitrary: s) (simp_all add: release_inv release_owner)

lemma release_twice:
  assumes "inv s"
  shows "release i (snd (release i s)) = (None, snd (release i s))"
  by (rule release_unowned) (simp add: release_owner [OF assms])

lemma release_all_idem:
  assumes "inv s"
  shows "release_all is (release_all is s) = release_all is s"
proof -
  have "release_all js t = t" if "inv t" "\<And>j. j \<in> set js \<Longrightarrow> owner t j = None" for js t
    using that by (induction js) (simp_all add: release_unowned)
  then show ?thesis by (simp add: assms release_all_inv release_all_owner)
qed

text \<open>Releasing distinct leases takes one reference per lease the session owned.\<close>

lemma release_all_refs:
  assumes "inv s" and "distinct is"
  shows "refs (release_all is s) k =
    map_option (\<lambda>n. n - length (filter (\<lambda>i. owner s i = Some k) is)) (refs s k)"
  using assms
proof (induction "is" arbitrary: s)
  case Nil
  show ?case by (cases "refs s k") simp_all
next
  case (Cons i "is")
  let ?s = "snd (release i s)"
  from Cons.prems have i: "i \<notin> set is" and s: "inv ?s" by (simp_all add: release_inv)
  have same: "filter (\<lambda>j. owner ?s j = Some k) is = filter (\<lambda>j. owner s j = Some k) is"
    using i Cons.prems by (intro filter_cong) (auto simp: release_owner)
  have "refs (release_all (i # is) s) k =
      map_option (\<lambda>n. n - length (filter (\<lambda>j. owner s j = Some k) is)) (refs ?s k)"
    using Cons.IH [OF s] Cons.prems by (simp add: same)
  also have "refs ?s k = map_option (\<lambda>n. n - (if owner s i = Some k then 1 else 0)) (refs s k)"
  proof (cases "owner s i")
    case None
    then show ?thesis by (cases "refs s k") (simp_all add: release_unowned)
  next
    case (Some k')
    then show ?thesis
      using release_refs [OF Cons.prems(1) Some] by (cases "refs s k") auto
  qed
  finally show ?case by (cases "refs s k") (simp_all add: diff_diff_left)
qed

end

text \<open>The same store with the operation that hands leases out.\<close>

locale lease_table = lease_store inv release owner refs
  for inv :: "'s \<Rightarrow> bool"
    and release :: "'i \<Rightarrow> 's \<Rightarrow> nat option \<times> 's"
    and owner :: "'s \<Rightarrow> 'i \<Rightarrow> 'k option"
    and refs :: "'s \<Rightarrow> 'k \<Rightarrow> nat option" +
  fixes room :: "'s \<Rightarrow> bool"
    and acquire :: "'k \<Rightarrow> 's \<Rightarrow> ('i \<times> 's) option"
  assumes acquire_inv: "inv s \<Longrightarrow> room s \<Longrightarrow> acquire k s = Some (i, s') \<Longrightarrow> inv s'"
    and acquire_fresh: "inv s \<Longrightarrow> acquire k s = Some (i, s') \<Longrightarrow> owner s i = None"
    and acquire_owner: "inv s \<Longrightarrow> acquire k s = Some (i, s') \<Longrightarrow> owner s' = (owner s)(i \<mapsto> k)"
    and acquire_refs: "inv s \<Longrightarrow> acquire k s = Some (i, s') \<Longrightarrow>
      refs s' = (refs s)(k \<mapsto> case refs s k of None \<Rightarrow> 1 | Some n \<Rightarrow> n + 1)"
begin

lemma acquire_release:
  assumes "inv s" "room s" "acquire k s = Some (i, s')"
  shows "owner (snd (release i s')) = owner s"
    and "refs (snd (release i s')) = (refs s)(k \<mapsto> case refs s k of None \<Rightarrow> 0 | Some n \<Rightarrow> n)"
    and "fst (release i s') = Some (case refs s k of None \<Rightarrow> 0 | Some n \<Rightarrow> n)"
proof -
  from assms have s': "inv s'" by (rule acquire_inv)
  have o: "owner s' i = Some k" using acquire_owner [OF assms(1,3)] by simp
  show "owner (snd (release i s')) = owner s"
    using acquire_fresh [OF assms(1,3)] by (auto simp: release_owner [OF s'] acquire_owner [OF assms(1,3)])
  show refs: "refs (snd (release i s')) = (refs s)(k \<mapsto> case refs s k of None \<Rightarrow> 0 | Some n \<Rightarrow> n)"
    using release_refs [OF s' o] acquire_refs [OF assms(1,3)] by (auto split: option.splits)
  show "fst (release i s') = Some (case refs s k of None \<Rightarrow> 0 | Some n \<Rightarrow> n)"
    by (simp add: release_count [OF s' o] refs)
qed

lemma acquire_other_refs:
  assumes "inv s" "acquire k s = Some (i, s')" "k' \<noteq> k"
  shows "refs s' k' = refs s k'"
  using acquire_refs [OF assms(1,2)] assms(3) by simp

end

text \<open>The registry provides it.\<close>

definition keyed_handle ::
  "(session_key \<Rightarrow> (nat \<times> json) result) \<Rightarrow> session_key \<Rightarrow> session_handle result" where
  "keyed_handle f key =
     (case f key of
        Inl e \<Rightarrow> Inl e
      | Inr (rt, init) \<Rightarrow> Inr \<lparr>sh_key = key, sh_runtime = rt, sh_initialize_result = init\<rparr>)"

definition acquire_lease ::
  "instant \<Rightarrow> client_kind option \<Rightarrow> (session_key \<Rightarrow> (nat \<times> json) result)
     \<Rightarrow> session_key \<Rightarrow> registry \<Rightarrow> (string \<times> registry) option" where
  "acquire_lease now ck f key r =
     (case acquire_or_spawn now key ck (keyed_handle f) r of
        Some (Inr l, r') \<Rightarrow> Some (le_id l, r')
      | _ \<Rightarrow> None)"

lemma spawn_keyed_handle [simp]: "spawn_keyed (keyed_handle f) key"
  by (auto simp: spawn_keyed_def keyed_handle_def split: sum.splits)

lemma acquire_lease_Some:
  "acquire_lease now ck f key r = Some (i, r') \<longleftrightarrow>
     (\<exists>l. acquire_or_spawn now key ck (keyed_handle f) r = Some (Inr l, r') \<and> le_id l = i)"
  by (auto simp: acquire_lease_def split: option.splits sum.splits)

lemma release_effects:
  assumes inv: "registry_inv r" and i: "map_of (reg_leases r) i = Some l"
  shows "lease_owner (snd (release_by_lease_id now i r)) = (lease_owner r)(i := None)"
    and "session_refs (snd (release_by_lease_id now i r)) =
      (session_refs r)(lr_key l := map_option (\<lambda>n. n - 1) (session_refs r (lr_key l)))"
    and "fst (release_by_lease_id now i r) =
      session_refs (snd (release_by_lease_id now i r)) (lr_key l)"
proof -
  obtain rec where rec: "map_of (reg_sessions r) (lr_key l) = Some rec"
    by (rule lease_session [OF inv i])
  show "lease_owner (snd (release_by_lease_id now i r)) = (lease_owner r)(i := None)"
    by (simp add: release_known [OF i rec] fun_eq_iff lease_owner_def map_of_delete)
  show "session_refs (snd (release_by_lease_id now i r)) =
      (session_refs r)(lr_key l := map_option (\<lambda>n. n - 1) (session_refs r (lr_key l)))"
    and "fst (release_by_lease_id now i r) =
      session_refs (snd (release_by_lease_id now i r)) (lr_key l)"
    by (simp_all add: release_known [OF i rec] fun_eq_iff session_refs_def map_of_map_entry' rec)
qed

interpretation reg: lease_store registry_inv "release_by_lease_id now" lease_owner session_refs
  for now
proof
  fix r :: registry and i k
  show "registry_inv r \<Longrightarrow> registry_inv (snd (release_by_lease_id now i r))" by (rule inv_release)
  show "lease_owner r i = None \<Longrightarrow> release_by_lease_id now i r = (None, r)"
    by (simp add: lease_owner_def release_unknown)
  show "lease_owner (snd (release_by_lease_id now i r)) = (lease_owner r)(i := None)"
    if "registry_inv r"
  proof (cases "map_of (reg_leases r) i")
    case None
    then show ?thesis by (simp add: release_unknown) (simp add: fun_eq_iff lease_owner_def)
  next
    case (Some l)
    then show ?thesis by (rule release_effects [OF that])
  qed
  assume "registry_inv r" "lease_owner r i = Some k"
  then obtain l where l: "map_of (reg_leases r) i = Some l" "lr_key l = k" and inv: "registry_inv r"
    by (auto simp: lease_owner_def)
  from release_effects [OF inv l(1)] l(2)
  show "session_refs (snd (release_by_lease_id now i r)) =
      (session_refs r)(k := map_option (\<lambda>n. n - 1) (session_refs r k))"
    and "fst (release_by_lease_id now i r) = session_refs (snd (release_by_lease_id now i r)) k"
    by simp_all
  obtain rec where rec: "map_of (reg_sessions r) k = Some rec"
    using lease_session [OF inv l(1)] l(2) by blast
  have "leases_on k (reg_leases r) > 0"
    using leases_on_pos [OF _ l(1)] inv l(2) by (auto simp: registry_inv_def leases_ok_def)
  with rec show "session_refs r k \<noteq> None \<and> session_refs r k \<noteq> Some 0"
    using refs_leases_on [OF inv, of k] by (auto simp: session_refs_def)
qed

interpretation reg: lease_table registry_inv "release_by_lease_id now" lease_owner session_refs
  lease_room "acquire_lease now' ck f"
  for now now' ck f
proof
  fix r r' :: registry and i k
  assume inv: "registry_inv r" and acq: "acquire_lease now' ck f k r = Some (i, r')"
  then obtain l where a: "acquire_or_spawn now' k ck (keyed_handle f) r = Some (Inr l, r')"
    and l: "le_id l = i" by (auto simp: acquire_lease_Some)
  note eff = acquire_Inr [OF inv a]
  show "lease_room r \<Longrightarrow> registry_inv r'"
    by (rule inv_acquire [OF inv _ _ a]) (simp_all add: lease_room_def)
  show "lease_owner r i = None" using eff(2) l lease_owner_fresh [OF inv] by simp
  show "lease_owner r' = (lease_owner r)(i \<mapsto> k)" using eff(4) l by simp
  show "session_refs r' = (session_refs r)(k \<mapsto> case session_refs r k of None \<Rightarrow> 1 | Some n \<Rightarrow> n + 1)"
    by (rule eff(5))
qed

lemma release_many_all: "release_many now is r = reg.release_all now is r"
  by (induction "is" arbitrary: r) simp_all

subsection \<open>Runs of operations\<close>

text \<open>
  The operations of the registry as data: a run is any sequence of them, in any order, with any
  arguments. The spawn closure and the runtime are arbitrary functions.
\<close>

datatype registry_op =
    OpAcquire instant session_key "client_kind option" "session_key \<Rightarrow> (nat \<times> json) result"
  | OpRelease instant string
  | OpReleaseMany instant "string list"
  | OpCall instant "nat \<Rightarrow> json \<Rightarrow> json result" string json
  | OpNotify instant "nat \<Rightarrow> json \<Rightarrow> unit result" string json
  | OpTouch instant session_key
  | OpMarkTerminating session_key "stream_error_payload option"
  | OpRemove session_key
  | OpIdleCandidates instant
  | OpIncrementIdleGc
  | OpIncrementMemoryEviction
  | OpIncrementSessionCrash

fun run_op :: "registry_op \<Rightarrow> registry \<Rightarrow> registry" where
  "run_op (OpAcquire now key ck f) r =
     (case acquire_or_spawn now key ck (keyed_handle f) r of None \<Rightarrow> r | Some (_, r') \<Rightarrow> r')"
| "run_op (OpRelease now i) r = snd (release_by_lease_id now i r)"
| "run_op (OpReleaseMany now is) r = release_many now is r"
| "run_op (OpCall now f i request) r = snd (call_by_lease_id now f i request r)"
| "run_op (OpNotify now f i message) r = snd (notify_by_lease_id now f i message r)"
| "run_op (OpTouch now key) r = touch now key r"
| "run_op (OpMarkTerminating key notice) r = mark_terminating_with_notice key notice r"
| "run_op (OpRemove key) r = remove key r"
| "run_op (OpIdleCandidates now) r = snd (idle_candidates now r)"
| "run_op OpIncrementIdleGc r = increment_idle_gc r"
| "run_op OpIncrementMemoryEviction r = increment_memory_eviction r"
| "run_op OpIncrementSessionCrash r = increment_session_crash r"

text \<open>No operation but an attach touches the gates or the sequence.\<close>

definition same_gates_seq :: "registry \<Rightarrow> registry \<Rightarrow> bool" where
  "same_gates_seq r r' = (reg_gate_heap r' = reg_gate_heap r \<and> reg_lease_seq r' = reg_lease_seq r)"

lemma same_gates_seq_release: "same_gates_seq r (snd (release_by_lease_id now i r))"
  by (simp add: same_gates_seq_def release_by_lease_id_def take_lease_def drop_ref_def split_def
      split: option.splits)

lemma same_gates_seq_release_many: "same_gates_seq r (release_many now is r)"
proof (induction "is" arbitrary: r)
  case Nil
  then show ?case by (simp add: same_gates_seq_def)
next
  case (Cons i "is")
  from Cons.IH [of "snd (release_by_lease_id now i r)"] same_gates_seq_release [of r now i]
  show ?case by (simp add: same_gates_seq_def)
qed

lemma same_gates_seq_runtime: "same_gates_seq r (snd (runtime_for_lease now i r))"
  by (simp add: same_gates_seq_def runtime_for_lease_def split: option.splits)

lemma same_gates_seq_call: "same_gates_seq r (snd (call_by_lease_id now f i request r))"
  using same_gates_seq_runtime [of r now i]
  by (cases "runtime_for_lease now i r")
    (simp add: same_gates_seq_def call_by_lease_id_def touch_def
      split: prod.splits sum.splits option.splits)

lemma same_gates_seq_notify: "same_gates_seq r (snd (notify_by_lease_id now f i message r))"
  using same_gates_seq_runtime [of r now i]
  by (cases "runtime_for_lease now i r")
    (simp add: same_gates_seq_def notify_by_lease_id_def touch_def
      split: prod.splits sum.splits option.splits)

lemma run_op_gates_seq:
  assumes "\<And>now key ck f. op \<noteq> OpAcquire now key ck f"
  shows "same_gates_seq r (run_op op r)"
  using assms
  by (cases op)
    (auto simp: same_gates_seq_release same_gates_seq_release_many same_gates_seq_call
      same_gates_seq_notify,
     simp_all add: same_gates_seq_def touch_def mark_terminating_with_notice_def remove_def
      remove_leases_def remove_session_def drop_gate_def idle_candidates_def Let_def
      increment_idle_gc_def increment_memory_eviction_def increment_session_crash_def)

lemma acquire_seq:
  assumes "registry_inv r" "acquire_or_spawn now key ck spawn r = Some (res, r')"
  shows "reg_lease_seq r' = (if is_ok res then reg_lease_seq r + 1 else reg_lease_seq r)"
  using acquire_Inl(4) [OF assms(1)] acquire_Inr(3) [OF assms(1)] assms(2)
  by (cases res) auto

text \<open>The state between operations: the invariant, idle gates, and a bound on the sequence.\<close>

definition quiescent :: "nat \<Rightarrow> registry \<Rightarrow> bool" where
  "quiescent n r = (registry_inv r \<and> gates_idle r \<and> unat (reg_lease_seq r) \<le> n)"

lemma quiescent_run_op:
  assumes q: "quiescent n r" and n: "n + 1 < 2 ^ 64"
  shows "quiescent (n + 1) (run_op op r)"
proof -
  from q have inv: "registry_inv r" and idle: "gates_idle r" and seq: "unat (reg_lease_seq r) \<le> n"
    by (auto simp: quiescent_def)
  show ?thesis
  proof (cases "\<exists>now key ck f. op = OpAcquire now key ck f")
    case True
    then obtain now key ck f where op: "op = OpAcquire now key ck f" by blast
    from inv have ok: "gates_ok r" by (simp add: registry_inv_def)
    with idle acquire_returns obtain res r' where
      a: "acquire_or_spawn now key ck (keyed_handle f) r = Some (res, r')"
      by (metis option.exhaust surj_pair)
    from seq n have room: "unat (reg_lease_seq r) + 1 < 2 ^ 64" by simp
    have "registry_inv r'" by (rule inv_acquire [OF inv room _ a]) simp
    moreover have "gates_idle r'" by (rule acquire_idle_gates [OF a ok idle])
    moreover have "unat (reg_lease_seq r') \<le> n + 1"
      using acquire_seq [OF inv a] seq room by (simp add: unat_word_ariths(1))
    ultimately show ?thesis by (simp add: op a quiescent_def)
  next
    case False
    then have "same_gates_seq r (run_op op r)" by (intro run_op_gates_seq) blast
    moreover from False inv have "registry_inv (run_op op r)"
      by (cases op) (simp_all add: inv_release inv_release_many inv_call inv_notify inv_touch
          inv_mark_terminating inv_remove inv_idle_candidates inv_increments)
    ultimately show ?thesis
      using idle seq by (simp add: quiescent_def same_gates_seq_def gates_idle_def)
  qed
qed

lemma quiescent_run:
  "quiescent n r \<Longrightarrow> n + length ops < 2 ^ 64 \<Longrightarrow> quiescent (n + length ops) (fold run_op ops r)"
proof (induction ops arbitrary: n r)
  case Nil
  then show ?case by simp
next
  case (Cons op ops)
  then have "quiescent (n + 1) (run_op op r)" by (intro quiescent_run_op) simp_all
  from Cons.IH [OF this] Cons.prems show ?case by simp
qed

lemma quiescent_new: "quiescent 1 (with_idle_ttl ttl)"
  by (simp add: quiescent_def gates_idle_def) (simp add: with_idle_ttl_def)

subsection \<open>The abstract registry\<close>

text \<open>
  What the registry promises, without gates, counts, clocks or counters: for every live session
  the set of leases on it.
\<close>

type_synonym lease_map = "session_key \<Rightarrow> string set option"

definition abs_registry :: "registry \<Rightarrow> lease_map" where
  "abs_registry r k =
     (if session_refs r k = None then None else Some {i. lease_owner r i = Some k})"

definition spec_attach :: "session_key \<Rightarrow> string \<Rightarrow> lease_map \<Rightarrow> lease_map" where
  "spec_attach k i m = m(k \<mapsto> insert i (case m k of None \<Rightarrow> {} | Some I \<Rightarrow> I))"

definition spec_release :: "string \<Rightarrow> lease_map \<Rightarrow> lease_map" where
  "spec_release i m k = map_option (\<lambda>I. I - {i}) (m k)"

lemma no_owner_without_session:
  "registry_inv r \<Longrightarrow> session_refs r k = None \<Longrightarrow> lease_owner r i \<noteq> Some k"
  using reg.owner_live [of r i k] by blast

lemma leases_on_card:
  assumes "distinct_keys L"
  shows "leases_on k L = card {i. \<exists>l. map_of L i = Some l \<and> lr_key l = k}"
proof -
  let ?F = "filter (\<lambda>(_, l). lr_key l = k) L"
  from assms have d: "distinct (map fst ?F)" by (simp add: distinct_keys_def distinct_map_filter)
  have "leases_on k L = card (set (map fst ?F))"
    using distinct_card [OF d] by (simp add: leases_on_def count_entries_def)
  also have "set (map fst ?F) = {i. \<exists>l. map_of L i = Some l \<and> lr_key l = k}"
    using assms by (force simp: map_of_eq_Some_iff_mem)
  finally show ?thesis .
qed

lemma refs_card:
  assumes "registry_inv r" "session_refs r k = Some n"
  shows "n = card {i. lease_owner r i = Some k}"
proof -
  have "{i. lease_owner r i = Some k} =
      {i. \<exists>l. map_of (reg_leases r) i = Some l \<and> lr_key l = k}"
    by (auto simp: lease_owner_def)
  with refs_leases_on [OF assms] leases_on_card [of "reg_leases r" k] assms(1) show ?thesis
    by (simp add: registry_inv_def leases_ok_def)
qed

lemma abs_attach:
  assumes inv: "registry_inv r"
    and owner: "lease_owner r' = (lease_owner r)(i \<mapsto> k)" and fresh: "lease_owner r i = None"
    and refs: "session_refs r' = (session_refs r)(k \<mapsto> n)"
  shows "abs_registry r' = spec_attach k i (abs_registry r)"
  using no_owner_without_session [OF inv, of k] fresh
  by (auto simp: abs_registry_def spec_attach_def owner refs fun_eq_iff)

lemma abs_release:
  assumes inv: "registry_inv r"
  shows "abs_registry (snd (release_by_lease_id now i r)) = spec_release i (abs_registry r)"
proof (cases "lease_owner r i")
  case None
  then show ?thesis
    by (auto simp: reg.release_unowned abs_registry_def spec_release_def fun_eq_iff)
next
  case (Some k)
  show ?thesis
    using reg.release_refs [OF inv Some, of now]
    by (auto simp: abs_registry_def spec_release_def fun_eq_iff reg.release_owner [OF inv])
qed

subsection \<open>Properties\<close>

text \<open>C1: every run of registry operations from an empty registry ends in a state where each
  session's reference count is the number of leases held on it, each lease names a live session,
  handles carry the key they are stored under, and no spawn gate is left closed (for fewer than
  \<open>2 ^ 64 - 1\<close> operations, after which lease numbers repeat).\<close>

theorem registry_run_invariant:
  assumes "length ops + 1 < 2 ^ 64"
  shows "registry_inv (fold run_op ops (with_idle_ttl ttl)) \<and>
    gates_idle (fold run_op ops (with_idle_ttl ttl))"
  using quiescent_run [OF quiescent_new, of ops ttl] assms by (simp add: quiescent_def)

theorem registry_run_invariant_witness:
  "registry_inv (fold run_op
      [OpAcquire 5 (session_key_new [''/''] ''rust'' ''h'') None (\<lambda>_. Inr (7, JNull)),
       OpRelease 6 (lease_name 1), OpIdleCandidates 400] (with_idle_ttl 300)) \<and>
   gates_idle (fold run_op
      [OpAcquire 5 (session_key_new [''/''] ''rust'' ''h'') None (\<lambda>_. Inr (7, JNull)),
       OpRelease 6 (lease_name 1), OpIdleCandidates 400] (with_idle_ttl 300))"
  by (rule registry_run_invariant) simp

text \<open>C2: an attach that meets no other task always returns. It refines the abstract attach: on
  success the new lease is fresh and is added to the set of its session, on failure nothing
  changes and the error is the spawn's, which is only asked for when the session does not
  exist.\<close>

theorem acquire_refines_attach:
  assumes inv: "registry_inv r" and idle: "gates_idle r" and room: "lease_room r"
  shows "\<exists>res r'. acquire_or_spawn now key ck (keyed_handle f) r = Some (res, r') \<and>
    registry_inv r' \<and> gates_idle r' \<and>
    (case res of
       Inr l \<Rightarrow> lease_owner r (le_id l) = None \<and>
         abs_registry r' = spec_attach key (le_id l) (abs_registry r)
     | Inl e \<Rightarrow> abs_registry r' = abs_registry r \<and> abs_registry r key = None \<and> f key = Inl e)"
proof -
  from inv have ok: "gates_ok r" by (simp add: registry_inv_def)
  with idle acquire_returns obtain res r' where
    a: "acquire_or_spawn now key ck (keyed_handle f) r = Some (res, r')"
    by (metis option.exhaust surj_pair)
  have inv': "registry_inv r'"
    by (rule inv_acquire [OF inv _ _ a]) (use room in \<open>simp_all add: lease_room_def\<close>)
  have "case res of
       Inr l \<Rightarrow> lease_owner r (le_id l) = None \<and>
         abs_registry r' = spec_attach key (le_id l) (abs_registry r)
     | Inl e \<Rightarrow> abs_registry r' = abs_registry r \<and> abs_registry r key = None \<and> f key = Inl e"
  proof (cases res)
    case (Inl e)
    with acquire_Inl [OF inv] a have "keyed_handle f key = Inl e"
      "lease_owner r' = lease_owner r" "session_refs r' = session_refs r"
      by (simp_all add: lease_owner_def session_refs_def fun_eq_iff)
    moreover have "session_refs r key = None"
      using a ok by (cases rule: acquire_cases) (simp_all add: Inl session_refs_def)
    ultimately show ?thesis using Inl
      by (auto simp: abs_registry_def fun_eq_iff keyed_handle_def split: sum.splits)
  next
    case (Inr l)
    note eff = acquire_Inr [OF inv a [unfolded Inr]]
    have "lease_owner r (le_id l) = None" using lease_owner_fresh [OF inv] by (simp add: eff(2))
    with abs_attach [OF inv eff(4) _ eff(5)] Inr show ?thesis by simp
  qed
  with a inv' acquire_idle_gates [OF a ok idle] show ?thesis by blast
qed

theorem acquire_refines_attach_witness:
  "\<exists>res r'. acquire_or_spawn 3 (session_key_new [''/''] ''rust'' ''h'') (Some Agent)
      (keyed_handle (\<lambda>_. Inr (7, JNull))) (with_idle_ttl 300) = Some (res, r') \<and>
    registry_inv r' \<and> gates_idle r' \<and>
    (case res of
       Inr l \<Rightarrow> lease_owner (with_idle_ttl 300) (le_id l) = None \<and>
         abs_registry r' = spec_attach (session_key_new [''/''] ''rust'' ''h'') (le_id l)
           (abs_registry (with_idle_ttl 300))
     | Inl e \<Rightarrow> abs_registry r' = abs_registry (with_idle_ttl 300) \<and>
         abs_registry (with_idle_ttl 300) (session_key_new [''/''] ''rust'' ''h'') = None \<and>
         (Inr (7, JNull) :: (nat \<times> json) result) = Inl e)"
  by (rule acquire_refines_attach) (simp_all add: gates_idle_def lease_room_def with_idle_ttl_def
      registry_inv_def sessions_ok_def leases_ok_def gates_ok_def)

text \<open>C3: releasing a lease refines the abstract release. The answer is \<open>None\<close> exactly when the
  lease is unknown, so a second release of the same lease is refused, and otherwise the number of
  leases left on the session.\<close>

theorem release_refines_release:
  assumes inv: "registry_inv r"
  shows "abs_registry (snd (release_by_lease_id now i r)) = spec_release i (abs_registry r) \<and>
    registry_inv (snd (release_by_lease_id now i r)) \<and>
    fst (release_by_lease_id now i (snd (release_by_lease_id now' i r))) = None \<and>
    (case lease_owner r i of
       None \<Rightarrow> release_by_lease_id now i r = (None, r)
     | Some k \<Rightarrow> fst (release_by_lease_id now i r) =
         Some (card ({j. lease_owner r j = Some k} - {i})))"
proof -
  have inv': "registry_inv (snd (release_by_lease_id now i r))" using inv by (rule inv_release)
  have "case lease_owner r i of
       None \<Rightarrow> release_by_lease_id now i r = (None, r)
     | Some k \<Rightarrow> fst (release_by_lease_id now i r) =
         Some (card ({j. lease_owner r j = Some k} - {i}))"
  proof (cases "lease_owner r i")
    case None
    then show ?thesis by (simp add: reg.release_unowned)
  next
    case (Some k)
    let ?r = "snd (release_by_lease_id now i r)"
    have "session_refs ?r k \<noteq> None"
      using reg.release_refs [OF inv Some, of now] reg.owner_live [OF inv Some] by simp
    then obtain n where n: "session_refs ?r k = Some n" by auto
    have "{j. lease_owner ?r j = Some k} = {j. lease_owner r j = Some k} - {i}"
      by (auto simp: reg.release_owner [OF inv])
    with refs_card [OF inv' n] n reg.release_count [OF inv Some, of now] Some show ?thesis by simp
  qed
  moreover have "fst (release_by_lease_id now i (snd (release_by_lease_id now' i r))) = None"
    by (simp add: reg.release_unowned reg.release_owner [OF inv])
  ultimately show ?thesis using abs_release [OF inv] inv' by blast
qed

text \<open>A registry with one session and two leases, for the concrete instances below.\<close>

definition demo_key :: session_key where
  "demo_key = session_key_new [''/'', ''w''] ''rust-analyzer'' ''h''"

definition demo_registry :: registry where
  "demo_registry = fold run_op
     [OpAcquire 5 demo_key (Some Agent) (\<lambda>_. Inr (7, JNull)),
      OpAcquire 6 demo_key (Some Editor) (\<lambda>_. Inr (8, JNull))] (with_idle_ttl 300)"

lemma demo_registry_inv [simp]: "registry_inv demo_registry"
  using quiescent_run [OF quiescent_new,
      of "[OpAcquire 5 demo_key (Some Agent) (\<lambda>_. Inr (7, JNull)),
           OpAcquire 6 demo_key (Some Editor) (\<lambda>_. Inr (8, JNull))]" 300]
  by (simp add: demo_registry_def quiescent_def)

theorem release_refines_release_witness:
  "abs_registry (snd (release_by_lease_id 9 (lease_name 2) demo_registry)) =
     spec_release (lease_name 2) (abs_registry demo_registry) \<and>
   registry_inv (snd (release_by_lease_id 9 (lease_name 2) demo_registry)) \<and>
   fst (release_by_lease_id 9 (lease_name 2)
     (snd (release_by_lease_id 8 (lease_name 2) demo_registry))) = None \<and>
   (case lease_owner demo_registry (lease_name 2) of
      None \<Rightarrow> release_by_lease_id 9 (lease_name 2) demo_registry = (None, demo_registry)
    | Some k \<Rightarrow> fst (release_by_lease_id 9 (lease_name 2) demo_registry) =
        Some (card ({j. lease_owner demo_registry j = Some k} - {lease_name 2})))"
  by (rule release_refines_release) simp

text \<open>Releasing a batch of distinct leases takes all of them out, and each session loses as
  many references as it owned leases of the batch; doing it again changes nothing.\<close>

theorem release_many_drains:
  assumes inv: "registry_inv r" and dist: "distinct is"
  shows "lease_owner (release_many now is r) =
      (\<lambda>j. if j \<in> set is then None else lease_owner r j) \<and>
    session_refs (release_many now is r) = (\<lambda>k.
      map_option (\<lambda>n. n - length (filter (\<lambda>i. lease_owner r i = Some k) is)) (session_refs r k)) \<and>
    release_many now is (release_many now is r) = release_many now is r"
  using reg.release_all_owner [OF inv] reg.release_all_refs [OF inv dist]
    reg.release_all_idem [OF inv]
  by (simp add: release_many_all fun_eq_iff)

theorem release_many_drains_witness:
  "lease_owner (release_many 9 [lease_name 1, lease_name 2] demo_registry) =
      (\<lambda>j. if j \<in> set [lease_name 1, lease_name 2] then None else lease_owner demo_registry j) \<and>
    session_refs (release_many 9 [lease_name 1, lease_name 2] demo_registry) = (\<lambda>k.
      map_option (\<lambda>n. n - length (filter (\<lambda>i. lease_owner demo_registry i = Some k)
        [lease_name 1, lease_name 2])) (session_refs demo_registry k)) \<and>
    release_many 9 [lease_name 1, lease_name 2]
      (release_many 9 [lease_name 1, lease_name 2] demo_registry) =
    release_many 9 [lease_name 1, lease_name 2] demo_registry"
  by (rule release_many_drains) simp_all

definition clock_free :: "registry \<Rightarrow> session_key \<Rightarrow> (session_handle \<times> nat \<times> bool) option" where
  "clock_free r k = map_option (\<lambda>rec. (sr_handle rec, sr_ref_count rec, sr_terminating rec))
     (map_of (reg_sessions r) k)"

lemma clock_free_touch: "clock_free (touch now key r) = clock_free r"
  by (simp add: clock_free_def touch_def fun_eq_iff map_of_map_entry' option.map_comp comp_def)

lemma touch_leases [simp]: "reg_leases (touch now key r) = reg_leases r"
  by (simp add: touch_def)

lemma runtime_for_lease_state:
  assumes "registry_inv r"
  shows "runtime_for_lease now i r =
    (case map_of (reg_leases r) i of
       None \<Rightarrow> (Inr None, r)
     | Some l \<Rightarrow>
         (let rec = the (map_of (reg_sessions r) (lr_key l))
          in if sr_terminating rec then
               (Inl (case sr_termination_notice rec of
                       Some notice \<Rightarrow> sep_code notice @ '': '' @ sep_message notice
                     | None \<Rightarrow> ''session is terminating''), r)
             else (Inr (Some (lr_key l, sh_runtime (sr_handle rec))), touch now (lr_key l) r)))"
proof (cases "map_of (reg_leases r) i")
  case None
  then show ?thesis by (simp add: runtime_for_lease_def)
next
  case (Some l)
  obtain rec where "map_of (reg_sessions r) (lr_key l) = Some rec"
    by (rule lease_session [OF assms Some])
  with Some show ?thesis
    by (simp add: runtime_for_lease_def touch_def Let_def split: option.splits)
qed

text \<open>A call through a lease, on every branch. An unknown lease is answered without an error
  and reaches no runtime; a session under termination refuses with its notice; otherwise the
  request goes to the runtime of the session that owns the lease and its answer or error comes
  back. Whatever happens, only clocks change: owners, reference counts, handles and termination
  flags stay.\<close>

theorem call_by_lease_outcome:
  assumes inv: "registry_inv r"
  shows "clock_free (snd (call_by_lease_id now f i request r)) = clock_free r \<and>
    reg_leases (snd (call_by_lease_id now f i request r)) = reg_leases r \<and>
    fst (call_by_lease_id now f i request r) =
      (case map_of (reg_leases r) i of
         None \<Rightarrow> Inr None
       | Some l \<Rightarrow>
           (let rec = the (map_of (reg_sessions r) (lr_key l))
            in if sr_terminating rec then
                 Inl (case sr_termination_notice rec of
                        Some notice \<Rightarrow> sep_code notice @ '': '' @ sep_message notice
                      | None \<Rightarrow> ''session is terminating'')
               else (case f (sh_runtime (sr_handle rec)) request of
                       Inl e \<Rightarrow> Inl e | Inr response \<Rightarrow> Inr (Some response))))"
  by (simp add: call_by_lease_id_def runtime_for_lease_state [OF inv] Let_def clock_free_touch
      split: option.splits sum.splits)

theorem call_by_lease_outcome_witness:
  "clock_free (snd (call_by_lease_id 9 (\<lambda>rt _. Inr (JInt (int rt))) (lease_name 2) JNull demo_registry)) =
     clock_free demo_registry \<and>
   reg_leases (snd (call_by_lease_id 9 (\<lambda>rt _. Inr (JInt (int rt))) (lease_name 2) JNull demo_registry)) =
     reg_leases demo_registry \<and>
   fst (call_by_lease_id 9 (\<lambda>rt _. Inr (JInt (int rt))) (lease_name 2) JNull demo_registry) =
      (case map_of (reg_leases demo_registry) (lease_name 2) of
         None \<Rightarrow> Inr None
       | Some l \<Rightarrow>
           (let rec = the (map_of (reg_sessions demo_registry) (lr_key l))
            in if sr_terminating rec then
                 Inl (case sr_termination_notice rec of
                        Some notice \<Rightarrow> sep_code notice @ '': '' @ sep_message notice
                      | None \<Rightarrow> ''session is terminating'')
               else (case (Inr (JInt (int (sh_runtime (sr_handle rec)))) :: json result) of
                       Inl e \<Rightarrow> Inl e | Inr response \<Rightarrow> Inr (Some response))))"
  by (rule call_by_lease_outcome) simp

lemma idle_candidates_map:
  "map_of (reg_sessions (snd (idle_candidates now r))) k =
     map_option (\<lambda>rec. if is_idle_candidate now (reg_idle_ttl r) rec
                       then rec\<lparr>sr_terminating := True\<rparr> else rec) (map_of (reg_sessions r) k)"
  by (simp add: idle_candidates_def Let_def map_entries_map_of)

lemma refs_zero_iff:
  assumes inv: "registry_inv r" and n: "session_refs r k = Some n"
  shows "n = 0 \<longleftrightarrow> (\<forall>i. lease_owner r i \<noteq> Some k)"
proof
  assume "n = 0"
  with n show "\<forall>i. lease_owner r i \<noteq> Some k" using reg.owner_live [OF inv] by blast
next
  assume none: "\<forall>i. lease_owner r i \<noteq> Some k"
  have "leases_on k (reg_leases r) = 0"
    using inv none by (intro leases_on_none) (auto simp: registry_inv_def leases_ok_def lease_owner_def)
  then show "n = 0" using refs_leases_on [OF inv n] by simp
qed

lemma session_rec_facts:
  assumes inv: "registry_inv r" and k: "map_of (reg_sessions r) k = Some rec"
  shows "sh_key (sr_handle rec) = k"
    and "sr_ref_count rec = 0 \<longleftrightarrow> (\<forall>i. lease_owner r i \<noteq> Some k)"
proof -
  show "sh_key (sr_handle rec) = k"
    using inv k by (simp add: registry_inv_def sessions_ok_def)
  show "sr_ref_count rec = 0 \<longleftrightarrow> (\<forall>i. lease_owner r i \<noteq> Some k)"
    by (rule refs_zero_iff [OF inv]) (simp add: session_refs_def k)
qed

lemma session_mem_iff:
  "registry_inv r \<Longrightarrow> (k, rec) \<in> set (reg_sessions r) \<longleftrightarrow> map_of (reg_sessions r) k = Some rec"
  by (simp add: registry_inv_def sessions_ok_def map_of_eq_Some_iff_mem)

lemma idle_candidates_mem:
  assumes inv: "registry_inv r"
  shows "h \<in> set (fst (idle_candidates now r)) \<longleftrightarrow>
    (\<exists>rec. map_of (reg_sessions r) (sh_key h) = Some rec \<and> sr_handle rec = h \<and>
       is_idle_candidate now (reg_idle_ttl r) rec)"
proof -
  have "h \<in> set (fst (idle_candidates now r)) \<longleftrightarrow>
      (\<exists>k rec. map_of (reg_sessions r) k = Some rec \<and> sr_handle rec = h \<and>
         is_idle_candidate now (reg_idle_ttl r) rec)"
    by (force simp: idle_candidates_def Let_def session_mem_iff [OF inv, symmetric])
  also have "\<dots> \<longleftrightarrow> (\<exists>rec. map_of (reg_sessions r) (sh_key h) = Some rec \<and> sr_handle rec = h \<and>
       is_idle_candidate now (reg_idle_ttl r) rec)"
    using session_rec_facts(1) [OF inv] by blast
  finally show ?thesis .
qed

lemma idle_candidates_keys:
  assumes inv: "registry_inv r"
  shows "distinct (map sh_key (fst (idle_candidates now r)))"
proof -
  let ?F = "filter (\<lambda>(_, rec). is_idle_candidate now (reg_idle_ttl r) rec) (reg_sessions r)"
  have "map sh_key (fst (idle_candidates now r)) = map fst ?F"
    using session_rec_facts(1) [OF inv]
    by (auto simp: idle_candidates_def Let_def session_mem_iff [OF inv])
  with inv show ?thesis
    by (simp add: registry_inv_def sessions_ok_def distinct_keys_def distinct_map_filter)
qed

text \<open>The idle scan picks exactly the sessions that hold no lease, are not already
  terminating and have been unused for the time to live; it marks them, so the next scan does not
  pick them again, and leaves every other session and all leases alone.\<close>

theorem idle_candidates_exact:
  assumes inv: "registry_inv r"
  shows "set (fst (idle_candidates now r)) =
      {h. \<exists>rec. map_of (reg_sessions r) (sh_key h) = Some rec \<and> sr_handle rec = h \<and>
         (\<forall>i. lease_owner r i \<noteq> Some (sh_key h)) \<and> \<not> sr_terminating rec \<and>
         reg_idle_ttl r \<le> now - sr_last_used rec} \<and>
    distinct (map sh_key (fst (idle_candidates now r))) \<and>
    set (fst (idle_candidates now r)) \<inter>
      set (fst (idle_candidates now' (snd (idle_candidates now r)))) = {} \<and>
    abs_registry (snd (idle_candidates now r)) = abs_registry r"
proof -
  have inv': "registry_inv (snd (idle_candidates now r))" using inv by (rule inv_idle_candidates)
  have "set (fst (idle_candidates now r)) =
      {h. \<exists>rec. map_of (reg_sessions r) (sh_key h) = Some rec \<and> sr_handle rec = h \<and>
         (\<forall>i. lease_owner r i \<noteq> Some (sh_key h)) \<and> \<not> sr_terminating rec \<and>
         reg_idle_ttl r \<le> now - sr_last_used rec}"
    using session_rec_facts(2) [OF inv]
    by (auto simp: idle_candidates_mem [OF inv] is_idle_candidate_def)
  moreover have "set (fst (idle_candidates now r)) \<inter>
      set (fst (idle_candidates now' (snd (idle_candidates now r)))) = {}"
    by (auto simp: idle_candidates_mem [OF inv] idle_candidates_mem [OF inv'] idle_candidates_map
        is_idle_candidate_def)
  moreover have "abs_registry (snd (idle_candidates now r)) = abs_registry r"
    by (simp add: abs_registry_def session_refs_def lease_owner_def fun_eq_iff idle_candidates_map)
      (simp add: idle_candidates_def Let_def)
  ultimately show ?thesis using idle_candidates_keys [OF inv] by blast
qed

theorem idle_candidates_exact_witness:
  "set (fst (idle_candidates 400 demo_registry)) =
      {h. \<exists>rec. map_of (reg_sessions demo_registry) (sh_key h) = Some rec \<and> sr_handle rec = h \<and>
         (\<forall>i. lease_owner demo_registry i \<noteq> Some (sh_key h)) \<and> \<not> sr_terminating rec \<and>
         reg_idle_ttl demo_registry \<le> 400 - sr_last_used rec} \<and>
    distinct (map sh_key (fst (idle_candidates 400 demo_registry))) \<and>
    set (fst (idle_candidates 400 demo_registry)) \<inter>
      set (fst (idle_candidates 401 (snd (idle_candidates 400 demo_registry)))) = {} \<and>
    abs_registry (snd (idle_candidates 400 demo_registry)) = abs_registry demo_registry"
  by (rule idle_candidates_exact) simp

text \<open>Removing a session takes the session and every lease on it out of the abstract registry
  and nothing else; leases that named it then answer as unknown.\<close>

theorem remove_clears_session:
  assumes inv: "registry_inv r"
  shows "abs_registry (remove key r) = (abs_registry r)(key := None) \<and>
    registry_inv (remove key r) \<and>
    (\<forall>i. lease_owner (remove key r) i =
       (if lease_owner r i = Some key then None else lease_owner r i))"
proof -
  have d: "distinct_keys (reg_leases r)" using inv by (simp add: registry_inv_def leases_ok_def)
  have owner: "lease_owner (remove key r) i =
      (if lease_owner r i = Some key then None else lease_owner r i)" for i
    by (simp add: lease_owner_def remove_def drop_gate_def remove_leases_def remove_session_def
        map_of_retain_leases [OF d] split: option.splits)
  have refs: "session_refs (remove key r) = (session_refs r)(key := None)"
    by (simp add: session_refs_def fun_eq_iff remove_def drop_gate_def remove_leases_def
        remove_session_def map_of_delete)
  have "abs_registry (remove key r) = (abs_registry r)(key := None)"
    by (auto simp: abs_registry_def fun_eq_iff owner refs)
  with inv_remove [OF inv] owner show ?thesis by blast
qed

theorem remove_clears_session_witness:
  "abs_registry (remove demo_key demo_registry) = (abs_registry demo_registry)(demo_key := None) \<and>
    registry_inv (remove demo_key demo_registry) \<and>
    (\<forall>i. lease_owner (remove demo_key demo_registry) i =
       (if lease_owner demo_registry i = Some demo_key then None else lease_owner demo_registry i))"
  by (rule remove_clears_session) simp

lemma leases_partition:
  assumes "finite K" and "\<And>i l. (i, l) \<in> set L \<Longrightarrow> lr_key l \<in> K"
  shows "(\<Sum>k\<in>K. leases_on k L) = length L"
  using assms(2)
proof (induction L)
  case Nil
  show ?case by (simp add: leases_on_def)
next
  case (Cons e L)
  obtain i l where e: "e = (i, l)" by (cases e)
  have "leases_on k (e # L) = (if k = lr_key l then 1 else 0) + leases_on k L" for k
    by (auto simp: leases_on_def count_entries_def e)
  then have "(\<Sum>k\<in>K. leases_on k (e # L)) =
      (\<Sum>k\<in>K. if k = lr_key l then 1 else 0) + (\<Sum>k\<in>K. leases_on k L)"
    by (simp add: sum.distrib)
  moreover have "lr_key l \<in> K" using Cons.prems [of i l] e by simp
  moreover have "(\<Sum>k\<in>K. leases_on k L) = length L"
    by (rule Cons.IH) (meson Cons.prems list.set_intros(2))
  ultimately show ?case using assms(1) by (simp add: sum.delta)
qed

lemma snapshot_ref_sum:
  assumes inv: "registry_inv r"
  shows "sum_list (map ss_ref_count (rs_sessions (snapshot now r))) = length (reg_leases r)"
proof -
  let ?S = "reg_sessions r" and ?L = "reg_leases r"
  have d: "distinct (map fst ?S)" "distinct_keys ?L"
    using inv by (simp_all add: registry_inv_def sessions_ok_def leases_ok_def distinct_keys_def)
  have ref: "sr_ref_count rec = leases_on k ?L" if "(k, rec) \<in> set ?S" for k rec
    using that inv by (simp add: session_mem_iff [OF inv]) (simp add: registry_inv_def sessions_ok_def)
  have "map ss_ref_count (rs_sessions (snapshot now r)) = map (\<lambda>k. leases_on k ?L) (map fst ?S)"
    using ref by (auto simp: snapshot_def)
  then have "sum_list (map ss_ref_count (rs_sessions (snapshot now r))) =
      (\<Sum>k\<in>fst ` set ?S. leases_on k ?L)"
    using d(1) by (metis list.set_map sum_list_distinct_conv_sum_set)
  also have "\<dots> = length ?L"
  proof (rule leases_partition)
    fix i l
    assume "(i, l) \<in> set ?L"
    with d(2) have "map_of ?L i = Some l" by (simp add: map_of_eq_Some_iff_mem)
    with lease_session [OF inv] obtain rec where "map_of ?S (lr_key l) = Some rec" by blast
    then have "(lr_key l, rec) \<in> set ?S" by (rule map_of_SomeD)
    then show "lr_key l \<in> fst ` set ?S" by force
  qed simp
  finally show ?thesis .
qed

lemma set_map_filter: "set (List.map_filter f xs) = {y. \<exists>x \<in> set xs. f x = Some y}"
  by (induction xs) (auto simp: List.map_filter_simps split: option.splits)

lemma client_kinds_set:
  assumes "distinct_keys L"
  shows "set (lease_client_kinds k L) =
    {c. \<exists>i l. map_of L i = Some l \<and> lr_key l = k \<and> lr_client_kind l = Some c}"
  using assms by (auto simp: lease_client_kinds_def set_map_filter map_of_eq_Some_iff_mem
      split: if_splits prod.splits)

lemma client_kinds_distinct [simp]: "distinct (lease_client_kinds k L)"
  by (simp add: lease_client_kinds_def)

text \<open>A statistics snapshot is consistent with the leases: the sessions' reference counts add
  up to the lease count, and the client kinds listed for a session are, without repetition, the
  kinds of the clients whose leases it holds.\<close>

theorem snapshot_consistent:
  assumes inv: "registry_inv r"
  shows "sum_list (map ss_ref_count (rs_sessions (snapshot now r))) =
      rs_lease_count (snapshot now r) \<and>
    map ss_key (rs_sessions (snapshot now r)) = map fst (reg_sessions r) \<and>
    list_all (\<lambda>s. distinct (ss_client_kinds s) \<and> set (ss_client_kinds s) =
      {c. \<exists>i l. map_of (reg_leases r) i = Some l \<and> lr_key l = ss_key s \<and>
            lr_client_kind l = Some c}) (rs_sessions (snapshot now r))"
proof -
  have d: "distinct_keys (reg_leases r)" using inv by (simp add: registry_inv_def leases_ok_def)
  have "map ss_key (rs_sessions (snapshot now r)) = map fst (reg_sessions r)"
    using session_rec_facts(1) [OF inv] by (auto simp: snapshot_def session_mem_iff [OF inv])
  moreover have "list_all (\<lambda>s. distinct (ss_client_kinds s) \<and> set (ss_client_kinds s) =
      {c. \<exists>i l. map_of (reg_leases r) i = Some l \<and> lr_key l = ss_key s \<and>
            lr_client_kind l = Some c}) (rs_sessions (snapshot now r))"
    by (simp add: snapshot_def list_all_iff client_kinds_set [OF d] split_beta)
  ultimately show ?thesis using snapshot_ref_sum [OF inv] by (simp add: snapshot_def)
qed

theorem snapshot_consistent_witness:
  "sum_list (map ss_ref_count (rs_sessions (snapshot 10 demo_registry))) =
      rs_lease_count (snapshot 10 demo_registry) \<and>
    map ss_key (rs_sessions (snapshot 10 demo_registry)) = map fst (reg_sessions demo_registry) \<and>
    list_all (\<lambda>s. distinct (ss_client_kinds s) \<and> set (ss_client_kinds s) =
      {c. \<exists>i l. map_of (reg_leases demo_registry) i = Some l \<and> lr_key l = ss_key s \<and>
            lr_client_kind l = Some c}) (rs_sessions (snapshot 10 demo_registry))"
  by (rule snapshot_consistent) simp

end
