(* ===== verification/Lspee_Memory.thy ===== *)
theory Lspee_Memory
  imports Lspee_Registry "HOL-Library.Multiset"
begin

section \<open>Memory budget\<close>

text \<open>
  \<open>crates/lspee_daemon/src/memory.rs\<close>: which sessions one round of the memory monitor evicts.
  \<open>sort_candidates\<close> is an insertion sort by the comparator of the code; the properties show that
  it is the library's stable \<open>sort_key\<close> at a four-part rank. Byte counts are \<open>u64\<close>: the sum of the resident sizes
  is a word sum (it wraps in a release build), \<open>saturating_sub\<close> does not.
\<close>

record memory_budget_settings =
  mb_max_session_bytes :: "u64 option"
  mb_max_total_bytes :: "u64 option"
  mb_check_interval :: duration

definition budget_enabled :: "memory_budget_settings \<Rightarrow> bool" where
  "budget_enabled s = (mb_max_session_bytes s \<noteq> None \<or> mb_max_total_bytes s \<noteq> None)"

record memory_sample =
  sm_key :: session_key
  sm_root :: path
  sm_rss_bytes :: u64
  sm_ref_count :: nat
  sm_idle_for :: duration
  sm_client_kinds :: "client_kind list"
  sm_handle :: session_handle

definition memory_sample_from_snapshot :: "memory_session_snapshot \<Rightarrow> u64 \<Rightarrow> memory_sample" where
  "memory_sample_from_snapshot s rss =
     \<lparr>sm_key = sh_key (mss_handle s), sm_root = sk_root (sh_key (mss_handle s)),
      sm_rss_bytes = rss, sm_ref_count = mss_ref_count s, sm_idle_for = mss_idle_for s,
      sm_client_kinds = mss_client_kinds s, sm_handle = mss_handle s\<rparr>"

text \<open>\<open>rss\<close> is \<open>LspRuntime::rss_bytes\<close>: an error and a missing value both count as zero.\<close>

definition collect_samples ::
  "instant \<Rightarrow> (nat \<Rightarrow> u64 option result) \<Rightarrow> registry \<Rightarrow> memory_sample list" where
  "collect_samples now rss r =
     map (\<lambda>s. memory_sample_from_snapshot s
            (case rss (sh_runtime (mss_handle s)) of
               Inr (Some n) \<Rightarrow> n | _ \<Rightarrow> 0))
         (memory_snapshots now r)"

definition sum_bytes :: "memory_sample list \<Rightarrow> u64" where
  "sum_bytes xs = sum_list (map sm_rss_bytes xs)"

definition total_memory_bytes :: "instant \<Rightarrow> (nat \<Rightarrow> u64 option result) \<Rightarrow> registry \<Rightarrow> u64" where
  "total_memory_bytes now rss r = sum_bytes (collect_samples now rss r)"

subsection \<open>The eviction order\<close>

definition left_editor :: "memory_sample \<Rightarrow> bool" where
  "left_editor s = (Editor \<in> set (sm_client_kinds s))"

text \<open>\<open>std::cmp::Ordering\<close> with \<open>then\<close>, and \<open>Ord::cmp\<close> at a linear order.\<close>

datatype ordering = Less | Equal | Greater

fun then_cmp :: "ordering \<Rightarrow> ordering \<Rightarrow> ordering" where
  "then_cmp Equal c = c"
| "then_cmp Less c = Less"
| "then_cmp Greater c = Greater"

definition cmp :: "'a::linorder \<Rightarrow> 'a \<Rightarrow> ordering" where
  "cmp a b = (if a < b then Less else if b < a then Greater else Equal)"

definition candidate_cmp :: "memory_sample \<Rightarrow> memory_sample \<Rightarrow> ordering" where
  "candidate_cmp l r =
     then_cmp (then_cmp (then_cmp
       (cmp (left_editor l) (left_editor r))
       (cmp (sm_ref_count l > 0) (sm_ref_count r > 0)))
       (cmp (sm_idle_for r) (sm_idle_for l)))
       (cmp (sm_rss_bytes r) (sm_rss_bytes l))"

text \<open>Insertion sort by a comparator, stable as \<open>slice::sort_by\<close> is.\<close>

fun insert_by :: "('a \<Rightarrow> 'a \<Rightarrow> ordering) \<Rightarrow> 'a \<Rightarrow> 'a list \<Rightarrow> 'a list" where
  "insert_by c x [] = [x]"
| "insert_by c x (y # ys) = (if c x y = Greater then y # insert_by c x ys else x # y # ys)"

definition sort_by :: "('a \<Rightarrow> 'a \<Rightarrow> ordering) \<Rightarrow> 'a list \<Rightarrow> 'a list" where
  "sort_by c xs = foldr (insert_by c) xs []"

definition sort_candidates :: "memory_sample list \<Rightarrow> memory_sample list" where
  "sort_candidates xs = sort_by candidate_cmp xs"

subsection \<open>Selecting the sessions to evict\<close>

fun dedupe_loop :: "session_key list \<Rightarrow> memory_sample list \<Rightarrow> memory_sample list" where
  "dedupe_loop seen [] = []"
| "dedupe_loop seen (s # ss) =
     (if sm_key s \<in> set seen then dedupe_loop seen ss
      else s # dedupe_loop (sm_key s # seen) ss)"

definition dedupe_by_key :: "memory_sample list \<Rightarrow> memory_sample list" where
  "dedupe_by_key ss = dedupe_loop [] ss"

definition retain_other :: "memory_sample \<Rightarrow> memory_sample list \<Rightarrow> memory_sample list" where
  "retain_other s remaining = filter (\<lambda>c. sm_key c \<noteq> sm_key s) remaining"

definition saturating_sub :: "u64 \<Rightarrow> u64 \<Rightarrow> u64" where
  "saturating_sub a b = (if b \<le> a then a - b else 0)"

text \<open>The loop over a snapshot of the sorted candidates: (total, selected) when it ends.\<close>

fun evict_until :: "u64 \<Rightarrow> u64 \<Rightarrow> memory_sample list \<Rightarrow> memory_sample list" where
  "evict_until max_total bytes [] = []"
| "evict_until max_total bytes (s # ss) =
     (if bytes \<le> max_total then []
      else s # evict_until max_total (saturating_sub bytes (sm_rss_bytes s)) ss)"

definition over_session_limit ::
  "memory_budget_settings \<Rightarrow> memory_sample list \<Rightarrow> memory_sample list" where
  "over_session_limit settings samples =
     (case mb_max_session_bytes settings of
        None \<Rightarrow> []
      | Some m \<Rightarrow> sort_candidates (filter (\<lambda>s. sm_rss_bytes s > m) samples))"

definition over_total_limit ::
  "memory_budget_settings \<Rightarrow> memory_sample list \<Rightarrow> memory_sample list" where
  "over_total_limit settings remaining =
     (case mb_max_total_bytes settings of
        None \<Rightarrow> []
      | Some m \<Rightarrow>
          (if sum_bytes remaining > m
           then evict_until m (sum_bytes remaining) (sort_candidates remaining) else []))"

definition select_evictions ::
  "memory_sample list \<Rightarrow> memory_budget_settings \<Rightarrow> memory_sample list" where
  "select_evictions samples settings =
     (let over_limit = over_session_limit settings samples;
          remaining = fold retain_other over_limit samples
      in dedupe_by_key (over_limit @ over_total_limit settings remaining))"

subsection \<open>Evicting a session\<close>

text \<open>The JSON of a \<open>PathBuf\<close> is its display form.\<close>

definition ju64_opt :: "u64 option \<Rightarrow> json" where
  "ju64_opt x = (case x of None \<Rightarrow> JNull | Some n \<Rightarrow> ju64 n)"

definition eviction_notice ::
  "memory_sample \<Rightarrow> memory_budget_settings \<Rightarrow> stream_error_payload" where
  "eviction_notice s settings =
     \<lparr>sep_code = ERROR_SESSION_EVICTED_MEMORY,
      sep_message = ''Session evicted due to memory budget pressure (rss='' @
        nat_str (unat (sm_rss_bytes s)) @
        '' bytes). Re-attach or retry the request to resume.'',
      sep_retryable = True,
      sep_details = Some (jobj
        [(''project_root'', JStr (path_display (sm_root s))),
         (''lsp_id'', JStr (sk_lsp_id (sm_key s))),
         (''rss_bytes'', ju64 (sm_rss_bytes s)),
         (''max_session_bytes'', ju64_opt (mb_max_session_bytes settings)),
         (''max_total_bytes'', ju64_opt (mb_max_total_bytes settings)),
         (''resume_hint'', JStr (''Re-attach or retry the request. For Helix, restart the '' @
            ''language server if it does not reconnect automatically.'')),
         (''eviction_policy'', JStr ''idle_lru'')])\<rparr>"

text \<open>What a round does outside the registry, in order.\<close>

datatype evict_effect =
    SendEvent nat stream_error_payload
  | Shutdown nat
  | ForceStop nat

text \<open>
  \<open>shutdown\<close> says whether the graceful shutdown of a runtime works; whether the forced stop
  does, the code only logs.
\<close>

definition stop_runtime :: "(nat \<Rightarrow> unit result) \<Rightarrow> nat \<Rightarrow> evict_effect list" where
  "stop_runtime shutdown rt =
     (case shutdown rt of Inr _ \<Rightarrow> [Shutdown rt] | Inl _ \<Rightarrow> [Shutdown rt, ForceStop rt])"

definition evict_session ::
  "(nat \<Rightarrow> unit result) \<Rightarrow> memory_sample \<Rightarrow> memory_budget_settings \<Rightarrow> registry
     \<Rightarrow> registry \<times> evict_effect list" where
  "evict_session shutdown s settings r =
     (let notice = eviction_notice s settings;
          r1 = mark_terminating_with_notice (sm_key s) (Some notice) r;
          rt = sh_runtime (sm_handle s)
      in (increment_memory_eviction (remove (sm_key s) r1),
          SendEvent rt notice # stop_runtime shutdown rt))"

fun evict_all ::
  "(nat \<Rightarrow> unit result) \<Rightarrow> memory_budget_settings \<Rightarrow> memory_sample list \<Rightarrow> registry
     \<Rightarrow> registry \<times> evict_effect list" where
  "evict_all shutdown settings [] r = (r, [])"
| "evict_all shutdown settings (s # ss) r =
     (let (r1, es1) = evict_session shutdown s settings r;
          (r2, es2) = evict_all shutdown settings ss r1
      in (r2, es1 @ es2))"

text \<open>One tick of the monitor.\<close>

definition memory_tick ::
  "instant \<Rightarrow> (nat \<Rightarrow> u64 option result) \<Rightarrow> (nat \<Rightarrow> unit result) \<Rightarrow> memory_budget_settings
     \<Rightarrow> registry \<Rightarrow> registry \<times> evict_effect list" where
  "memory_tick now rss shutdown settings r =
     (if budget_enabled settings
      then evict_all shutdown settings
             (select_evictions (collect_samples now rss r) settings) r
      else (r, []))"

subsection \<open>The comparator is a linear order on ranks\<close>

datatype eviction_rank = Rank (rank_editor: bool) (rank_leased: bool) (rank_idle: nat) (rank_rss: u64)

fun rank_of :: "memory_sample \<Rightarrow> eviction_rank" where
  "rank_of s = Rank (left_editor s) (sm_ref_count s > 0) (sm_idle_for s) (sm_rss_bytes s)"

declare rank_of.simps [simp del]

text \<open>Non-editors first, then unleased, then longest idle, then largest.\<close>

instantiation eviction_rank :: linorder
begin

fun less_eq_eviction_rank :: "eviction_rank \<Rightarrow> eviction_rank \<Rightarrow> bool" where
  "less_eq_eviction_rank (Rank e l i b) (Rank e' l' i' b') =
     (e < e' \<or> e = e' \<and> (l < l' \<or> l = l' \<and> (i > i' \<or> i = i' \<and> b \<ge> b')))"

definition less_eviction_rank :: "eviction_rank \<Rightarrow> eviction_rank \<Rightarrow> bool" where
  "less_eviction_rank a b = (a \<le> b \<and> \<not> b \<le> a)"

instance
proof
  fix x y z :: eviction_rank
  show "(x < y) = (x \<le> y \<and> \<not> y \<le> x)" by (rule less_eviction_rank_def)
  show "x \<le> x" by (cases x) simp
  show "x \<le> y \<Longrightarrow> y \<le> z \<Longrightarrow> x \<le> z" by (cases x; cases y; cases z) auto
  show "x \<le> y \<Longrightarrow> y \<le> x \<Longrightarrow> x = y" by (cases x; cases y) auto
  show "x \<le> y \<or> y \<le> x" by (cases x; cases y) auto
qed

end

lemma candidate_cmp_rank: "candidate_cmp l r = cmp (rank_of l) (rank_of r)"
  by (auto simp: candidate_cmp_def cmp_def rank_of.simps less_eviction_rank_def)

lemma insert_by_insort_key: "insert_by candidate_cmp x ys = insort_key rank_of x ys"
  by (induction ys) (auto simp: candidate_cmp_rank cmp_def)

lemma sort_candidates_sort_key: "sort_candidates xs = sort_key rank_of xs"
  unfolding sort_candidates_def sort_by_def sort_key_def
  by (induction xs) (simp_all add: insert_by_insort_key)

lemma set_sort_candidates [simp]: "set (sort_candidates xs) = set xs"
  by (simp add: sort_candidates_sort_key)

lemma length_sort_candidates [simp]: "length (sort_candidates xs) = length xs"
  by (simp add: sort_candidates_sort_key)

subsection \<open>Sums without overflow\<close>

definition bytes_of :: "memory_sample list \<Rightarrow> nat" where
  "bytes_of xs = sum_list (map (\<lambda>s. unat (sm_rss_bytes s)) xs)"

lemma bytes_of_simps [simp]:
  "bytes_of [] = 0" "bytes_of (x # xs) = unat (sm_rss_bytes x) + bytes_of xs"
  "bytes_of (xs @ ys) = bytes_of xs + bytes_of ys"
  by (simp_all add: bytes_of_def)

lemma bytes_of_filter: "bytes_of (filter P xs) \<le> bytes_of xs"
  by (induction xs) auto

lemma bytes_of_sort [simp]: "bytes_of (sort_candidates xs) = bytes_of xs"
  unfolding bytes_of_def sort_candidates_sort_key
  by (metis (no_types, lifting) mset_map mset_sort sum_mset_sum_list)

lemma sum_bytes_sort [simp]: "sum_bytes (sort_candidates xs) = sum_bytes xs"
  unfolding sum_bytes_def sort_candidates_sort_key
  by (metis (no_types, lifting) mset_map mset_sort sum_mset_sum_list)

lemma unat_sum_bytes: "bytes_of xs < 2 ^ 64 \<Longrightarrow> unat (sum_bytes xs) = bytes_of xs"
  by (induction xs) (simp_all add: sum_bytes_def unat_word_ariths(1))

lemma sum_bytes_Cons [simp]: "sum_bytes (x # xs) = sm_rss_bytes x + sum_bytes xs"
  by (simp add: sum_bytes_def)

subsection \<open>The selection loop\<close>

text \<open>The loop evicts the shortest prefix that brings the rest within the limit.\<close>

lemma evict_until_prefix:
  assumes "bytes_of xs < 2 ^ 64"
  shows "\<exists>n \<le> length xs. evict_until m (sum_bytes xs) xs = take n xs \<and>
    bytes_of (drop n xs) \<le> unat m \<and> (\<forall>j < n. unat m < bytes_of (drop j xs))"
  using assms
proof (induction xs)
  case Nil
  then show ?case by simp
next
  case (Cons x xs)
  show ?case
  proof (cases "sum_bytes (x # xs) \<le> m")
    case True
    with unat_sum_bytes [OF Cons.prems] show ?thesis
      by (intro exI [of _ 0]) (simp add: word_le_nat_alt)
  next
    case False
    from Cons.prems have xs: "bytes_of xs < 2 ^ 64" by simp
    have "unat (sm_rss_bytes x) \<le> unat (sum_bytes (x # xs))"
      using unat_sum_bytes [OF Cons.prems] by simp
    then have sub: "saturating_sub (sum_bytes (x # xs)) (sm_rss_bytes x) = sum_bytes xs"
      by (simp add: saturating_sub_def word_le_nat_alt)
    from Cons.IH [OF xs] obtain n where n: "n \<le> length xs"
      "evict_until m (sum_bytes xs) xs = take n xs" "bytes_of (drop n xs) \<le> unat m"
      "\<forall>j < n. unat m < bytes_of (drop j xs)" by blast
    have "unat m < bytes_of (x # xs)"
      using False unat_sum_bytes [OF Cons.prems] by (simp add: word_le_nat_alt)
    moreover have "unat m < bytes_of (drop j (x # xs))" if "j < Suc n" for j
      using that n(4) calculation by (cases j) simp_all
    moreover have "evict_until m (sum_bytes (x # xs)) (x # xs) = x # take n xs"
      using False sub n(2) by (simp del: sum_bytes_Cons)
    ultimately show ?thesis
      using n(1,3) by (intro exI [of _ "Suc n"]) simp
  qed
qed

lemma fold_retain_other:
  "fold retain_other ol xs = filter (\<lambda>c. sm_key c \<notin> sm_key ` set ol) xs"
  by (induction ol arbitrary: xs) (auto simp: retain_other_def intro!: filter_cong)

lemma dedupe_loop_distinct:
  "distinct (map sm_key ss) \<Longrightarrow> sm_key ` set ss \<inter> set seen = {} \<Longrightarrow> dedupe_loop seen ss = ss"
  by (induction seen ss rule: dedupe_loop.induct) auto

lemma dedupe_loop_facts:
  "set (dedupe_loop seen ss) \<subseteq> set ss"
  "distinct (map sm_key (dedupe_loop seen ss))"
  "sm_key ` set (dedupe_loop seen ss) \<inter> set seen = {}"
  by (induction seen ss rule: dedupe_loop.induct) auto

text \<open>What is left after the first phase, when the samples have distinct keys.\<close>

definition within_session_limit ::
  "memory_budget_settings \<Rightarrow> memory_sample list \<Rightarrow> memory_sample list" where
  "within_session_limit settings samples =
     (case mb_max_session_bytes settings of
        None \<Rightarrow> samples
      | Some m \<Rightarrow> filter (\<lambda>s. sm_rss_bytes s \<le> m) samples)"

lemma key_inj:
  "distinct (map sm_key xs) \<Longrightarrow> x \<in> set xs \<Longrightarrow> y \<in> set xs \<Longrightarrow> sm_key x = sm_key y \<Longrightarrow> x = y"
  by (simp add: distinct_map inj_on_def)

lemma remaining_within:
  assumes "distinct (map sm_key samples)"
  shows "fold retain_other (over_session_limit settings samples) samples =
    within_session_limit settings samples"
proof (cases "mb_max_session_bytes settings")
  case None
  then show ?thesis
    by (simp add: over_session_limit_def within_session_limit_def)
next
  case (Some m)
  have "(sm_key c \<notin> sm_key ` {s \<in> set samples. m < sm_rss_bytes s}) = (sm_rss_bytes c \<le> m)"
    if "c \<in> set samples" for c
    using that by (auto dest: key_inj [OF assms that])
  with Some show ?thesis
    by (auto simp: fold_retain_other over_session_limit_def within_session_limit_def
        intro!: filter_cong)
qed

lemma distinct_sort_candidates [simp]:
  "distinct (map sm_key (sort_candidates xs)) = distinct (map sm_key xs)"
  unfolding sort_candidates_sort_key
  by (metis (no_types, lifting) mset_map mset_sort mset_eq_imp_distinct_iff)

lemma over_set: "set (over_session_limit settings samples) =
    {s \<in> set samples. \<exists>m. mb_max_session_bytes settings = Some m \<and> m < sm_rss_bytes s}"
  by (cases "mb_max_session_bytes settings") (auto simp: over_session_limit_def)

lemma within_set: "set (within_session_limit settings samples) =
    {s \<in> set samples. \<forall>m. mb_max_session_bytes settings = Some m \<longrightarrow> sm_rss_bytes s \<le> m}"
  by (cases "mb_max_session_bytes settings") (auto simp: within_session_limit_def)

lemma distinct_over: "distinct (map sm_key samples) \<Longrightarrow>
    distinct (map sm_key (over_session_limit settings samples))"
  by (simp add: over_session_limit_def distinct_map_filter split: option.splits)

lemma distinct_within: "distinct (map sm_key samples) \<Longrightarrow>
    distinct (map sm_key (within_session_limit settings samples))"
  by (simp add: within_session_limit_def distinct_map_filter split: option.splits)

lemma bytes_within: "bytes_of (within_session_limit settings samples) \<le> bytes_of samples"
  by (simp add: within_session_limit_def bytes_of_filter split: option.splits)

text \<open>The number of sessions the second phase takes from the sorted rest.\<close>

definition enough_for_total :: "memory_budget_settings \<Rightarrow> memory_sample list \<Rightarrow> nat \<Rightarrow> bool" where
  "enough_for_total settings order n =
     (case mb_max_total_bytes settings of
        None \<Rightarrow> n = 0
      | Some m \<Rightarrow> bytes_of (drop n order) \<le> unat m \<and> (\<forall>j < n. unat m < bytes_of (drop j order)))"

lemma over_total_limit_prefix:
  assumes "bytes_of rest < 2 ^ 64"
  shows "\<exists>n \<le> length rest. over_total_limit settings rest = take n (sort_candidates rest) \<and>
    enough_for_total settings (sort_candidates rest) n"
proof (cases "mb_max_total_bytes settings")
  case None
  then show ?thesis by (intro exI [of _ 0]) (simp add: over_total_limit_def enough_for_total_def)
next
  case (Some m)
  show ?thesis
  proof (cases "sum_bytes rest > m")
    case True
    with Some evict_until_prefix [of "sort_candidates rest" m] assms show ?thesis
      by (auto simp: over_total_limit_def enough_for_total_def)
  next
    case False
    with Some unat_sum_bytes [OF assms] show ?thesis
      by (intro exI [of _ 0])
        (auto simp: over_total_limit_def enough_for_total_def word_less_nat_alt)
  qed
qed

lemma take_keys_disjoint:
  assumes "distinct (map sm_key samples)"
  shows "sm_key ` set (over_session_limit settings samples) \<inter>
    sm_key ` set (within_session_limit settings samples) = {}"
proof -
  have "sm_key a \<noteq> sm_key b"
    if "a \<in> set (over_session_limit settings samples)" "b \<in> set (within_session_limit settings samples)"
    for a b
    using that key_inj [OF assms, of a b] by (auto simp: over_set within_set not_le [symmetric])
  then show ?thesis by blast
qed

lemma select_evictions_shape:
  assumes d: "distinct (map sm_key samples)" and fit: "bytes_of samples < 2 ^ 64"
  shows "\<exists>n \<le> length (within_session_limit settings samples).
    select_evictions samples settings = over_session_limit settings samples @
      take n (sort_candidates (within_session_limit settings samples)) \<and>
    enough_for_total settings (sort_candidates (within_session_limit settings samples)) n"
proof -
  let ?o = "over_session_limit settings samples" and ?w = "within_session_limit settings samples"
  have "bytes_of ?w < 2 ^ 64" using bytes_within [of settings samples] fit by simp
  from over_total_limit_prefix [OF this, of settings] obtain n where n: "n \<le> length ?w"
    "over_total_limit settings ?w = take n (sort_candidates ?w)"
    "enough_for_total settings (sort_candidates ?w) n" by blast
  have "set (take n (sort_candidates ?w)) \<subseteq> set ?w"
    using set_take_subset [of n "sort_candidates ?w"] by simp
  then have "sm_key ` set ?o \<inter> sm_key ` set (take n (sort_candidates ?w)) = {}"
    using take_keys_disjoint [OF d, of settings] by blast
  moreover have "distinct (map sm_key (take n (sort_candidates ?w)))"
    using distinct_within [OF d, of settings]
    by (simp add: take_map [symmetric] distinct_take)
  ultimately have "distinct (map sm_key (?o @ take n (sort_candidates ?w)))"
    using distinct_over [OF d, of settings] by auto
  then have "dedupe_by_key (?o @ take n (sort_candidates ?w)) = ?o @ take n (sort_candidates ?w)"
    unfolding dedupe_by_key_def by (rule dedupe_loop_distinct) simp
  with n show ?thesis by (auto simp: select_evictions_def Let_def remaining_within [OF d])
qed

subsection \<open>Properties\<close>

text \<open>C23: the candidate sort is the stable sort by rank: sessions without an editor first, then
  sessions without a lease, then the longest idle, then the largest; equal ranks keep their
  order.\<close>

theorem sort_candidates_reference:
  "sort_candidates xs = sort_key rank_of xs \<and> mset (sort_candidates xs) = mset xs \<and>
   sorted (map rank_of (sort_candidates xs)) \<and>
   filter (\<lambda>s. rank_of s = rank) (sort_candidates xs) = filter (\<lambda>s. rank_of s = rank) xs"
  by (simp add: sort_candidates_sort_key sort_key_stable)

text \<open>Whatever the samples, the selection only names sampled sessions, names each once, and names
  none when every session and the total are within their limits.\<close>

theorem select_evictions_sound:
  "set (select_evictions samples settings) \<subseteq> set samples \<and>
   distinct (map sm_key (select_evictions samples settings)) \<and>
   ((\<forall>s \<in> set samples. \<forall>m. mb_max_session_bytes settings = Some m \<longrightarrow> sm_rss_bytes s \<le> m) \<and>
    (\<forall>m. mb_max_total_bytes settings = Some m \<longrightarrow> sum_bytes samples \<le> m) \<longrightarrow>
      select_evictions samples settings = [])"
proof -
  have "set (evict_until m b xs) \<subseteq> set xs" for m b xs
    by (induction m b xs rule: evict_until.induct) auto
  then have tot: "set (over_total_limit settings xs) \<subseteq> set xs" for xs
    by (auto simp: over_total_limit_def split: option.splits if_splits)
       (metis set_sort_candidates subsetD)
  have rem: "set (fold retain_other ol samples) \<subseteq> set samples" for ol
    by (auto simp: fold_retain_other)
  let ?o = "over_session_limit settings samples"
  have "set (select_evictions samples settings) \<subseteq>
      set (?o @ over_total_limit settings (fold retain_other ?o samples))"
    unfolding select_evictions_def Let_def dedupe_by_key_def by (rule dedupe_loop_facts(1))
  also have "\<dots> \<subseteq> set samples"
    using subset_trans [OF tot rem [of ?o]] by (simp add: over_set)
  finally have "set (select_evictions samples settings) \<subseteq> set samples" .
  moreover have "distinct (map sm_key (select_evictions samples settings))"
    by (simp add: select_evictions_def Let_def dedupe_by_key_def dedupe_loop_facts)
  moreover have "select_evictions samples settings = []"
    if "\<forall>s \<in> set samples. \<forall>m. mb_max_session_bytes settings = Some m \<longrightarrow> sm_rss_bytes s \<le> m"
      "\<forall>m. mb_max_total_bytes settings = Some m \<longrightarrow> sum_bytes samples \<le> m"
  proof -
    have "set (over_session_limit settings samples) = {}" using that(1) by (auto simp: over_set)
    then have "over_session_limit settings samples = []" by simp
    with that(2) show ?thesis
      by (auto simp: select_evictions_def dedupe_by_key_def over_total_limit_def split: option.splits)
  qed
  ultimately show ?thesis by blast
qed

lemma bytes_of_set:
  "distinct (map sm_key xs) \<Longrightarrow> bytes_of xs = (\<Sum>s \<in> set xs. unat (sm_rss_bytes s))"
  unfolding bytes_of_def by (rule sum_list_distinct_conv_sum_set) (simp add: distinct_map)

lemma distinct_take_drop:
  assumes "distinct xs" shows "set (take n xs) \<inter> set (drop n xs) = {}"
  using assms by (metis append_take_drop_id distinct_append)

lemma sorted_take_drop:
  assumes "sorted (map f xs)" "a \<in> set (take n xs)" "b \<in> set (drop n xs)"
  shows "f a \<le> f b"
proof -
  have "sorted (map f (take n xs) @ map f (drop n xs))"
    using assms(1) by (metis append_take_drop_id map_append)
  with assms(2,3) show ?thesis by (auto simp: sorted_append)
qed

lemma unselected_set:
  assumes d: "distinct (map sm_key samples)"
    and sel: "select_evictions samples settings = over_session_limit settings samples @
      take n (sort_candidates (within_session_limit settings samples))"
  shows "set samples - set (select_evictions samples settings) =
    set (drop n (sort_candidates (within_session_limit settings samples)))"
proof -
  let ?w = "sort_candidates (within_session_limit settings samples)"
  have "distinct (map sm_key ?w)" using distinct_within [OF d] by simp
  then have "distinct ?w" by (simp add: distinct_map)
  then have td: "set (take n ?w) \<inter> set (drop n ?w) = {}" by (rule distinct_take_drop)
  have w: "set (take n ?w) \<union> set (drop n ?w) = set (within_session_limit settings samples)"
    by (metis append_take_drop_id set_append set_sort_candidates)
  have "set samples = set (over_session_limit settings samples) \<union>
      set (within_session_limit settings samples)"
    by (auto simp: over_set within_set not_le [symmetric])
  moreover have "set (over_session_limit settings samples) \<inter>
      set (within_session_limit settings samples) = {}"
    using take_keys_disjoint [OF d, of settings] by blast
  ultimately show ?thesis using td w unfolding sel set_append by blast
qed

text \<open>C21: for samples of distinct sessions whose sizes add up without overflow, the selection is
  exactly the over-limit sessions in candidate order, then the shortest prefix of the sorted rest
  that brings what stays within the total limit.\<close>

theorem select_evictions_exact:
  assumes "distinct (map sm_key samples)" and "bytes_of samples < 2 ^ 64"
  shows "\<exists>n \<le> length (within_session_limit settings samples).
    select_evictions samples settings = over_session_limit settings samples @
      take n (sort_candidates (within_session_limit settings samples)) \<and>
    (case mb_max_total_bytes settings of
       None \<Rightarrow> n = 0
     | Some m \<Rightarrow>
         bytes_of (drop n (sort_candidates (within_session_limit settings samples))) \<le> unat m \<and>
         (\<forall>j < n. unat m <
            bytes_of (drop j (sort_candidates (within_session_limit settings samples)))))"
  using select_evictions_shape [OF assms] unfolding enough_for_total_def .

text \<open>C22: after the selection is evicted the limits hold: every session over the per-session limit
  is selected and the others add up to at most the total limit. A session an editor is attached
  to is taken for the total only after every session without an editor.\<close>

theorem select_evictions_budget:
  assumes d: "distinct (map sm_key samples)" and fit: "bytes_of samples < 2 ^ 64"
  shows "(\<forall>s \<in> set samples. \<forall>m. mb_max_session_bytes settings = Some m \<and> m < sm_rss_bytes s \<longrightarrow>
        s \<in> set (select_evictions samples settings)) \<and>
    (\<forall>m. mb_max_total_bytes settings = Some m \<longrightarrow>
        bytes_of (filter (\<lambda>s. s \<notin> set (select_evictions samples settings)) samples) \<le> unat m) \<and>
    (\<forall>e \<in> set (select_evictions samples settings). \<forall>s \<in> set samples.
        e \<in> set (within_session_limit settings samples) \<and> left_editor e \<and> \<not> left_editor s \<longrightarrow>
        s \<in> set (select_evictions samples settings))"
proof -
  let ?sel = "select_evictions samples settings"
  let ?w = "sort_candidates (within_session_limit settings samples)"
  from select_evictions_shape [OF d fit, of settings] obtain n where
    sel: "?sel = over_session_limit settings samples @ take n ?w"
    and n: "enough_for_total settings ?w n" by blast
  note un = unselected_set [OF d sel]
  have dw: "distinct (map sm_key ?w)" using distinct_within [OF d] by simp
  have over: "\<forall>s \<in> set samples. \<forall>m. mb_max_session_bytes settings = Some m \<and> m < sm_rss_bytes s \<longrightarrow>
        s \<in> set ?sel"
    by (auto simp: sel over_set)
  have "bytes_of (filter (\<lambda>s. s \<notin> set ?sel) samples) = bytes_of (drop n ?w)"
  proof -
    have "distinct (map sm_key (filter (\<lambda>s. s \<notin> set ?sel) samples))"
      using d by (rule distinct_map_filter)
    moreover have "distinct (map sm_key (drop n ?w))"
      using dw by (simp add: drop_map [symmetric] distinct_drop)
    moreover have "set (filter (\<lambda>s. s \<notin> set ?sel) samples) = set (drop n ?w)"
      using un by auto
    ultimately show ?thesis by (simp add: bytes_of_set)
  qed
  then have budget: "\<forall>m. mb_max_total_bytes settings = Some m \<longrightarrow>
      bytes_of (filter (\<lambda>s. s \<notin> set ?sel) samples) \<le> unat m"
    using n by (auto simp: enough_for_total_def)
  have "s \<in> set ?sel"
    if e: "e \<in> set ?sel" "e \<in> set (within_session_limit settings samples)" "left_editor e"
      and s: "s \<in> set samples" "\<not> left_editor s" for e s
  proof (rule ccontr)
    assume "s \<notin> set ?sel"
    with un s have drop: "s \<in> set (drop n ?w)" by blast
    have "e \<notin> set (over_session_limit settings samples)"
      using e(2) take_keys_disjoint [OF d, of settings] by blast
    with e sel have take: "e \<in> set (take n ?w)" by simp
    have "sorted (map rank_of ?w)" by (simp add: sort_candidates_sort_key)
    from sorted_take_drop [OF this take drop] e(3) s(2) show False
      by (simp add: rank_of.simps)
  qed
  with over budget show ?thesis by blast
qed

text \<open>Two idle agents and an editor, for the concrete instances.\<close>

definition demo_sample :: "string \<Rightarrow> u64 \<Rightarrow> duration \<Rightarrow> client_kind \<Rightarrow> memory_sample" where
  "demo_sample name rss idle kind =
     \<lparr>sm_key = session_key_new [''/'', name] name ''h'', sm_root = [''/'', name], sm_rss_bytes = rss,
      sm_ref_count = 0, sm_idle_for = idle, sm_client_kinds = [kind],
      sm_handle = \<lparr>sh_key = session_key_new [''/'', name] name ''h'', sh_runtime = 0,
        sh_initialize_result = JNull\<rparr>\<rparr>"

definition demo_samples :: "memory_sample list" where
  "demo_samples = [demo_sample ''editor'' 800 90 Editor, demo_sample ''new'' 600 10 Agent,
     demo_sample ''old'' 600 200 Agent]"

definition demo_budget :: memory_budget_settings where
  "demo_budget = \<lparr>mb_max_session_bytes = None, mb_max_total_bytes = Some 1000, mb_check_interval = 1\<rparr>"

lemma demo_samples_ok:
  "distinct (map sm_key demo_samples)" "bytes_of demo_samples < 2 ^ 64"
  by (simp_all add: demo_samples_def demo_sample_def session_key_new_def)

lemma demo_selection:
  "map (sk_lsp_id \<circ> sm_key) (select_evictions demo_samples demo_budget) = [''old'', ''new'']"
  by code_simp

theorem select_evictions_sound_witness:
  "set (select_evictions demo_samples demo_budget) \<subseteq> set demo_samples \<and>
   distinct (map sm_key (select_evictions demo_samples demo_budget)) \<and>
   select_evictions demo_samples (demo_budget\<lparr>mb_max_total_bytes := None\<rparr>) = []"
  using select_evictions_sound [of demo_samples demo_budget]
    select_evictions_sound [of demo_samples "demo_budget\<lparr>mb_max_total_bytes := None\<rparr>"]
  by (simp add: demo_budget_def)

theorem select_evictions_exact_witness:
  "\<exists>n \<le> length (within_session_limit demo_budget demo_samples).
    select_evictions demo_samples demo_budget = over_session_limit demo_budget demo_samples @
      take n (sort_candidates (within_session_limit demo_budget demo_samples)) \<and>
    (case mb_max_total_bytes demo_budget of
       None \<Rightarrow> n = 0
     | Some m \<Rightarrow>
         bytes_of (drop n (sort_candidates (within_session_limit demo_budget demo_samples))) \<le> unat m \<and>
         (\<forall>j < n. unat m <
            bytes_of (drop j (sort_candidates (within_session_limit demo_budget demo_samples)))))"
  by (rule select_evictions_exact [OF demo_samples_ok])

theorem select_evictions_budget_witness:
  "bytes_of (filter (\<lambda>s. s \<notin> set (select_evictions demo_samples demo_budget)) demo_samples) \<le> 1000"
  using select_evictions_budget [OF demo_samples_ok, of demo_budget] by (simp add: demo_budget_def)

end
