(* ===== verification/Lspee_Registry_Conc.thy ===== *)
theory Lspee_Registry_Conc
  imports Lspee_Memory
begin

section \<open>Concurrent tasks on the registry\<close>

text \<open>
  The registry as its tasks interleave. A task is a program counter of
  \<open>SessionRegistry::acquire_or_spawn\<close>, \<open>release_by_lease_id\<close>, one round of the idle eviction of
  \<open>eviction.rs\<close>, or one round of the memory monitor of \<open>memory.rs\<close> from its selection on, with the
  locals alive there; a step runs one atomic section of \<open>Lspee_Registry\<close>. The selection is made on
  samples that are out of date by then, so a round may start with any. \<open>try_reuse\<close> and \<open>install\<close> hold the session lock until the lease is in,
  so each is one section. The environment chooses which task runs, the clock and the outcome of a
  spawn. Child processes are numbered; \<open>w_alive\<close> are those the daemon has started and not
  stopped.

  The lemmas give the gate protocol (one spawner per gate, no lost wakeup, no deadlock) and the
  reference counts of runs without removals; the schedules at the end are runs the source admits
  in which a session gets two processes, or loses a lease while its count stays.
\<close>

subsection \<open>Tasks and steps\<close>

datatype task =
    AqStart session_key "client_kind option"
  | AqEnter session_key "client_kind option"
  | AqLoop session_key "client_kind option" nat
  | AqGate session_key "client_kind option" nat
  | AqSpawn session_key "client_kind option" nat
  | AqFinish session_key "client_kind option" nat "session_handle result"
  | AqInstall session_key "client_kind option" session_handle
  | AqDropGate session_key string
  | AqWait session_key "client_kind option" nat nat
  | AqDone "lease result"
  | RlStart string
  | RlDrop session_key
  | RlDone "nat option"
  | EvScan
  | EvNext "session_handle list"
  | EvRemove session_key "session_handle list"
  | EvLeases session_key "session_handle list"
  | EvGates session_key "session_handle list"
  | EvDone
  | MvNext memory_budget_settings "memory_sample list"
  | MvStop memory_budget_settings memory_sample "memory_sample list"
  | MvRemove memory_budget_settings session_key "memory_sample list"
  | MvLeases memory_budget_settings session_key "memory_sample list"
  | MvGates memory_budget_settings session_key "memory_sample list"
  | MvDone

record world =
  w_reg :: registry
  w_tasks :: "task list"
  w_next :: nat
  w_alive :: "nat list"

definition on_reg :: "(registry \<Rightarrow> registry) \<Rightarrow> world \<Rightarrow> world" where
  "on_reg f w = w\<lparr>w_reg := f (w_reg w)\<rparr>"

text \<open>
  One section of a task. The environment's choice is the clock and, for a spawn, its outcome: the
  initialize answer or the error. \<open>None\<close>: the task is finished, or waits.
\<close>

fun task_step :: "instant \<Rightarrow> json result \<Rightarrow> task \<Rightarrow> world \<Rightarrow> (task \<times> world) option" where
  "task_step now out (AqStart key ck) w = Some (AqEnter key ck, on_reg count_attach w)"
| "task_step now out (AqEnter key ck) w =
     (let (g, r) = gate_for key (w_reg w) in Some (AqLoop key ck g, w\<lparr>w_reg := r\<rparr>))"
| "task_step now out (AqLoop key ck g) w =
     (case try_reuse now key ck (w_reg w) of
        Some (l, r) \<Rightarrow> Some (AqDone (Inr l), w\<lparr>w_reg := r\<rparr>)
      | None \<Rightarrow> Some (AqGate key ck g, w))"
| "task_step now out (AqGate key ck g) w =
     (case enter_gate g (w_reg w) of
        (WaitForSpawn n, r) \<Rightarrow> Some (AqWait key ck g n, w\<lparr>w_reg := r\<rparr>)
      | (ShouldSpawn, r) \<Rightarrow> Some (AqSpawn key ck g, w\<lparr>w_reg := r\<rparr>))"
| "task_step now out (AqSpawn key ck g) w =
     (case out of
        Inl e \<Rightarrow> Some (AqFinish key ck g (Inl e), w)
      | Inr init \<Rightarrow>
          Some (AqFinish key ck g
                  (Inr \<lparr>sh_key = key, sh_runtime = w_next w, sh_initialize_result = init\<rparr>),
                w\<lparr>w_next := w_next w + 1, w_alive := w_next w # w_alive w\<rparr>))"
| "task_step now out (AqFinish key ck g res) w =
     Some (case res of Inr h \<Rightarrow> AqInstall key ck h | Inl e \<Rightarrow> AqDropGate key e,
           on_reg (finish_spawn g) w)"
| "task_step now out (AqInstall key ck h) w =
     (let (l, r) = install now key ck h (w_reg w) in Some (AqDone (Inr l), w\<lparr>w_reg := r\<rparr>))"
| "task_step now out (AqDropGate key e) w = Some (AqDone (Inl e), on_reg (drop_gate key) w)"
| "task_step now out (AqWait key ck g n) w =
     (if sg_notify (reg_gate_heap (w_reg w) ! g) = n then None else Some (AqLoop key ck g, w))"
| "task_step now out (AqDone res) w = None"
| "task_step now out (RlStart i) w =
     (case take_lease i (w_reg w) of
        None \<Rightarrow> Some (RlDone None, w)
      | Some (key, r) \<Rightarrow> Some (RlDrop key, w\<lparr>w_reg := r\<rparr>))"
| "task_step now out (RlDrop key) w =
     (let (n, r) = drop_ref now key (w_reg w) in Some (RlDone (Some n), w\<lparr>w_reg := r\<rparr>))"
| "task_step now out (RlDone n) w = None"
| "task_step now out EvScan w =
     (let (hs, r) = idle_candidates now (w_reg w) in Some (EvNext hs, w\<lparr>w_reg := r\<rparr>))"
| "task_step now out (EvNext []) w = Some (EvDone, w)"
| "task_step now out (EvNext (h # hs)) w =
     Some (EvRemove (sh_key h) hs, w\<lparr>w_alive := List.remove1 (sh_runtime h) (w_alive w)\<rparr>)"
| "task_step now out (EvRemove key hs) w = Some (EvLeases key hs, on_reg (remove_session key) w)"
| "task_step now out (EvLeases key hs) w = Some (EvGates key hs, on_reg (remove_leases key) w)"
| "task_step now out (EvGates key hs) w =
     Some (EvNext hs, on_reg (increment_idle_gc \<circ> drop_gate key) w)"
| "task_step now out EvDone w = None"
| "task_step now out (MvNext settings []) w = Some (MvDone, w)"
| "task_step now out (MvNext settings (s # ss)) w =
     Some (MvStop settings s ss,
           on_reg (mark_terminating_with_notice (sm_key s) (Some (eviction_notice s settings))) w)"
| "task_step now out (MvStop settings s ss) w =
     Some (MvRemove settings (sm_key s) ss,
           w\<lparr>w_alive := List.remove1 (sh_runtime (sm_handle s)) (w_alive w)\<rparr>)"
| "task_step now out (MvRemove settings key ss) w =
     Some (MvLeases settings key ss, on_reg (remove_session key) w)"
| "task_step now out (MvLeases settings key ss) w =
     Some (MvGates settings key ss, on_reg (remove_leases key) w)"
| "task_step now out (MvGates settings key ss) w =
     Some (MvNext settings ss, on_reg (increment_memory_eviction \<circ> drop_gate key) w)"
| "task_step now out MvDone w = None"

inductive step :: "world \<Rightarrow> world \<Rightarrow> bool" where
  run: "i < length (w_tasks w) \<Longrightarrow> task_step now out (w_tasks w ! i) w = Some (t, w') \<Longrightarrow>
    step w (w'\<lparr>w_tasks := (w_tasks w)[i := t]\<rparr>)"

inductive_cases stepE: "step w w'"

inductive reachable :: "world \<Rightarrow> world \<Rightarrow> bool" where
  start: "reachable w w"
| more: "reachable w w' \<Longrightarrow> step w' w'' \<Longrightarrow> reachable w w''"

text \<open>Any number of attach, release and eviction tasks on an empty registry.\<close>

fun fresh_task :: "task \<Rightarrow> bool" where
  "fresh_task (AqStart _ _) = True"
| "fresh_task (RlStart _) = True"
| "fresh_task EvScan = True"
| "fresh_task (MvNext _ _) = True"
| "fresh_task _ = False"

definition initial_world :: "duration \<Rightarrow> task list \<Rightarrow> world" where
  "initial_world ttl ts =
     \<lparr>w_reg = with_idle_ttl ttl, w_tasks = ts, w_next = 0, w_alive = []\<rparr>"

text \<open>Running a schedule: which task, when, with which outcome.\<close>

fun run_schedule :: "(nat \<times> instant \<times> json result) list \<Rightarrow> world \<Rightarrow> world option" where
  "run_schedule [] w = Some w"
| "run_schedule ((i, now, out) # s) w =
     (if i < length (w_tasks w) then
        (case task_step now out (w_tasks w ! i) w of
           None \<Rightarrow> None
         | Some (t, w') \<Rightarrow> run_schedule s (w'\<lparr>w_tasks := (w_tasks w)[i := t]\<rparr>))
      else None)"

lemma reachable_trans: "reachable w' w'' \<Longrightarrow> reachable w w' \<Longrightarrow> reachable w w''"
  by (induction rule: reachable.induct) (auto intro: reachable.more)

lemma run_schedule_reachable: "run_schedule s w = Some w' \<Longrightarrow> reachable w w'"
proof (induction s w rule: run_schedule.induct)
  case (1 w)
  then show ?case by (simp add: reachable.start)
next
  case (2 i now out s w)
  then obtain t w1 where i: "i < length (w_tasks w)"
    and st: "task_step now out (w_tasks w ! i) w = Some (t, w1)"
    and rest: "run_schedule s (w1\<lparr>w_tasks := (w_tasks w)[i := t]\<rparr>) = Some w'"
    by (auto split: if_splits option.splits)
  have "reachable w (w1\<lparr>w_tasks := (w_tasks w)[i := t]\<rparr>)"
    by (rule reachable.more [OF reachable.start step.run [OF i st]])
  with 2(1) [OF i st refl rest] show ?case by (rule reachable_trans)
qed

lemma reachable_invariant:
  assumes "reachable w w'" and "I w" and "\<And>v v'. I v \<Longrightarrow> step v v' \<Longrightarrow> I v'"
  shows "I w'"
  using assms by (induction rule: reachable.induct) auto

subsection \<open>A schedule with the memory monitor\<close>

definition race_key :: session_key where
  "race_key = session_key_new [''/'', ''w''] ''rust-analyzer'' ''h''"

text \<open>
  An attach that meets the memory monitor: session 0 has been marked as evicted, with its notice, when
  the attach reuses it; then its process is stopped.
\<close>

definition race_sample :: memory_sample where
  "race_sample = \<lparr>sm_key = race_key, sm_root = [''/'', ''w''], sm_rss_bytes = 5000, sm_ref_count = 1,
     sm_idle_for = 0, sm_client_kinds = [],
     sm_handle = \<lparr>sh_key = race_key, sh_runtime = 0, sh_initialize_result = JNull\<rparr>\<rparr>"

definition race_budget :: memory_budget_settings where
  "race_budget = \<lparr>mb_max_session_bytes = Some 4096, mb_max_total_bytes = None, mb_check_interval = 1\<rparr>"

definition revived_schedule :: "(nat \<times> instant \<times> json result) list" where
  "revived_schedule = map (\<lambda>i. (i, 5, Inr JNull)) [0, 0, 0, 0, 0, 0, 0, 1, 2, 2, 2, 1]"

definition revived_tasks :: "task list" where
  "revived_tasks = [AqStart race_key None, MvNext race_budget [race_sample], AqStart race_key None]"

lemma revived_run:
  "map_option (\<lambda>w. (w_tasks w ! 2, w_alive w,
      map_option (\<lambda>rec. (sr_terminating rec, Option.is_none (sr_termination_notice rec)))
        (map_of (reg_sessions (w_reg w)) race_key),
      lease_owner (w_reg w) (lease_name 1)))
     (run_schedule revived_schedule (initial_world 300 revived_tasks)) =
   Some (AqDone (Inr \<lparr>le_id = lease_name 2, le_key = race_key\<rparr>), [], Some (False, True), Some race_key)"
  by (simp add: revived_schedule_def revived_tasks_def initial_world_def with_idle_ttl_def on_reg_def
      gate_for_def count_attach_def try_reuse_def insert_lease_def next_lease_id_def enter_gate_def
      finish_spawn_def install_def Let_def mark_terminating_with_notice_def lease_on_record_def
      session_record_new_def race_sample_def spawn_gate_new_def lease_owner_def)

subsection \<open>The gate protocol\<close>

text \<open>The gate whose spawn a task has under way.\<close>

fun spawning_gate :: "task \<Rightarrow> nat option" where
  "spawning_gate (AqSpawn _ _ g) = Some g"
| "spawning_gate (AqFinish _ _ g _) = Some g"
| "spawning_gate _ = None"

text \<open>The gate a task holds a reference to.\<close>

fun held_gate :: "task \<Rightarrow> nat option" where
  "held_gate (AqLoop _ _ g) = Some g"
| "held_gate (AqGate _ _ g) = Some g"
| "held_gate (AqSpawn _ _ g) = Some g"
| "held_gate (AqFinish _ _ g _) = Some g"
| "held_gate (AqWait _ _ g _) = Some g"
| "held_gate _ = None"

definition spawners :: "nat \<Rightarrow> task list \<Rightarrow> nat" where
  "spawners g ts = length (filter (\<lambda>t. spawning_gate t = Some g) ts)"

fun waits_in_time :: "spawn_gate list \<Rightarrow> task \<Rightarrow> bool" where
  "waits_in_time heap (AqWait _ _ g n) =
     (n \<le> sg_notify (heap ! g) \<and> (n = sg_notify (heap ! g) \<longrightarrow> sg_started (heap ! g)))"
| "waits_in_time heap _ = True"

definition gate_protocol :: "world \<Rightarrow> bool" where
  "gate_protocol w =
     (let heap = reg_gate_heap (w_reg w)
      in gates_ok (w_reg w) \<and>
         (\<forall>t \<in> set (w_tasks w). \<forall>g. held_gate t = Some g \<longrightarrow> g < length heap) \<and>
         (\<forall>g < length heap. spawners g (w_tasks w) = (if sg_started (heap ! g) then 1 else 0)) \<and>
         (\<forall>t \<in> set (w_tasks w). waits_in_time heap t))"

lemma spawners_update:
  assumes "i < length ts"
  shows "spawners g (ts[i := t]) + (if spawning_gate (ts ! i) = Some g then 1 else 0) =
    spawners g ts + (if spawning_gate t = Some g then 1 else 0)"
proof -
  have ts: "ts = take i ts @ ts ! i # drop (Suc i) ts" using assms by (simp add: id_take_nth_drop)
  have upd: "ts[i := t] = take i ts @ t # drop (Suc i) ts" using assms by (simp add: upd_conv_take_nth_drop)
  have "spawners g ts = spawners g (take i ts) + (if spawning_gate (ts ! i) = Some g then 1 else 0)
      + spawners g (drop (Suc i) ts)"
    by (subst ts) (simp add: spawners_def)
  then show ?thesis unfolding upd by (simp add: spawners_def)
qed

lemma gate_protocolD:
  assumes "gate_protocol w"
  shows "gates_ok (w_reg w)"
    and "t \<in> set (w_tasks w) \<Longrightarrow> held_gate t = Some g \<Longrightarrow> g < length (reg_gate_heap (w_reg w))"
    and "g < length (reg_gate_heap (w_reg w)) \<Longrightarrow>
      spawners g (w_tasks w) = (if sg_started (reg_gate_heap (w_reg w) ! g) then 1 else 0)"
    and "t \<in> set (w_tasks w) \<Longrightarrow> waits_in_time (reg_gate_heap (w_reg w)) t"
  using assms by (auto simp: gate_protocol_def Let_def)

lemma set_update_memD: "x \<in> set (xs[i := y]) \<Longrightarrow> x = y \<or> x \<in> set xs"
  using set_update_subset_insert by fast

text \<open>A step that leaves the gates alone and does not begin or end a spawn.\<close>

lemma protocol_same:
  assumes P: "gate_protocol w" and i: "i < length (w_tasks w)"
    and sp: "spawning_gate t = spawning_gate (w_tasks w ! i)"
    and heap: "reg_gate_heap (w_reg w') = reg_gate_heap (w_reg w)" and ok: "gates_ok (w_reg w')"
    and held: "\<And>g. held_gate t = Some g \<Longrightarrow> g < length (reg_gate_heap (w_reg w))"
    and wait: "waits_in_time (reg_gate_heap (w_reg w)) t"
  shows "gate_protocol (w'\<lparr>w_tasks := (w_tasks w)[i := t]\<rparr>)"
proof -
  have "spawners g ((w_tasks w)[i := t]) = spawners g (w_tasks w)" for g
    using spawners_update [OF i, of g t] by (simp add: sp)
  then show ?thesis
    using gate_protocolD [OF P] ok held wait
    unfolding gate_protocol_def Let_def
    by (auto simp: heap dest!: set_update_memD)
qed

text \<open>A step that allocates a gate.\<close>

lemma waits_append:
  "waits_in_time heap t \<Longrightarrow> (\<And>g. held_gate t = Some g \<Longrightarrow> g < length heap) \<Longrightarrow>
     waits_in_time (heap @ x) t"
  by (cases t) (auto simp: nth_append)

lemma spawners_zero:
  "(\<And>t. t \<in> set ts \<Longrightarrow> spawning_gate t \<noteq> Some g) \<Longrightarrow> spawners g ts = 0"
  by (simp add: spawners_def filter_empty_conv)

lemma spawning_held: "spawning_gate t = Some g \<Longrightarrow> held_gate t = Some g"
  by (cases t) auto

lemma protocol_alloc:
  assumes P: "gate_protocol w" and i: "i < length (w_tasks w)"
    and sp: "spawning_gate t = None" "spawning_gate (w_tasks w ! i) = None"
    and heap: "reg_gate_heap (w_reg w') = reg_gate_heap (w_reg w) @ [spawn_gate_new]"
    and ok: "gates_ok (w_reg w')"
    and held: "\<And>g. held_gate t = Some g \<Longrightarrow> g < Suc (length (reg_gate_heap (w_reg w)))"
    and wait: "waits_in_time (reg_gate_heap (w_reg w')) t"
  shows "gate_protocol (w'\<lparr>w_tasks := (w_tasks w)[i := t]\<rparr>)"
proof -
  let ?h = "reg_gate_heap (w_reg w)"
  note PD = gate_protocolD [OF P]
  have eq: "spawners g ((w_tasks w)[i := t]) = spawners g (w_tasks w)" for g
    using spawners_update [OF i, of g t] by (simp add: sp)
  have "spawners (length ?h) (w_tasks w) = 0"
    by (rule spawners_zero) (use PD(2) spawning_held in blast)
  then have "spawners g (w_tasks w) = (if sg_started ((?h @ [spawn_gate_new]) ! g) then 1 else 0)"
    if "g < Suc (length ?h)" for g
    using that PD(3) [of g] by (auto simp: nth_append less_Suc_eq spawn_gate_new_def)
  then show ?thesis
    using ok held wait PD(2,4) waits_append [of ?h]
    unfolding gate_protocol_def Let_def
    by (auto simp: heap eq dest!: set_update_memD intro: less_SucI)
qed

text \<open>A step that rewrites one gate.\<close>

lemma protocol_gate:
  assumes P: "gate_protocol w" and i: "i < length (w_tasks w)" and g: "g < length (reg_gate_heap (w_reg w))"
    and heap: "reg_gate_heap (w_reg w') = (reg_gate_heap (w_reg w))[g := gate]"
    and ok: "gates_ok (w_reg w')"
    and old: "(spawning_gate (w_tasks w ! i) = Some g) = (sg_started (reg_gate_heap (w_reg w) ! g))"
    and new: "(spawning_gate t = Some g) = sg_started gate"
    and other: "\<And>g'. g' \<noteq> g \<Longrightarrow> (spawning_gate t = Some g') = (spawning_gate (w_tasks w ! i) = Some g')"
    and held: "\<And>g. held_gate t = Some g \<Longrightarrow> g < length (reg_gate_heap (w_reg w))"
    and wait: "waits_in_time (reg_gate_heap (w_reg w')) t"
    and later: "\<And>n. n \<le> sg_notify (reg_gate_heap (w_reg w) ! g) \<Longrightarrow>
      n \<le> sg_notify gate \<and> (n = sg_notify gate \<longrightarrow> sg_started gate)"
  shows "gate_protocol (w'\<lparr>w_tasks := (w_tasks w)[i := t]\<rparr>)"
proof -
  let ?h = "reg_gate_heap (w_reg w)"
  note PD = gate_protocolD [OF P]
  have "spawners g' ((w_tasks w)[i := t]) = (if sg_started (?h[g := gate] ! g') then 1 else 0)"
    if "g' < length ?h" for g'
  proof (cases "g' = g")
    case True
    with spawners_update [OF i, of g t] old new g PD(3) [OF g] show ?thesis
      by (auto split: if_splits)
  next
    case False
    with spawners_update [OF i, of g' t] other [OF False] PD(3) [OF that] show ?thesis
      by (auto split: if_splits)
  qed
  moreover have "waits_in_time (?h[g := gate]) t'" if "t' \<in> set (w_tasks w)" for t'
  proof (cases t')
    case (AqWait key ck g' n)
    with PD(4) [OF that] later g show ?thesis by (cases "g' = g") auto
  qed simp_all
  ultimately show ?thesis
    using ok held wait PD(2)
    unfolding gate_protocol_def Let_def
    by (auto simp: heap dest!: set_update_memD)
qed

lemma try_reuse_gates:
  "try_reuse now key ck r = Some (l, r') \<Longrightarrow>
     reg_gate_heap r' = reg_gate_heap r \<and> reg_spawn_gates r' = reg_spawn_gates r"
  by (auto simp: try_reuse_def insert_lease_pair split: option.splits)

lemma install_gates [simp]:
  "install now key ck h r = (l, r') \<Longrightarrow>
     reg_gate_heap r' = reg_gate_heap r \<and> reg_spawn_gates r' = reg_spawn_gates r"
  by (auto simp: install_def insert_lease_pair)

lemma gates_ok_same:
  "gates_ok r \<Longrightarrow> reg_gate_heap r' = reg_gate_heap r \<Longrightarrow> reg_spawn_gates r' = reg_spawn_gates r \<Longrightarrow>
     gates_ok r'"
  by (simp add: gates_ok_def)

text \<open>
  A section either leaves the gates alone, or takes a gate from the map, enters it, or finishes its
  spawn. The sections of the first kind:
\<close>

fun quiet_task :: "task \<Rightarrow> bool" where
  "quiet_task (AqEnter _ _) = False"
| "quiet_task (AqGate _ _ _) = False"
| "quiet_task (AqFinish _ _ _ _) = False"
| "quiet_task _ = True"

lemma quiet_gates:
  assumes "task_step now out t w = Some (t', w')" and "quiet_task t"
  shows "reg_gate_heap (w_reg w') = reg_gate_heap (w_reg w)"
    and "gates_ok (w_reg w) \<Longrightarrow> gates_ok (w_reg w')"
proof -
  have "reg_gate_heap (w_reg w') = reg_gate_heap (w_reg w) \<and>
      (gates_ok (w_reg w) \<longrightarrow> gates_ok (w_reg w'))"
  proof (cases t)
    case (AqLoop key ck g)
    with assms show ?thesis
      by (auto simp: gates_ok_def dest!: try_reuse_gates split: option.splits)
  next
    case (AqInstall key ck h)
    with assms show ?thesis by (auto simp: gates_ok_def dest!: install_gates split: prod.splits)
  next
    case (EvNext hs)
    with assms show ?thesis by (cases hs) auto
  next
    case (MvNext settings ss)
    with assms show ?thesis
      by (cases ss) (auto simp: on_reg_def mark_terminating_with_notice_def gates_ok_def)
  next
    case (EvGates key hs)
    with assms show ?thesis
      by (auto simp: on_reg_def drop_gate_def increment_idle_gc_def gates_ok_def map_of_delete split: if_splits)
  next
    case (MvGates settings key ss)
    with assms show ?thesis
      by (auto simp: on_reg_def drop_gate_def increment_memory_eviction_def gates_ok_def map_of_delete
          split: if_splits)
  qed (use assms in \<open>auto simp: on_reg_def take_lease_def drop_ref_def idle_candidates_def Let_def
      remove_session_def remove_leases_def drop_gate_def gates_ok_def map_of_delete
      split: option.splits prod.splits sum.splits if_splits\<close>)
  then show "reg_gate_heap (w_reg w') = reg_gate_heap (w_reg w)"
    and "gates_ok (w_reg w) \<Longrightarrow> gates_ok (w_reg w')" by simp_all
qed

lemma quiet_tasks:
  assumes "task_step now out t w = Some (t', w')" and "quiet_task t"
  shows "spawning_gate t' = spawning_gate t"
    and "held_gate t' = None \<or> held_gate t' = held_gate t" and "waits_in_time heap t'"
proof -
  have "spawning_gate t' = spawning_gate t \<and> (held_gate t' = None \<or> held_gate t' = held_gate t) \<and>
      waits_in_time heap t'"
  proof (cases t)
    case (EvNext hs)
    with assms show ?thesis by (cases hs) auto
  next
    case (MvNext settings ss)
    with assms show ?thesis by (cases ss) auto
  qed (use assms in \<open>auto split: option.splits prod.splits sum.splits if_splits\<close>)
  then show "spawning_gate t' = spawning_gate t"
    and "held_gate t' = None \<or> held_gate t' = held_gate t" and "waits_in_time heap t'" by simp_all
qed

text \<open>The other three.\<close>

lemma protocol_enter:
  assumes P: "gate_protocol w" and i: "i < length (w_tasks w)" and task: "w_tasks w ! i = AqEnter key ck"
    and st: "task_step now out (w_tasks w ! i) w = Some (t, w1)"
  shows "gate_protocol (w1\<lparr>w_tasks := (w_tasks w)[i := t]\<rparr>)"
proof -
  obtain g r where g: "gate_for key (w_reg w) = (g, r)" and t: "t = AqLoop key ck g"
    and w1: "w1 = w\<lparr>w_reg := r\<rparr>"
    using st task by (auto split: prod.splits)
  note gg = gate_for_gates [OF g gate_protocolD(1) [OF P]]
  show ?thesis
  proof (cases "map_of (reg_spawn_gates (w_reg w)) key")
    case None
    with g have "reg_gate_heap r = reg_gate_heap (w_reg w) @ [spawn_gate_new]"
      by (auto simp: gate_for_def Let_def)
    with gg task t show ?thesis by (intro protocol_alloc [OF P i]) (auto simp: w1)
  next
    case (Some g')
    with g have "r = w_reg w" by (auto simp: gate_for_def)
    with gg task t show ?thesis by (intro protocol_same [OF P i]) (auto simp: w1)
  qed
qed

lemma protocol_enter_gate:
  assumes P: "gate_protocol w" and i: "i < length (w_tasks w)" and task: "w_tasks w ! i = AqGate key ck g"
    and st: "task_step now out (w_tasks w ! i) w = Some (t, w1)"
  shows "gate_protocol (w1\<lparr>w_tasks := (w_tasks w)[i := t]\<rparr>)"
proof -
  note PD = gate_protocolD [OF P]
  have g: "g < length (reg_gate_heap (w_reg w))"
    using PD(2) [of "w_tasks w ! i" g] i task by (metis held_gate.simps(2) nth_mem)
  show ?thesis
  proof (cases "sg_started (reg_gate_heap (w_reg w) ! g)")
    case True
    with task st have "t = AqWait key ck g (sg_notify (reg_gate_heap (w_reg w) ! g))" "w1 = w"
      by (auto simp: enter_gate_def Let_def)
    with task PD(1) g True show ?thesis by (intro protocol_same [OF P i]) simp_all
  next
    case False
    let ?gate = "(reg_gate_heap (w_reg w) ! g)\<lparr>sg_started := True\<rparr>"
    from False task st have t: "t = AqSpawn key ck g"
      and w1: "w1 = w\<lparr>w_reg := (w_reg w)\<lparr>reg_gate_heap := (reg_gate_heap (w_reg w))[g := ?gate]\<rparr>\<rparr>"
      by (simp_all add: enter_gate_def)
    show ?thesis
      by (rule protocol_gate [OF P i g, where gate = ?gate])
        (use False task PD(1) g in \<open>auto simp: t w1 gates_ok_def\<close>)
  qed
qed

lemma protocol_finish:
  assumes P: "gate_protocol w" and i: "i < length (w_tasks w)" and task: "w_tasks w ! i = AqFinish key ck g res"
    and st: "task_step now out (w_tasks w ! i) w = Some (t, w1)"
  shows "gate_protocol (w1\<lparr>w_tasks := (w_tasks w)[i := t]\<rparr>)"
proof -
  note PD = gate_protocolD [OF P]
  let ?old = "reg_gate_heap (w_reg w) ! g"
  let ?gate = "?old\<lparr>sg_started := False, sg_notify := sg_notify ?old + 1\<rparr>"
  have ti: "AqFinish key ck g res \<in> set (w_tasks w)" using i task by (metis nth_mem)
  have g: "g < length (reg_gate_heap (w_reg w))" using PD(2) [OF ti] by simp
  have "spawners g (w_tasks w) \<noteq> 0"
    using ti by (auto simp: spawners_def filter_empty_conv intro: bexI [of _ "AqFinish key ck g res"])
  with PD(3) [OF g] have started: "sg_started ?old" by (auto split: if_splits)
  from task st
  have t: "t = (case res of Inr h \<Rightarrow> AqInstall key ck h | Inl e \<Rightarrow> AqDropGate key e)"
    and w1: "w1 = w\<lparr>w_reg := (w_reg w)\<lparr>reg_gate_heap := (reg_gate_heap (w_reg w))[g := ?gate]\<rparr>\<rparr>"
    by (simp_all add: on_reg_def finish_spawn_def Let_def)
  show ?thesis
    by (rule protocol_gate [OF P i g, where gate = ?gate])
      (use started task PD(1) g in \<open>auto simp: t w1 gates_ok_def split: sum.splits\<close>)
qed

lemma gate_protocol_step:
  assumes P: "gate_protocol w" and st: "step w w'"
  shows "gate_protocol w'"
  using st
proof cases
  case (run i now out t w1)
  note i = run(2) and st = run(3)
  note PD = gate_protocolD [OF P]
  have ti: "w_tasks w ! i \<in> set (w_tasks w)" using i by simp
  have "gate_protocol (w1\<lparr>w_tasks := (w_tasks w)[i := t]\<rparr>)"
  proof (cases "quiet_task (w_tasks w ! i)")
    case True
    note quiet = quiet_tasks [OF st True]
    show ?thesis
      by (rule protocol_same [OF P i quiet(1) quiet_gates [OF st True] _ quiet(3)])
        (use PD(1) PD(2) [OF ti] quiet(2) in auto)
  next
    case False
    then show ?thesis
      using protocol_enter [OF P i _ st] protocol_enter_gate [OF P i _ st] protocol_finish [OF P i _ st]
      by (cases "w_tasks w ! i") simp_all
  qed
  with run(1) show ?thesis by simp
qed

lemma gate_protocol_initial:
  assumes "list_all fresh_task ts"
  shows "gate_protocol (initial_world ttl ts)"
proof -
  have "held_gate t = None \<and> waits_in_time [] t" if "t \<in> set ts" for t
    using assms that by (cases t) (auto simp: list_all_iff)
  then show ?thesis
    by (auto simp: gate_protocol_def Let_def initial_world_def with_idle_ttl_def gates_ok_def)
qed

lemma gate_protocol_reachable:
  assumes "list_all fresh_task ts" and "reachable (initial_world ttl ts) w"
  shows "gate_protocol w"
  using assms(2) gate_protocol_initial [OF assms(1)] gate_protocol_step
  by (rule reachable_invariant)

fun task_finished :: "task \<Rightarrow> bool" where
  "task_finished (AqDone _) = True"
| "task_finished (RlDone _) = True"
| "task_finished EvDone = True"
| "task_finished MvDone = True"
| "task_finished _ = False"

lemma only_waiters_block:
  assumes "task_step now (Inr JNull) t w = None" and "\<not> task_finished t"
  shows "\<exists>key ck g. t = AqWait key ck g (sg_notify (reg_gate_heap (w_reg w) ! g))"
  using assms
  by (cases t) (auto split: option.splits prod.splits gate_entry.splits if_splits list.splits
      elim: task_step.elims)

text \<open>C4: the spawn gates under any interleaving of attach, release and eviction tasks,
  idle rounds and memory rounds alike. A gate has a
  spawn under way exactly while it is closed, and never two; and a task that waits on a gate has
  either been notified since, or a spawner that has yet to notify is still running, so no wakeup
  is lost.\<close>

theorem spawn_gate_protocol:
  assumes "list_all fresh_task ts" and "reachable (initial_world ttl ts) w"
    and "g < length (reg_gate_heap (w_reg w))"
  shows "length (filter (\<lambda>t. spawning_gate t = Some g) (w_tasks w)) =
      (if sg_started (reg_gate_heap (w_reg w) ! g) then 1 else 0) \<and>
    list_all (waits_in_time (reg_gate_heap (w_reg w))) (w_tasks w)"
  using gate_protocolD(3) [OF gate_protocol_reachable [OF assms(1,2)] assms(3)]
    gate_protocolD(4) [OF gate_protocol_reachable [OF assms(1,2)]]
  by (simp add: spawners_def list_all_iff)

text \<open>C5: the tasks never deadlock: as long as one of them has not finished, some task can take a
  step.\<close>

theorem registry_deadlock_free:
  assumes fresh: "list_all fresh_task ts" and reach: "reachable (initial_world ttl ts) w"
    and todo: "\<not> list_all task_finished (w_tasks w)"
  shows "\<exists>w'. step w w'"
proof (rule ccontr)
  assume stuck: "\<nexists>w'. step w w'"
  have blocked: "task_step 0 (Inr JNull) t w = None" if t: "t \<in> set (w_tasks w)" for t
  proof (rule ccontr)
    assume "task_step 0 (Inr JNull) t w \<noteq> None"
    then obtain t' w1 where st: "task_step 0 (Inr JNull) t w = Some (t', w1)" by auto
    from t obtain i where "i < length (w_tasks w)" "w_tasks w ! i = t"
      by (auto simp: in_set_conv_nth)
    with st have "step w (w1\<lparr>w_tasks := (w_tasks w)[i := t']\<rparr>)"
      using step.run [of i w 0 "Inr JNull" t' w1] by simp
    with stuck show False by simp
  qed
  note P = gate_protocol_reachable [OF fresh reach]
  from todo obtain t where t: "t \<in> set (w_tasks w)" "\<not> task_finished t"
    by (auto simp: list_all_iff)
  from only_waiters_block [OF blocked [OF t(1)] t(2)] obtain key ck g where
    w: "t = AqWait key ck g (sg_notify (reg_gate_heap (w_reg w) ! g))" by (elim exE)
  then have g: "g < length (reg_gate_heap (w_reg w))"
    using gate_protocolD(2) [OF P t(1)] by simp
  have "sg_started (reg_gate_heap (w_reg w) ! g)"
    using gate_protocolD(4) [OF P t(1)] w by simp
  with gate_protocolD(3) [OF P g] have "spawners g (w_tasks w) \<noteq> 0" by simp
  then obtain s where s: "s \<in> set (w_tasks w)" "spawning_gate s = Some g"
    by (auto simp: spawners_def filter_empty_conv)
  have unfinished: "\<not> task_finished s" using s(2) by (cases s) simp_all
  have nowait: "s \<noteq> AqWait key ck g n" for key ck g n using s(2) by auto
  from only_waiters_block [OF blocked [OF s(1)] unfinished] nowait show False by (elim exE) (erule notE [rotated])
qed

subsection \<open>Schedules\<close>

text \<open>
  Two first attaches of one session. The second enters the gate after the first has reopened it
  and before the first has stored its session.
\<close>

definition double_spawn_schedule :: "(nat \<times> instant \<times> json result) list" where
  "double_spawn_schedule =
     map (\<lambda>i. (i, 5, Inr JNull)) [0, 0, 0, 0, 0, 0, 1, 1, 1, 1, 1, 0, 1, 1]"

lemma double_spawn_run:
  "map_option (\<lambda>w. (list_all task_finished (w_tasks w), w_alive w,
      map (\<lambda>h. (sh_key h, sh_runtime h)) (all_handles (w_reg w)),
      rc_sessions_spawned_total (reg_counters (w_reg w))))
     (run_schedule double_spawn_schedule
        (initial_world 300 [AqStart race_key None, AqStart race_key None])) =
   Some (True, [1, 0], [(race_key, 0)], 2)"
  by code_simp

text \<open>
  An attach that meets the idle eviction of its session: session 0 has been attached to and
  released; the eviction has picked it and stopped its process when a new attach reuses it.
\<close>

definition evicted_lease_schedule :: "(nat \<times> instant \<times> json result) list" where
  "evicted_lease_schedule =
     map (\<lambda>i. (i, 5, Inr JNull)) [0, 0, 0, 0, 0, 0, 0, 1, 1] @
     map (\<lambda>i. (i, 400, Inr JNull)) [2, 2, 3, 3, 3, 2, 2, 2, 2]"

lemma evicted_lease_run:
  "map_option (\<lambda>w. (w_tasks w ! 3, list_all task_finished (w_tasks w), w_alive w, all_handles (w_reg w),
      reg_leases (w_reg w)))
     (run_schedule evicted_lease_schedule
        (initial_world 300 [AqStart race_key None, RlStart (lease_name 1), EvScan,
           AqStart race_key None])) =
   Some (AqDone (Inr \<lparr>le_id = lease_name 2, le_key = race_key\<rparr>), True, [], [], [])"
  by code_simp

subsection \<open>Reference counts under interleaving\<close>

text \<open>
  Between the two locks of \<open>release_by_lease_id\<close> a session counts one reference more than it has
  leases. Up to these, the counts are exact whatever way attaches and releases interleave.
\<close>

definition releasing :: "session_key \<Rightarrow> task list \<Rightarrow> nat" where
  "releasing k ts = length (filter (\<lambda>t. t = RlDrop k) ts)"

fun attaching :: "task \<Rightarrow> bool" where
  "attaching (AqDone _) = False"
| "attaching (RlStart _) = False"
| "attaching (RlDrop _) = False"
| "attaching (RlDone _) = False"
| "attaching EvScan = False"
| "attaching (EvNext _) = False"
| "attaching (EvRemove _ _) = False"
| "attaching (EvLeases _ _) = False"
| "attaching (EvGates _ _) = False"
| "attaching EvDone = False"
| "attaching (MvNext _ _) = False"
| "attaching (MvStop _ _ _) = False"
| "attaching (MvRemove _ _ _) = False"
| "attaching (MvLeases _ _ _) = False"
| "attaching (MvGates _ _ _) = False"
| "attaching MvDone = False"
| "attaching _ = True"

fun attach_or_release :: "task \<Rightarrow> bool" where
  "attach_or_release EvScan = False"
| "attach_or_release (EvNext _) = False"
| "attach_or_release (EvRemove _ _) = False"
| "attach_or_release (EvLeases _ _) = False"
| "attach_or_release (EvGates _ _) = False"
| "attach_or_release EvDone = False"
| "attach_or_release (MvNext _ _) = False"
| "attach_or_release (MvStop _ _ _) = False"
| "attach_or_release (MvRemove _ _ _) = False"
| "attach_or_release (MvLeases _ _ _) = False"
| "attach_or_release (MvGates _ _ _) = False"
| "attach_or_release MvDone = False"
| "attach_or_release (AqFinish key _ _ (Inr h)) = (sh_key h = key)"
| "attach_or_release (AqInstall key _ h) = (sh_key h = key)"
| "attach_or_release _ = True"

definition counts_exact :: "nat \<Rightarrow> world \<Rightarrow> bool" where
  "counts_exact N w =
     (let S = reg_sessions (w_reg w); L = reg_leases (w_reg w); n = reg_lease_seq (w_reg w);
          ts = w_tasks w
      in distinct_keys S \<and> leases_ok S L n \<and>
         (\<forall>k rec. map_of S k = Some rec \<longrightarrow>
            sh_key (sr_handle rec) = k \<and> sr_ref_count rec = leases_on k L + releasing k ts) \<and>
         (\<forall>t \<in> set ts. attach_or_release t) \<and>
         (\<forall>k. map_of S k = None \<longrightarrow> releasing k ts = 0) \<and>
         unat n + length (filter attaching ts) \<le> N)"

lemma filter_update:
  assumes "i < length ts"
  shows "length (filter P (ts[i := t])) + (if P (ts ! i) then 1 else 0) =
    length (filter P ts) + (if P t then 1 else 0)"
proof -
  have ts: "ts = take i ts @ ts ! i # drop (Suc i) ts" using assms by (simp add: id_take_nth_drop)
  have upd: "ts[i := t] = take i ts @ t # drop (Suc i) ts" using assms by (simp add: upd_conv_take_nth_drop)
  have "length (filter P ts) = length (filter P (take i ts)) + (if P (ts ! i) then 1 else 0)
      + length (filter P (drop (Suc i) ts))"
    by (subst ts) simp
  then show ?thesis unfolding upd by simp
qed

lemma counts_exactD:
  assumes "counts_exact N w"
  shows "distinct_keys (reg_sessions (w_reg w))"
    and "leases_ok (reg_sessions (w_reg w)) (reg_leases (w_reg w)) (reg_lease_seq (w_reg w))"
    and "map_of (reg_sessions (w_reg w)) k = Some rec \<Longrightarrow> sh_key (sr_handle rec) = k \<and>
      sr_ref_count rec = leases_on k (reg_leases (w_reg w)) + releasing k (w_tasks w)"
    and "t \<in> set (w_tasks w) \<Longrightarrow> attach_or_release t"
    and "map_of (reg_sessions (w_reg w)) k = None \<Longrightarrow> releasing k (w_tasks w) = 0"
    and "unat (reg_lease_seq (w_reg w)) + length (filter attaching (w_tasks w)) \<le> N"
  using assms by (auto simp: counts_exact_def Let_def)

lemma counts_same:
  assumes E: "counts_exact N w" and i: "i < length (w_tasks w)"
    and same: "same_but_gates (w_reg w) (w_reg w')"
    and t: "attach_or_release t" "attaching t \<Longrightarrow> attaching (w_tasks w ! i)"
    and nr: "\<And>k. t \<noteq> RlDrop k" "\<And>k. w_tasks w ! i \<noteq> RlDrop k"
  shows "counts_exact N (w'\<lparr>w_tasks := (w_tasks w)[i := t]\<rparr>)"
proof -
  note D = counts_exactD [OF E]
  have rel: "releasing k ((w_tasks w)[i := t]) = releasing k (w_tasks w)" for k
    using filter_update [OF i, of "\<lambda>t. t = RlDrop k" t] nr(1)[of k] nr(2)[of k]
    by (simp add: releasing_def)
  have "length (filter attaching ((w_tasks w)[i := t])) \<le> length (filter attaching (w_tasks w))"
    using filter_update [OF i, of attaching t] t(2) by (auto split: if_splits)
  with D(1,2,6) D(3) D(4) D(5) t(1) same show ?thesis
    unfolding counts_exact_def Let_def
    by (auto simp: same_but_gates_def rel dest!: set_update_memD)
qed

text \<open>A step that hands out a lease.\<close>

lemma counts_lease:
  assumes E: "counts_exact N w" and N: "N < 2 ^ 64" and i: "i < length (w_tasks w)"
    and t: "attach_or_release t" "\<not> attaching t" "\<And>k. t \<noteq> RlDrop k"
    and old: "attaching (w_tasks w ! i)"
    and S: "distinct_keys S" "leases_ok S (reg_leases (w_reg w)) (reg_lease_seq (w_reg w))"
      "\<And>k rec. map_of S k = Some rec \<Longrightarrow> sh_key (sr_handle rec) = k \<and>
        sr_ref_count rec = leases_on k (reg_leases (w_reg w)) + releasing k (w_tasks w)"
      "\<And>k. map_of S k = None \<Longrightarrow> releasing k (w_tasks w) = 0"
      "map_of S key \<noteq> None"
    and r: "reg_sessions r = AList.map_entry key (lease_on_record now) S"
      "reg_leases r = AList.update (lease_name (reg_lease_seq (w_reg w)))
         \<lparr>lr_key = key, lr_client_kind = ck\<rparr> (reg_leases (w_reg w))"
      "reg_lease_seq r = reg_lease_seq (w_reg w) + 1"
  shows "counts_exact N (w\<lparr>w_reg := r, w_tasks := (w_tasks w)[i := t]\<rparr>)"
proof -
  note D = counts_exactD [OF E]
  have rel: "releasing k ((w_tasks w)[i := t]) = releasing k (w_tasks w)" for k
    using filter_update [OF i, of "\<lambda>t. t = RlDrop k" t] t(3) [of k] old
    by (auto simp: releasing_def split: if_splits)
  have att: "length (filter attaching (w_tasks w)) = Suc (length (filter attaching ((w_tasks w)[i := t])))"
    using filter_update [OF i, of attaching t] t(2) old by simp
  with D(6) N have room: "unat (reg_lease_seq (w_reg w)) + 1 < 2 ^ 64" by simp
  then have seq: "unat (reg_lease_seq (w_reg w) + 1) = unat (reg_lease_seq (w_reg w)) + 1"
    by (simp add: unat_word_ariths(1))
  have L: "leases_ok (reg_sessions r) (reg_leases r) (reg_lease_seq r)"
    unfolding r by (rule leases_ok_add [OF S(2) _ room]) (use S(5) in simp)
  have "distinct_keys (reg_sessions r)" by (simp add: r(1) S(1))
  moreover have "sh_key (sr_handle rec) = k \<and>
      sr_ref_count rec = leases_on k (reg_leases r) + releasing k (w_tasks w)"
    if "map_of (reg_sessions r) k = Some rec" for k rec
    using that S(3) by (auto simp: r map_of_map_entry' leases_on_add [OF lease_name_fresh [OF D(2)]]
        split: if_splits)
  moreover have "releasing k (w_tasks w) = 0" if "map_of (reg_sessions r) k = None" for k
    using that S(4) [of k] by (auto simp: r(1) map_of_map_entry' split: if_splits)
  ultimately show ?thesis
    using L D(4) D(6) att t(1) seq
    unfolding counts_exact_def Let_def
    by (auto simp: rel r(3) dest!: set_update_memD)
qed

lemma session_mono_try_reuse:
  assumes "try_reuse now key ck r = Some (l, r')"
  shows "\<exists>rec. map_of (reg_sessions r) key = Some rec"
    and "reg_sessions r' = AList.map_entry key (lease_on_record now) (reg_sessions r)"
    and "reg_leases r' = AList.update (lease_name (reg_lease_seq r))
         \<lparr>lr_key = key, lr_client_kind = ck\<rparr> (reg_leases r)"
    and "reg_lease_seq r' = reg_lease_seq r + 1"
  using assms by (auto simp: try_reuse_def insert_lease_pair split: option.splits)

lemma counts_take_lease:
  assumes E: "counts_exact N w" and i: "i < length (w_tasks w)" and ti: "w_tasks w ! i = RlStart j"
    and take: "take_lease j (w_reg w) = Some (key, r)"
  shows "counts_exact N (w\<lparr>w_reg := r, w_tasks := (w_tasks w)[i := RlDrop key]\<rparr>)"
proof -
  let ?S = "reg_sessions (w_reg w)" and ?L = "reg_leases (w_reg w)"
  note D = counts_exactD [OF E]
  from take obtain l where l: "map_of ?L j = Some l" "lr_key l = key"
    and r: "r = (w_reg w)\<lparr>reg_leases := AList.delete j ?L\<rparr>"
    by (auto simp: take_lease_def split: option.splits)
  have dL: "distinct_keys ?L" using D(2) by (simp add: leases_ok_def)
  from leases_okD(1) [OF D(2) l(1)] l(2) have key: "map_of ?S key \<noteq> None" by auto
  have rel: "releasing k ((w_tasks w)[i := RlDrop key]) =
      releasing k (w_tasks w) + (if k = key then 1 else 0)" for k
    using filter_update [OF i, of "\<lambda>t. t = RlDrop k" "RlDrop key"] ti
    by (auto simp: releasing_def split: if_splits)
  have att: "length (filter attaching ((w_tasks w)[i := RlDrop key])) =
      length (filter attaching (w_tasks w))"
    using filter_update [OF i, of attaching "RlDrop key"] ti by simp
  have L: "leases_ok ?S (AList.delete j ?L) (reg_lease_seq (w_reg w))"
    using leases_okD [OF D(2)] dL
    by (fastforce simp: leases_ok_def map_of_delete split: if_splits)
  have "sr_ref_count rec = leases_on k (AList.delete j ?L) + releasing k (w_tasks w) +
      (if k = key then 1 else 0)" if "map_of ?S k = Some rec" for k rec
    using D(3) [OF that] leases_on_delete [OF dL l(1), of k] leases_on_pos [OF dL l(1)] l(2) by auto
  then show ?thesis
    using D(1) D(3) D(4) D(5) D(6) L key
    unfolding counts_exact_def Let_def
    by (auto simp: r rel att dest!: set_update_memD)
qed

lemma counts_drop_ref:
  assumes E: "counts_exact N w" and i: "i < length (w_tasks w)" and ti: "w_tasks w ! i = RlDrop key"
    and dr: "drop_ref now key (w_reg w) = (n, r)"
  shows "counts_exact N (w\<lparr>w_reg := r, w_tasks := (w_tasks w)[i := RlDone (Some n)]\<rparr>)"
proof -
  let ?S = "reg_sessions (w_reg w)" and ?L = "reg_leases (w_reg w)"
  note D = counts_exactD [OF E]
  have rel: "releasing k (w_tasks w) =
      releasing k ((w_tasks w)[i := RlDone (Some n)]) + (if k = key then 1 else 0)" for k
    using filter_update [OF i, of "\<lambda>t. t = RlDrop k" "RlDone (Some n)"] ti
    by (auto simp: releasing_def split: if_splits)
  have att: "length (filter attaching ((w_tasks w)[i := RlDone (Some n)])) =
      length (filter attaching (w_tasks w))"
    using filter_update [OF i, of attaching "RlDone (Some n)"] ti by simp
  have "map_of ?S key \<noteq> None" using D(5) [of key] rel [of key] by auto
  with dr have r: "r = (w_reg w)\<lparr>reg_sessions := AList.map_entry key (release_on_record now) ?S\<rparr>"
    by (auto simp: drop_ref_def)
  have "sh_key (sr_handle rec) = k \<and>
      sr_ref_count rec = leases_on k ?L + releasing k ((w_tasks w)[i := RlDone (Some n)])"
    if k: "map_of (AList.map_entry key (release_on_record now) ?S) k = Some rec" for k rec
    using k D(3) rel [of k] by (fastforce simp: map_of_map_entry' split: if_splits)
  then show ?thesis
    using D(1) D(4) D(5) D(6) leases_ok_map_entry [OF D(2)]
    unfolding counts_exact_def Let_def
    by (auto simp: r att rel map_of_map_entry' dest!: set_update_memD split: if_splits)
qed

text \<open>The sections that hand out a lease: reusing a session, and installing a new one.\<close>

lemma counts_reuse:
  assumes E: "counts_exact N w" and N: "N < 2 ^ 64" and i: "i < length (w_tasks w)"
    and task: "w_tasks w ! i = AqLoop key ck g" and reuse: "try_reuse now key ck (w_reg w) = Some (l, r)"
  shows "counts_exact N (w\<lparr>w_reg := r, w_tasks := (w_tasks w)[i := AqDone (Inr l)]\<rparr>)"
  by (rule counts_lease [OF E N i, where S = "reg_sessions (w_reg w)" and key = key and ck = ck and now = now])
    (use session_mono_try_reuse [OF reuse] counts_exactD [OF E] task in auto)

lemma counts_install:
  assumes E: "counts_exact N w" and N: "N < 2 ^ 64" and i: "i < length (w_tasks w)"
    and task: "w_tasks w ! i = AqInstall key ck h" and inst: "install now key ck h (w_reg w) = (l, r)"
  shows "counts_exact N (w\<lparr>w_reg := r, w_tasks := (w_tasks w)[i := AqDone (Inr l)]\<rparr>)"
proof -
  note D = counts_exactD [OF E]
  have h: "sh_key h = key" using D(4) [OF nth_mem [OF i]] by (simp add: task)
  let ?S0 = "reg_sessions (w_reg w)"
  define S where "S = (case map_of ?S0 key of Some _ \<Rightarrow> ?S0
     | None \<Rightarrow> AList.update key (session_record_new now h) ?S0)"
  have r: "reg_sessions r = AList.map_entry key (lease_on_record now) S"
    "reg_leases r = AList.update (lease_name (reg_lease_seq (w_reg w)))
       \<lparr>lr_key = key, lr_client_kind = ck\<rparr> (reg_leases (w_reg w))"
    "reg_lease_seq r = reg_lease_seq (w_reg w) + 1"
    using inst by (auto simp: install_def insert_lease_pair S_def)
  have "leases_on key (reg_leases (w_reg w)) = 0 \<and> releasing key (w_tasks w) = 0"
    if "map_of ?S0 key = None"
    using no_lease_without_session [OF D(2) that] D(5) [OF that] by simp
  then have S: "map_of S k = Some rec \<Longrightarrow> sh_key (sr_handle rec) = k \<and>
      sr_ref_count rec = leases_on k (reg_leases (w_reg w)) + releasing k (w_tasks w)" for k rec
    using D(3) h by (auto simp: S_def update_conv' split: option.splits if_splits)
  show ?thesis
  proof (rule counts_lease [OF E N i, where S = S and key = key and ck = ck and now = now])
    show "leases_ok S (reg_leases (w_reg w)) (reg_lease_seq (w_reg w))"
      using D(2) by (auto simp: S_def leases_ok_def update_conv' split: option.splits)
    show "\<And>k. map_of S k = None \<Longrightarrow> releasing k (w_tasks w) = 0"
      using D(5) by (auto simp: S_def update_conv' split: option.splits if_splits)
  qed (use S r D(1) task in \<open>auto simp: S_def update_conv' split: option.splits\<close>)
qed

text \<open>The sections that hand out or take back a lease; the others do not touch what is counted.\<close>

fun moves_lease :: "instant \<Rightarrow> registry \<Rightarrow> task \<Rightarrow> bool" where
  "moves_lease now r (AqLoop key ck g) = (try_reuse now key ck r \<noteq> None)"
| "moves_lease now r (AqInstall key ck h) = True"
| "moves_lease now r (RlStart i) = (take_lease i r \<noteq> None)"
| "moves_lease now r (RlDrop key) = True"
| "moves_lease now r t = False"

lemma unmoved_section:
  assumes "task_step now out t w = Some (t', w')" and "\<not> moves_lease now (w_reg w) t"
    and "attach_or_release t"
  shows "same_but_gates (w_reg w) (w_reg w')"
    and "attach_or_release t'" and "attaching t' \<Longrightarrow> attaching t"
    and "t' \<noteq> RlDrop k" and "t \<noteq> RlDrop k"
proof -
  have "same_but_gates (w_reg w) (w_reg w') \<and> attach_or_release t' \<and> (attaching t' \<longrightarrow> attaching t) \<and>
      t' \<noteq> RlDrop k \<and> t \<noteq> RlDrop k"
  proof (cases t)
    case (AqEnter key ck)
    with assms show ?thesis by (auto split: prod.splits dest: gate_for_same)
  next
    case (AqGate key ck g)
    with assms show ?thesis by (auto split: prod.splits gate_entry.splits dest: enter_gate_same)
  qed (use assms in \<open>auto simp: on_reg_def split: option.splits sum.splits if_splits\<close>)
  then show "same_but_gates (w_reg w) (w_reg w')"
    and "attach_or_release t'" and "attaching t' \<Longrightarrow> attaching t"
    and "t' \<noteq> RlDrop k" and "t \<noteq> RlDrop k" by simp_all
qed

lemma counts_moved:
  assumes E: "counts_exact N w" and N: "N < 2 ^ 64" and i: "i < length (w_tasks w)"
    and st: "task_step now out (w_tasks w ! i) w = Some (t, w1)"
    and moves: "moves_lease now (w_reg w) (w_tasks w ! i)"
  shows "counts_exact N (w1\<lparr>w_tasks := (w_tasks w)[i := t]\<rparr>)"
proof (cases "w_tasks w ! i")
  case (AqLoop key ck g)
  with st moves show ?thesis using counts_reuse [OF E N i AqLoop] by fastforce
next
  case (AqInstall key ck h)
  with st show ?thesis using counts_install [OF E N i AqInstall] by (auto split: prod.splits)
next
  case (RlStart j)
  with st moves show ?thesis using counts_take_lease [OF E i RlStart] by fastforce
next
  case (RlDrop key)
  with st show ?thesis using counts_drop_ref [OF E i RlDrop] by (auto split: prod.splits)
qed (use moves in simp_all)

lemma counts_exact_step:
  assumes E: "counts_exact N w" and N: "N < 2 ^ 64" and st: "step w w'"
  shows "counts_exact N w'"
  using st
proof cases
  case (run i now out t w1)
  note i = run(2) and st = run(3)
  have ti: "attach_or_release (w_tasks w ! i)" using i counts_exactD(4) [OF E] by simp
  show ?thesis
  proof (cases "moves_lease now (w_reg w) (w_tasks w ! i)")
    case True
    with counts_moved [OF E N i st] run(1) show ?thesis by simp
  next
    case False
    from counts_same [OF E i unmoved_section [OF st False ti]] run(1) show ?thesis by simp
  qed
qed

fun fresh_client :: "task \<Rightarrow> bool" where
  "fresh_client (AqStart _ _) = True"
| "fresh_client (RlStart _) = True"
| "fresh_client _ = False"

lemma counts_exact_initial:
  assumes "list_all fresh_client ts"
  shows "counts_exact (1 + length ts) (initial_world ttl ts)"
proof -
  have "attach_or_release t \<and> (\<forall>k. t \<noteq> RlDrop k)" if "t \<in> set ts" for t
    using assms that by (cases t) (auto simp: list_all_iff)
  then have "\<forall>t \<in> set ts. attach_or_release t" "\<And>k. releasing k ts = 0"
    by (auto simp: releasing_def filter_empty_conv)
  then show ?thesis
    by (auto simp: counts_exact_def Let_def initial_world_def with_idle_ttl_def leases_ok_def
        intro: order_trans [OF length_filter_le])
qed

text \<open>C6: however any number of attaches and releases interleave, the reference count of a session
  is the number of leases on it plus the releases that have taken their lease out and not yet
  reached the session; so a session with a lease always has a positive count and is never picked
  by the idle scan.\<close>

theorem concurrent_counts_exact:
  assumes clients: "list_all fresh_client ts" and few: "length ts + 1 < 2 ^ 64"
    and reach: "reachable (initial_world ttl ts) w"
    and k: "map_of (reg_sessions (w_reg w)) k = Some rec"
  shows "sr_ref_count rec = leases_on k (reg_leases (w_reg w)) + releasing k (w_tasks w) \<and>
    (leases_on k (reg_leases (w_reg w)) > 0 \<longrightarrow>
       \<not> is_idle_candidate now (reg_idle_ttl (w_reg w)) rec)"
proof -
  have "counts_exact (1 + length ts) w"
    by (rule reachable_invariant [where I = "counts_exact (1 + length ts)", OF reach])
      (use few counts_exact_initial [OF clients] counts_exact_step in simp_all)
  from counts_exactD(3) [OF this k] show ?thesis by (simp add: is_idle_candidate_def)
qed

text \<open>Two attaches and a release of the first lease, the release halfway.\<close>

definition halfway_release :: "(nat \<times> instant \<times> json result) list" where
  "halfway_release = map (\<lambda>i. (i, 5, Inr JNull)) [0, 0, 0, 0, 0, 0, 0, 1, 1, 1, 2]"

definition halfway_world :: world where
  "halfway_world = the (run_schedule halfway_release
     (initial_world 300 [AqStart race_key None, AqStart race_key None, RlStart (lease_name 1)]))"

lemma halfway_reachable:
  "reachable (initial_world 300 [AqStart race_key None, AqStart race_key None, RlStart (lease_name 1)])
     halfway_world"
proof -
  have "run_schedule halfway_release
     (initial_world 300 [AqStart race_key None, AqStart race_key None, RlStart (lease_name 1)]) \<noteq> None"
    by code_simp
  then show ?thesis unfolding halfway_world_def by (intro run_schedule_reachable) auto
qed

lemma halfway_session:
  "map_of (reg_sessions (w_reg halfway_world)) race_key =
     Some \<lparr>sr_handle = \<lparr>sh_key = race_key, sh_runtime = 0, sh_initialize_result = JNull\<rparr>,
       sr_ref_count = 2, sr_last_used = 5, sr_terminating = False, sr_termination_notice = None\<rparr>"
  by code_simp

lemma halfway_leases: "leases_on race_key (reg_leases (w_reg halfway_world)) = 1"
  by code_simp

theorem concurrent_counts_exact_witness:
  "2 = leases_on race_key (reg_leases (w_reg halfway_world)) + releasing race_key (w_tasks halfway_world) \<and>
    \<not> is_idle_candidate 999 (reg_idle_ttl (w_reg halfway_world))
        (the (map_of (reg_sessions (w_reg halfway_world)) race_key))"
  using concurrent_counts_exact [OF _ _ halfway_reachable halfway_session, of 999] halfway_leases
  by (simp add: halfway_session)

text \<open>A task waiting on a gate another task spawns behind.\<close>

definition waiting_schedule :: "(nat \<times> instant \<times> json result) list" where
  "waiting_schedule = map (\<lambda>i. (i, 5, Inr JNull)) [0, 0, 0, 0, 1, 1, 1, 1]"

definition waiting_world :: world where
  "waiting_world = the (run_schedule waiting_schedule
     (initial_world 300 [AqStart race_key None, AqStart race_key None]))"

lemma waiting_reachable:
  "reachable (initial_world 300 [AqStart race_key None, AqStart race_key None]) waiting_world"
proof -
  have "run_schedule waiting_schedule
     (initial_world 300 [AqStart race_key None, AqStart race_key None]) \<noteq> None"
    by code_simp
  then show ?thesis unfolding waiting_world_def by (intro run_schedule_reachable) auto
qed

lemma waiting_facts:
  "length (reg_gate_heap (w_reg waiting_world)) = 1"
  "\<not> list_all task_finished (w_tasks waiting_world)"
  by code_simp+

theorem spawn_gate_protocol_witness:
  "length (filter (\<lambda>t. spawning_gate t = Some 0) (w_tasks waiting_world)) =
      (if sg_started (reg_gate_heap (w_reg waiting_world) ! 0) then 1 else 0) \<and>
    list_all (waits_in_time (reg_gate_heap (w_reg waiting_world))) (w_tasks waiting_world)"
  by (rule spawn_gate_protocol [OF _ waiting_reachable]) (simp_all add: waiting_facts)

theorem registry_deadlock_free_witness: "\<exists>w'. step waiting_world w'"
  by (rule registry_deadlock_free [OF _ waiting_reachable]) (simp_all add: waiting_facts)

text \<open>C8: the gate does not keep a session to one spawn. It is reopened before the new session is
  stored, so a second first attach can pass it in between: both attaches succeed, two processes
  have been started for the one key, and the registry holds a handle to the first only.\<close>

theorem attach_race_spawns_twice:
  "\<exists>w. reachable (initial_world 300 [AqStart race_key None, AqStart race_key None]) w \<and>
     list_all task_finished (w_tasks w) \<and> w_alive w = [1, 0] \<and>
     map (\<lambda>h. (sh_key h, sh_runtime h)) (all_handles (w_reg w)) = [(race_key, 0)]"
  using double_spawn_run run_schedule_reachable
  by (fastforce simp: map_option_eq_Some)

text \<open>C9: an attach that reuses a session the idle scan has picked gets a lease on a stopped process,
  and the eviction that is under way then wipes the lease: the attach has succeeded, and neither
  lease nor session exists. When it reuses a session that the memory monitor has marked, the mark and
  its notice are gone: while the process is stopped already, the session counts as live, so that calls
  on all its leases go to the dead process and are not refused as evicted.\<close>

theorem eviction_wipes_fresh_lease:
  "(\<exists>w. reachable (initial_world 300 [AqStart race_key None, RlStart (lease_name 1), EvScan,
           AqStart race_key None]) w \<and>
     w_tasks w ! 3 = AqDone (Inr \<lparr>le_id = lease_name 2, le_key = race_key\<rparr>) \<and>
     w_alive w = [] \<and> reg_leases (w_reg w) = [] \<and> all_handles (w_reg w) = []) \<and>
   (\<exists>w rec. reachable (initial_world 300 revived_tasks) w \<and>
     w_tasks w ! 2 = AqDone (Inr \<lparr>le_id = lease_name 2, le_key = race_key\<rparr>) \<and>
     w_alive w = [] \<and> map_of (reg_sessions (w_reg w)) race_key = Some rec \<and>
     \<not> sr_terminating rec \<and> sr_termination_notice rec = None \<and>
     lease_owner (w_reg w) (lease_name 1) = Some race_key)"
proof
  show "\<exists>w. reachable (initial_world 300 [AqStart race_key None, RlStart (lease_name 1), EvScan,
           AqStart race_key None]) w \<and>
     w_tasks w ! 3 = AqDone (Inr \<lparr>le_id = lease_name 2, le_key = race_key\<rparr>) \<and>
     w_alive w = [] \<and> reg_leases (w_reg w) = [] \<and> all_handles (w_reg w) = []"
    using evicted_lease_run run_schedule_reachable
    by (fastforce simp: map_option_eq_Some)
  show "\<exists>w rec. reachable (initial_world 300 revived_tasks) w \<and>
     w_tasks w ! 2 = AqDone (Inr \<lparr>le_id = lease_name 2, le_key = race_key\<rparr>) \<and>
     w_alive w = [] \<and> map_of (reg_sessions (w_reg w)) race_key = Some rec \<and>
     \<not> sr_terminating rec \<and> sr_termination_notice rec = None \<and>
     lease_owner (w_reg w) (lease_name 1) = Some race_key"
    using revived_run run_schedule_reachable
    by (fastforce simp: map_option_eq_Some Option.is_none_def split: option.splits)
qed

end
