(* ===== verification/Lspee_Eviction.thy ===== *)
theory Lspee_Eviction
  imports Lspee_Memory
begin

section \<open>Eviction\<close>

text \<open>
  \<open>crates/lspee_daemon/src/eviction.rs\<close>: the tick of the eviction loop with its two duties, the
  idle sessions and the daemon's own idle time, and \<open>shutdown_all_sessions\<close> of \<open>lib.rs\<close>. What
  the three ways of ending a session share (this one, the memory monitor's and the final
  shutdown's) is the locale \<open>session_evictor\<close>; each of them is an interpretation.
\<close>

definition EVICTION_TICK :: duration where "EVICTION_TICK = from_secs 1"

fun evict_idle ::
  "(nat \<Rightarrow> unit result) \<Rightarrow> session_handle list \<Rightarrow> registry \<Rightarrow> registry \<times> evict_effect list" where
  "evict_idle shutdown [] r = (r, [])"
| "evict_idle shutdown (h # hs) r =
     (let es1 = stop_runtime shutdown (sh_runtime h);
          (r2, es2) = evict_idle shutdown hs (increment_idle_gc (remove (sh_key h) r))
      in (r2, es1 @ es2))"

text \<open>
  \<open>since\<close> is \<open>daemon_idle_since\<close>; the tick answers whether it asks the daemon to stop and leaves
  the loop. \<open>now\<close> is the clock at the idle scan, \<open>now'\<close> the clock after the evictions.
\<close>

record eviction_state =
  es_registry :: registry
  es_idle_since :: "instant option"

definition daemon_idle_check ::
  "instant \<Rightarrow> duration option \<Rightarrow> eviction_state \<Rightarrow> eviction_state \<times> bool" where
  "daemon_idle_check now daemon_idle_ttl s =
     (case daemon_idle_ttl of
        None \<Rightarrow> (s, False)
      | Some ttl \<Rightarrow>
          (if session_count (es_registry s) = 0 then
             (let idle_since = unwrap_or (es_idle_since s) now;
                  s1 = s\<lparr>es_idle_since := Some idle_since\<rparr>
              in (s1, now - idle_since \<ge> ttl))
           else (s\<lparr>es_idle_since := None\<rparr>, False)))"

definition eviction_tick ::
  "instant \<Rightarrow> instant \<Rightarrow> (nat \<Rightarrow> unit result) \<Rightarrow> duration option \<Rightarrow> eviction_state
     \<Rightarrow> eviction_state \<times> evict_effect list \<times> bool" where
  "eviction_tick now now' shutdown daemon_idle_ttl s =
     (let (candidates, r1) = idle_candidates now (es_registry s);
          (r2, es) = evict_idle shutdown candidates r1;
          (s', stop) = daemon_idle_check now' daemon_idle_ttl (s\<lparr>es_registry := r2\<rparr>)
      in (s', es, stop))"

definition eviction_start :: "instant \<Rightarrow> registry \<Rightarrow> eviction_state" where
  "eviction_start now r = \<lparr>es_registry = r, es_idle_since = Some now\<rparr>"

text \<open>
  Consecutive ticks with what other tasks do to the registry before each; \<open>True\<close> when the loop
  has asked for the shutdown.
\<close>

fun eviction_loop ::
  "(nat \<Rightarrow> unit result) \<Rightarrow> duration option \<Rightarrow> (instant \<times> instant \<times> (registry \<Rightarrow> registry)) list
     \<Rightarrow> eviction_state \<Rightarrow> eviction_state \<times> bool" where
  "eviction_loop shutdown ttl [] s = (s, False)"
| "eviction_loop shutdown ttl ((now, now', others) # ticks) s =
     (case eviction_tick now now' shutdown ttl (s\<lparr>es_registry := others (es_registry s)\<rparr>) of
        (s', _, True) \<Rightarrow> (s', True)
      | (s', _, False) \<Rightarrow> eviction_loop shutdown ttl ticks s')"

text \<open>\<open>shutdown_all_sessions\<close> when the daemon stops.\<close>

fun shutdown_handles ::
  "(nat \<Rightarrow> unit result) \<Rightarrow> session_handle list \<Rightarrow> registry \<Rightarrow> registry \<times> evict_effect list" where
  "shutdown_handles shutdown [] r = (r, [])"
| "shutdown_handles shutdown (h # hs) r =
     (let es1 = stop_runtime shutdown (sh_runtime h);
          (r2, es2) = shutdown_handles shutdown hs (remove (sh_key h) r)
      in (r2, es1 @ es2))"

definition shutdown_all_sessions ::
  "(nat \<Rightarrow> unit result) \<Rightarrow> registry \<Rightarrow> registry \<times> evict_effect list" where
  "shutdown_all_sessions shutdown r = shutdown_handles shutdown (all_handles r) r"

subsection \<open>What every eviction promises\<close>

locale session_evictor =
  fixes inv :: "'s \<Rightarrow> bool"
    and sessions :: "'s \<Rightarrow> 'k \<Rightarrow> 'v option"
    and leases :: "'s \<Rightarrow> 'i \<Rightarrow> 'k option"
    and target :: "'x \<Rightarrow> 'k"
    and evict :: "'x \<Rightarrow> 's \<Rightarrow> 's \<times> 'e list"
    and stops :: "'x \<Rightarrow> 'e list"
  assumes evict_inv: "inv s \<Longrightarrow> inv (fst (evict x s))"
    and evict_sessions: "inv s \<Longrightarrow> sessions (fst (evict x s)) = (sessions s)(target x := None)"
    and evict_leases: "inv s \<Longrightarrow> leases (fst (evict x s)) i =
      (if leases s i = Some (target x) then None else leases s i)"
    and evict_stops: "set (stops x) \<subseteq> set (snd (evict x s))"
begin

primrec evict_list :: "'x list \<Rightarrow> 's \<Rightarrow> 's \<times> 'e list" where
  "evict_list [] s = (s, [])"
| "evict_list (x # xs) s =
     (let (s1, es1) = evict x s; (s2, es2) = evict_list xs s1 in (s2, es1 @ es2))"

lemma evict_list_fst: "fst (evict_list (x # xs) s) = fst (evict_list xs (fst (evict x s)))"
  by (simp add: split_def Let_def)

lemma evict_list_snd:
  "snd (evict_list (x # xs) s) = snd (evict x s) @ snd (evict_list xs (fst (evict x s)))"
  by (simp add: split_def Let_def)

lemma evict_list_inv: "inv s \<Longrightarrow> inv (fst (evict_list xs s))"
  by (induction xs arbitrary: s) (simp_all add: evict_list_fst evict_inv del: evict_list.simps(2))

lemma evict_list_sessions:
  "inv s \<Longrightarrow> sessions (fst (evict_list xs s)) k = (if k \<in> target ` set xs then None else sessions s k)"
  by (induction xs arbitrary: s)
    (auto simp: evict_list_fst evict_inv evict_sessions simp del: evict_list.simps(2))

lemma evict_list_leases:
  "inv s \<Longrightarrow> leases (fst (evict_list xs s)) i =
     (if leases s i \<in> Some ` target ` set xs then None else leases s i)"
  by (induction xs arbitrary: s)
    (auto simp: evict_list_fst evict_inv evict_leases simp del: evict_list.simps(2))

lemma evict_list_stops: "x \<in> set xs \<Longrightarrow> set (stops x) \<subseteq> set (snd (evict_list xs s))"
proof (induction xs arbitrary: s)
  case Nil
  then show ?case by simp
next
  case (Cons y xs)
  show ?case
  proof (cases "x = y")
    case True
    then show ?thesis
      using evict_stops [of x s] by (auto simp: evict_list_snd simp del: evict_list.simps(2))
  next
    case False
    with Cons have "set (stops x) \<subseteq> set (snd (evict_list xs (fst (evict y s))))" by simp
    then show ?thesis by (auto simp: evict_list_snd simp del: evict_list.simps(2))
  qed
qed

end

lemma remove_effects:
  assumes inv: "registry_inv r"
  shows "map_of (reg_sessions (remove key r)) = (map_of (reg_sessions r))(key := None)"
    and "lease_owner (remove key r) i =
      (if lease_owner r i = Some key then None else lease_owner r i)"
proof -
  have d: "distinct_keys (reg_leases r)" using inv by (simp add: registry_inv_def leases_ok_def)
  show "map_of (reg_sessions (remove key r)) = (map_of (reg_sessions r))(key := None)"
    by (simp add: remove_def drop_gate_def remove_leases_def remove_session_def map_of_delete)
  show "lease_owner (remove key r) i =
      (if lease_owner r i = Some key then None else lease_owner r i)"
    by (simp add: lease_owner_def remove_def drop_gate_def remove_leases_def remove_session_def
        map_of_retain_leases [OF d] split: option.splits)
qed

lemma lease_owner_same [simp]:
  "lease_owner (mark_terminating_with_notice key notice r) = lease_owner r"
  "lease_owner (increment_memory_eviction r) = lease_owner r"
  "lease_owner (increment_idle_gc r) = lease_owner r"
  by (simp_all add: lease_owner_def fun_eq_iff mark_terminating_with_notice_def
      increment_memory_eviction_def increment_idle_gc_def)

definition evict_one_idle ::
  "(nat \<Rightarrow> unit result) \<Rightarrow> session_handle \<Rightarrow> registry \<Rightarrow> registry \<times> evict_effect list" where
  "evict_one_idle shutdown h r =
     (increment_idle_gc (remove (sh_key h) r), stop_runtime shutdown (sh_runtime h))"

definition shutdown_one ::
  "(nat \<Rightarrow> unit result) \<Rightarrow> session_handle \<Rightarrow> registry \<Rightarrow> registry \<times> evict_effect list" where
  "shutdown_one shutdown h r =
     (remove (sh_key h) r, stop_runtime shutdown (sh_runtime h))"

interpretation idle: session_evictor registry_inv "\<lambda>r. map_of (reg_sessions r)" lease_owner sh_key
  "evict_one_idle shutdown" "\<lambda>h. stop_runtime shutdown (sh_runtime h)"
  for shutdown
proof
  fix r :: registry and h i
  assume inv: "registry_inv r"
  show "registry_inv (fst (evict_one_idle shutdown h r))"
    using inv by (simp add: evict_one_idle_def inv_remove inv_increments)
  show "map_of (reg_sessions (fst (evict_one_idle shutdown h r))) =
      (map_of (reg_sessions r))(sh_key h := None)"
    by (simp add: evict_one_idle_def increment_idle_gc_def remove_effects [OF inv])
  show "lease_owner (fst (evict_one_idle shutdown h r)) i =
      (if lease_owner r i = Some (sh_key h) then None else lease_owner r i)"
    by (simp add: evict_one_idle_def remove_effects [OF inv])
qed (simp add: evict_one_idle_def)

interpretation closing: session_evictor registry_inv "\<lambda>r. map_of (reg_sessions r)" lease_owner sh_key
  "shutdown_one shutdown" "\<lambda>h. stop_runtime shutdown (sh_runtime h)"
  for shutdown
  by unfold_locales (simp_all add: shutdown_one_def inv_remove remove_effects)

interpretation mem: session_evictor registry_inv "\<lambda>r. map_of (reg_sessions r)" lease_owner sm_key
  "\<lambda>s. evict_session shutdown s settings" "\<lambda>s. SendEvent (sh_runtime (sm_handle s)) (eviction_notice s settings) #
     stop_runtime shutdown (sh_runtime (sm_handle s))"
  for shutdown settings
proof
  fix r :: registry and s i
  let ?r1 = "mark_terminating_with_notice (sm_key s) (Some (eviction_notice s settings)) r"
  assume inv: "registry_inv r"
  then have inv1: "registry_inv ?r1" by (rule inv_mark_terminating)
  show "registry_inv (fst (evict_session shutdown s settings r))"
    using inv1 by (simp add: evict_session_def Let_def inv_remove inv_increments)
  show "map_of (reg_sessions (fst (evict_session shutdown s settings r))) =
      (map_of (reg_sessions r))(sm_key s := None)"
    by (simp add: evict_session_def Let_def increment_memory_eviction_def remove_effects [OF inv1])
      (auto simp: mark_terminating_with_notice_def fun_eq_iff map_of_map_entry')
  show "lease_owner (fst (evict_session shutdown s settings r)) i =
      (if lease_owner r i = Some (sm_key s) then None else lease_owner r i)"
    by (simp add: evict_session_def Let_def remove_effects [OF inv1])
qed (auto simp: evict_session_def Let_def)

lemma evict_idle_list: "evict_idle shutdown hs r = idle.evict_list shutdown hs r"
  by (induction hs arbitrary: r) (simp_all add: evict_one_idle_def Let_def)

lemma shutdown_handles_list: "shutdown_handles shutdown hs r = closing.evict_list shutdown hs r"
  by (induction hs arbitrary: r) (simp_all add: shutdown_one_def Let_def)

lemma evict_all_list: "evict_all shutdown settings ss r = mem.evict_list shutdown settings ss r"
  by (induction ss arbitrary: r) (simp_all add: Let_def)

subsection \<open>Properties\<close>

lemma stop_runtime_sent: "Shutdown rt \<in> set (stop_runtime shutdown rt)"
  by (simp add: stop_runtime_def split: sum.splits)

lemma stop_runtime_forced: "shutdown rt = Inl e \<Longrightarrow> ForceStop rt \<in> set (stop_runtime shutdown rt)"
  by (simp add: stop_runtime_def)

lemma eviction_tick_registry:
  "eviction_tick now now' shutdown ttl s = (s', es, stop) \<Longrightarrow>
     es_registry s' = fst (evict_idle shutdown (fst (idle_candidates now (es_registry s)))
       (snd (idle_candidates now (es_registry s)))) \<and>
     es = snd (evict_idle shutdown (fst (idle_candidates now (es_registry s)))
       (snd (idle_candidates now (es_registry s)))) \<and>
     (s', stop) = daemon_idle_check now' ttl (s\<lparr>es_registry := es_registry s'\<rparr>)"
  by (auto simp: eviction_tick_def daemon_idle_check_def Let_def split: prod.splits option.splits
      if_splits)

lemma candidate_unleased:
  assumes "registry_inv r" "h \<in> set (fst (idle_candidates now r))"
  shows "lease_owner r i \<noteq> Some (sh_key h)"
proof -
  from assms(2) obtain rec where rec: "map_of (reg_sessions r) (sh_key h) = Some rec"
    "is_idle_candidate now (reg_idle_ttl r) rec"
    by (auto simp: idle_candidates_mem [OF assms(1)])
  then have "sr_ref_count rec = 0" by (simp add: is_idle_candidate_def)
  with session_rec_facts(2) [OF assms(1) rec(1)] show ?thesis by blast
qed

lemma idle_candidates_leases [simp]:
  "lease_owner (snd (idle_candidates now r)) = lease_owner r"
  by (simp add: lease_owner_def fun_eq_iff idle_candidates_def Let_def)

lemma eviction_tick_effect:
  assumes inv: "registry_inv (es_registry s)"
    and tick: "eviction_tick now now' shutdown ttl s = (s', es, stop)"
  shows "registry_inv (es_registry s')"
    and "lease_owner (es_registry s') = lease_owner (es_registry s)"
    and "map_of (reg_sessions (es_registry s')) k =
      (if k \<in> sh_key ` set (fst (idle_candidates now (es_registry s))) then None
       else map_of (reg_sessions (es_registry s)) k)"
    and "es = snd (idle.evict_list shutdown (fst (idle_candidates now (es_registry s)))
      (snd (idle_candidates now (es_registry s))))"
proof -
  let ?r = "es_registry s"
  let ?hs = "fst (idle_candidates now ?r)" and ?r1 = "snd (idle_candidates now ?r)"
  have inv1: "registry_inv ?r1" using inv by (rule inv_idle_candidates)
  from eviction_tick_registry [OF tick]
  have r': "es_registry s' = fst (idle.evict_list shutdown ?hs ?r1)"
    and es: "es = snd (idle.evict_list shutdown ?hs ?r1)"
    by (simp_all add: evict_idle_list)
  show "registry_inv (es_registry s')" by (simp add: r' idle.evict_list_inv [OF inv1])
  have "lease_owner (es_registry s') i = lease_owner ?r i" for i
    using candidate_unleased [OF inv] by (auto simp: r' idle.evict_list_leases [OF inv1])
  then show "lease_owner (es_registry s') = lease_owner ?r" by blast
  have "map_of (reg_sessions ?r1) k = map_of (reg_sessions ?r) k" if "k \<notin> sh_key ` set ?hs"
  proof (cases "map_of (reg_sessions ?r) k")
    case None
    then show ?thesis by (simp add: idle_candidates_map)
  next
    case (Some rec)
    then have "\<not> is_idle_candidate now (reg_idle_ttl ?r) rec"
      using that idle_candidates_mem [OF inv, of "sr_handle rec" now] session_rec_facts(1) [OF inv Some]
      by force
    with Some show ?thesis by (simp add: idle_candidates_map)
  qed
  then show "map_of (reg_sessions (es_registry s')) k =
      (if k \<in> sh_key ` set ?hs then None else map_of (reg_sessions ?r) k)"
    by (auto simp: r' idle.evict_list_sessions [OF inv1])
  show "es = snd (idle.evict_list shutdown ?hs ?r1)" by (fact es)
qed

text \<open>A session with a lease is not picked.\<close>

lemma eviction_tick_leased:
  assumes inv: "registry_inv (es_registry s)"
    and tick: "eviction_tick now now' shutdown ttl s = (s', es, stop)"
    and owner: "lease_owner (es_registry s) i = Some k"
  shows "map_of (reg_sessions (es_registry s')) k = map_of (reg_sessions (es_registry s)) k"
proof -
  have "k \<notin> sh_key ` set (fst (idle_candidates now (es_registry s)))"
    using candidate_unleased [OF inv] owner by force
  then show ?thesis by (simp add: eviction_tick_effect(3) [OF inv tick])
qed

lemma eviction_tick_gates:
  assumes "eviction_tick now now' shutdown ttl s = (s', es, stop)"
  shows "same_gates_seq (es_registry s) (es_registry s')"
proof -
  have "same_gates_seq r (fst (evict_idle shutdown hs r))" for hs r
    by (induction hs arbitrary: r)
      (simp_all add: same_gates_seq_def Let_def split_def remove_def remove_leases_def remove_session_def
        drop_gate_def increment_idle_gc_def)
  moreover have "same_gates_seq r (snd (idle_candidates now r))" for r
    by (simp add: same_gates_seq_def idle_candidates_def Let_def)
  ultimately show ?thesis
    using eviction_tick_registry [OF assms] by (metis same_gates_seq_def)
qed

text \<open>C18: a tick of the eviction loop removes exactly the sessions the idle scan picks and no lease;
  each of their processes is asked to shut down and, where that fails, stopped by force; the
  other sessions are left as they were and the invariant holds.\<close>

theorem eviction_tick_idle:
  assumes inv: "registry_inv (es_registry s)"
    and tick: "eviction_tick now now' shutdown ttl s = (s', es, stop)"
  shows "registry_inv (es_registry s') \<and>
    lease_owner (es_registry s') = lease_owner (es_registry s) \<and>
    (\<forall>k. map_of (reg_sessions (es_registry s')) k =
       (if k \<in> sh_key ` set (fst (idle_candidates now (es_registry s))) then None
        else map_of (reg_sessions (es_registry s)) k)) \<and>
    (\<forall>h \<in> set (fst (idle_candidates now (es_registry s))).
       Shutdown (sh_runtime h) \<in> set es \<and>
       (\<not> is_ok (shutdown (sh_runtime h)) \<longrightarrow> ForceStop (sh_runtime h) \<in> set es))"
proof -
  let ?hs = "fst (idle_candidates now (es_registry s))"
  note effect = eviction_tick_effect [OF inv tick]
  have "Shutdown (sh_runtime h) \<in> set es \<and>
       (\<not> is_ok (shutdown (sh_runtime h)) \<longrightarrow> ForceStop (sh_runtime h) \<in> set es)"
    if "h \<in> set ?hs" for h
    using idle.evict_list_stops [OF that, of shutdown "snd (idle_candidates now (es_registry s))"]
      stop_runtime_sent [of "sh_runtime h" shutdown] stop_runtime_forced [of shutdown "sh_runtime h"]
    by (cases "shutdown (sh_runtime h)") (auto simp: effect(4))
  with effect(1-3) show ?thesis by blast
qed

text \<open>A registry whose session has been released at time 9, so that it is idle at 400.\<close>

definition idle_demo :: registry where
  "idle_demo = release_many 9 [lease_name 1, lease_name 2] demo_registry"

lemma idle_demo_inv [simp]: "registry_inv idle_demo"
  unfolding idle_demo_def by (rule inv_release_many) simp

lemma idle_demo_candidates: "map sh_key (fst (idle_candidates 400 idle_demo)) = [demo_key]"
  by code_simp

definition idle_demo_tick :: "eviction_state \<times> evict_effect list \<times> bool" where
  "idle_demo_tick = eviction_tick 400 401 (\<lambda>_. Inl ''hung'') None (eviction_start 0 idle_demo)"

theorem eviction_tick_idle_witness:
  "registry_inv (es_registry (fst idle_demo_tick)) \<and>
    lease_owner (es_registry (fst idle_demo_tick)) = lease_owner idle_demo \<and>
    map_of (reg_sessions (es_registry (fst idle_demo_tick))) demo_key = None \<and>
    (\<exists>h :: session_handle. sh_key h = demo_key \<and> Shutdown (sh_runtime h) \<in> set (fst (snd idle_demo_tick)) \<and>
       ForceStop (sh_runtime h) \<in> set (fst (snd idle_demo_tick)))"
proof -
  obtain h where hs: "fst (idle_candidates 400 idle_demo) = [h]" and h: "sh_key h = demo_key"
    using idle_demo_candidates by auto
  have reg: "es_registry (eviction_start 0 idle_demo) = idle_demo" by (simp add: eviction_start_def)
  have inv: "registry_inv (es_registry (eviction_start 0 idle_demo))" by (simp add: reg)
  have tick: "eviction_tick 400 401 (\<lambda>_. Inl ''hung'') None (eviction_start 0 idle_demo) =
      (fst idle_demo_tick, fst (snd idle_demo_tick), snd (snd idle_demo_tick))"
    by (simp add: idle_demo_tick_def)
  from eviction_tick_idle [OF inv tick] have
    "registry_inv (es_registry (fst idle_demo_tick))"
    "lease_owner (es_registry (fst idle_demo_tick)) = lease_owner idle_demo"
    "map_of (reg_sessions (es_registry (fst idle_demo_tick))) demo_key = None"
    "Shutdown (sh_runtime h) \<in> set (fst (snd idle_demo_tick))"
    "ForceStop (sh_runtime h) \<in> set (fst (snd idle_demo_tick))"
    by (simp_all add: reg hs h)
  with h show ?thesis by blast
qed

text \<open>What a tick of the memory monitor leaves alone.\<close>

lemma memory_tick_keeps:
  assumes inv: "registry_inv r" and tick: "memory_tick now rss shutdown settings r = (r', es)"
  shows "registry_inv r'" and "same_gates_seq r r'"
    and "k \<notin> sm_key ` set (select_evictions (collect_samples now rss r) settings) \<Longrightarrow>
      map_of (reg_sessions r') k = map_of (reg_sessions r) k"
    and "lease_owner r i \<notin> Some ` sm_key ` set (select_evictions (collect_samples now rss r) settings) \<Longrightarrow>
      lease_owner r' i = lease_owner r i"
proof -
  have "same_gates_seq r (fst (evict_all shutdown settings ss r))" for ss r
    by (induction ss arbitrary: r)
      (simp_all add: same_gates_seq_def Let_def split_def evict_session_def remove_def remove_leases_def
        remove_session_def drop_gate_def increment_memory_eviction_def mark_terminating_with_notice_def)
  with tick show "same_gates_seq r r'"
    by (auto simp: memory_tick_def same_gates_seq_def split: if_splits) (metis fst_conv)+
  show "registry_inv r'" and "k \<notin> sm_key ` set (select_evictions (collect_samples now rss r) settings) \<Longrightarrow>
      map_of (reg_sessions r') k = map_of (reg_sessions r) k"
    and "lease_owner r i \<notin> Some ` sm_key ` set (select_evictions (collect_samples now rss r) settings) \<Longrightarrow>
      lease_owner r' i = lease_owner r i"
    using tick inv mem.evict_list_inv [OF inv, of shutdown settings]
      mem.evict_list_sessions [OF inv, of shutdown settings]
      mem.evict_list_leases [OF inv, of shutdown settings]
    by (auto simp: memory_tick_def evict_all_list split: if_splits dest!: arg_cong [where f = fst])
qed

text \<open>Without a total limit only a session whose process is over the limit for one session is taken.\<close>

definition within_limits :: "memory_budget_settings \<Rightarrow> u64 option result \<Rightarrow> bool" where
  "within_limits settings rss =
     (mb_max_total_bytes settings = None \<and>
      (case mb_max_session_bytes settings of
         None \<Rightarrow> True
       | Some m \<Rightarrow> (case rss of Inr (Some n) \<Rightarrow> n | _ \<Rightarrow> 0) \<le> m))"

lemma within_limits_spared:
  assumes inv: "registry_inv r" and rec: "map_of (reg_sessions r) k = Some rec"
    and limits: "within_limits settings (rss (sh_runtime (sr_handle rec)))"
  shows "k \<notin> sm_key ` set (select_evictions (collect_samples now rss r) settings)"
proof
  assume "k \<in> sm_key ` set (select_evictions (collect_samples now rss r) settings)"
  then obtain s where s: "s \<in> set (select_evictions (collect_samples now rss r) settings)" "sm_key s = k"
    by blast
  from limits have "mb_max_total_bytes settings = None" by (simp add: within_limits_def)
  with s(1) have "s \<in> set (over_session_limit settings (collect_samples now rss r))"
    using dedupe_loop_facts(1)
    by (fastforce simp: select_evictions_def Let_def over_total_limit_def dedupe_by_key_def)
  then obtain m where m: "mb_max_session_bytes settings = Some m" "m < sm_rss_bytes s"
      and mem: "s \<in> set (collect_samples now rss r)" by (auto simp: over_set)
  then obtain k' rec' where rec': "(k', rec') \<in> set (reg_sessions r)" "sm_key s = sh_key (sr_handle rec')"
      "sm_rss_bytes s = (case rss (sh_runtime (sr_handle rec')) of Inr (Some n) \<Rightarrow> n | _ \<Rightarrow> 0)"
    by (auto simp: collect_samples_def memory_snapshots_def memory_sample_from_snapshot_def)
  from inv rec'(1) have "map_of (reg_sessions r) k' = Some rec'"
    by (auto simp: registry_inv_def sessions_ok_def distinct_keys_def intro: map_of_is_SomeI)
  with session_rec_facts(1) [OF inv this] rec rec'(2) s(2) have "rec' = rec" by simp
  with limits m rec'(3) show False by (simp add: within_limits_def not_le [symmetric])
qed


definition memory_demo :: "registry \<times> evict_effect list" where
  "memory_demo = memory_tick 20 (\<lambda>_. Inr (Some 5000)) (\<lambda>_. Inr ()) demo_budget demo_registry"

lemma memory_demo_selection:
  "map sm_key (select_evictions (collect_samples 20 (\<lambda>_. Inr (Some 5000)) demo_registry) demo_budget) =
     [demo_key]"
  by code_simp


text \<open>Stopping the daemon ends every session: afterwards there is neither a session nor a lease,
  and every process has been asked to shut down.\<close>

lemma shutdown_all_empties:
  assumes inv: "registry_inv r"
  shows "reg_sessions (fst (shutdown_all_sessions shutdown r)) = [] \<and>
    reg_leases (fst (shutdown_all_sessions shutdown r)) = [] \<and>
    (\<forall>h \<in> set (all_handles r). Shutdown (sh_runtime h) \<in> set (snd (shutdown_all_sessions shutdown r)))"
proof -
  let ?r = "fst (shutdown_all_sessions shutdown r)"
  have inv': "registry_inv ?r"
    by (simp add: shutdown_all_sessions_def shutdown_handles_list closing.evict_list_inv [OF inv])
  have "map_of (reg_sessions ?r) k = None" for k
  proof (cases "map_of (reg_sessions r) k")
    case None
    then show ?thesis
      by (simp add: shutdown_all_sessions_def shutdown_handles_list closing.evict_list_sessions [OF inv])
  next
    case (Some rec)
    then have "k \<in> sh_key ` set (all_handles r)"
      using session_rec_facts(1) [OF inv Some]
      by (force simp: all_handles_def session_mem_iff [OF inv, symmetric])
    then show ?thesis
      by (simp add: shutdown_all_sessions_def shutdown_handles_list closing.evict_list_sessions [OF inv])
  qed
  then have none: "reg_sessions ?r = []" by (cases "reg_sessions ?r") (auto, metis option.discI)
  have "reg_leases ?r = []"
  proof (rule ccontr)
    assume "reg_leases ?r \<noteq> []"
    then obtain i l ls where "reg_leases ?r = (i, l) # ls" by (cases "reg_leases ?r") auto
    then have "map_of (reg_leases ?r) i = Some l" by simp
    with lease_session [OF inv'] none show False by fastforce
  qed
  moreover have "Shutdown (sh_runtime h) \<in> set (snd (shutdown_all_sessions shutdown r))"
    if "h \<in> set (all_handles r)" for h
    using closing.evict_list_stops [OF that, of shutdown r] stop_runtime_sent
    by (auto simp: shutdown_all_sessions_def shutdown_handles_list)
  ultimately show ?thesis using none by blast
qed

text \<open>The clock and the number of sessions at each tick the loop runs.\<close>

fun idle_trace ::
  "(nat \<Rightarrow> unit result) \<Rightarrow> duration option \<Rightarrow> (instant \<times> instant \<times> (registry \<Rightarrow> registry)) list
     \<Rightarrow> eviction_state \<Rightarrow> (instant \<times> nat) list" where
  "idle_trace shutdown ttl [] s = []"
| "idle_trace shutdown ttl ((now, now', others) # ticks) s =
     (case eviction_tick now now' shutdown ttl (s\<lparr>es_registry := others (es_registry s)\<rparr>) of
        (s', _, stop) \<Rightarrow> (now', session_count (es_registry s')) #
          (if stop then [] else idle_trace shutdown ttl ticks s'))"

lemma tick_idle_check:
  assumes "eviction_tick now now' shutdown (Some d) s = (s', es, stop)"
  shows "(if session_count (es_registry s') = 0
     then es_idle_since s' = Some (unwrap_or (es_idle_since s) now') \<and>
       stop = (d \<le> now' - unwrap_or (es_idle_since s) now')
     else es_idle_since s' = None \<and> \<not> stop)"
  using eviction_tick_registry [OF assms] by (auto simp: daemon_idle_check_def Let_def split: if_splits)

text \<open>How long the daemon has been without a session when the loop stops.\<close>

definition idle_long_enough :: "duration \<Rightarrow> instant option \<Rightarrow> (instant \<times> nat) list \<Rightarrow> bool" where
  "idle_long_enough d since tr = (\<exists>pre idle. tr = pre @ idle \<and> idle \<noteq> [] \<and>
     (\<forall>(_, n) \<in> set idle. n = 0) \<and>
     (if pre = [] then d \<le> fst (last idle) - unwrap_or since (fst (hd idle))
      else snd (last pre) \<noteq> 0 \<and> d \<le> fst (last idle) - fst (hd idle)))"

lemma idle_long_enough_busy:
  assumes "idle_long_enough d None tr" "n \<noteq> 0"
  shows "idle_long_enough d since ((now, n) # tr)"
proof -
  from assms(1) obtain pre idle where p: "tr = pre @ idle" "idle \<noteq> []"
    "\<forall>(_, n) \<in> set idle. n = 0"
    "if pre = [] then d \<le> fst (last idle) - fst (hd idle)
      else snd (last pre) \<noteq> 0 \<and> d \<le> fst (last idle) - fst (hd idle)"
    unfolding idle_long_enough_def unwrap_or_simps by blast
  with assms(2) show ?thesis
    unfolding idle_long_enough_def
    by (intro exI [of _ "(now, n) # pre"] exI [of _ idle]) (auto split: if_splits)
qed

lemma idle_long_enough_idle:
  assumes "idle_long_enough d (Some (unwrap_or since now)) tr"
  shows "idle_long_enough d since ((now, 0) # tr)"
proof -
  from assms obtain pre idle where p: "tr = pre @ idle" "idle \<noteq> []"
    "\<forall>(_, n) \<in> set idle. n = 0"
    "if pre = [] then d \<le> fst (last idle) - unwrap_or since now
      else snd (last pre) \<noteq> 0 \<and> d \<le> fst (last idle) - fst (hd idle)"
    unfolding idle_long_enough_def unwrap_or_simps by blast
  show ?thesis
  proof (cases "pre = []")
    case True
    with p show ?thesis
      unfolding idle_long_enough_def
      by (intro exI [of _ "[]"] exI [of _ "(now, 0) # idle"]) auto
  next
    case False
    with p show ?thesis
      unfolding idle_long_enough_def
      by (intro exI [of _ "(now, 0) # pre"] exI [of _ idle]) auto
  qed
qed

lemma eviction_loop_idle:
  "eviction_loop shutdown (Some d) ticks s = (s', True) \<Longrightarrow>
     session_count (es_registry s') = 0 \<and>
     idle_long_enough d (es_idle_since s) (idle_trace shutdown (Some d) ticks s)"
proof (induction ticks arbitrary: s)
  case Nil
  then show ?case by simp
next
  case (Cons tick ticks)
  obtain now now' others where tick: "tick = (now, now', others)" by (cases tick)
  let ?s = "s\<lparr>es_registry := others (es_registry s)\<rparr>"
  obtain s1 es stop where st: "eviction_tick now now' shutdown (Some d) ?s = (s1, es, stop)"
    by (cases "eviction_tick now now' shutdown (Some d) ?s")
  note chk = tick_idle_check [OF st]
  show ?case
  proof (cases stop)
    case True
    with chk have z: "session_count (es_registry s1) = 0" "d \<le> now' - unwrap_or (es_idle_since s) now'"
      by (auto split: if_splits)
    have "idle_long_enough d (es_idle_since s) [(now', 0)]"
      unfolding idle_long_enough_def
      using z by (intro exI [of _ "[]"] exI [of _ "[(now', 0)]"]) simp
    with True z Cons.prems st show ?thesis by (simp add: tick)
  next
    case False
    with Cons.prems st have loop: "eviction_loop shutdown (Some d) ticks s1 = (s', True)"
      by (simp add: tick)
    from Cons.IH [OF loop] have z: "session_count (es_registry s') = 0"
      and tr: "idle_long_enough d (es_idle_since s1) (idle_trace shutdown (Some d) ticks s1)" by auto
    have "idle_long_enough d (es_idle_since s)
        ((now', session_count (es_registry s1)) # idle_trace shutdown (Some d) ticks s1)"
    proof (cases "session_count (es_registry s1) = 0")
      case True
      with chk tr show ?thesis by (simp add: idle_long_enough_idle)
    next
      case busy: False
      with chk tr show ?thesis by (simp add: idle_long_enough_busy)
    qed
    with z False st show ?thesis by (simp add: tick)
  qed
qed

lemma eviction_loop_disabled: "\<not> snd (eviction_loop shutdown None ticks s)"
proof (induction ticks arbitrary: s)
  case (Cons tick ticks)
  obtain now now' others where "tick = (now, now', others)" by (cases tick)
  with Cons show ?case
    by (auto simp: eviction_tick_def daemon_idle_check_def Let_def split: prod.splits bool.splits)
qed simp



end
