(* ===== verification/Lspee_Registry_Solo.thy ===== *)
theory Lspee_Registry_Solo
  imports Lspee_Registry_Conc Lspee_Eviction
begin

section \<open>Tasks that run undisturbed\<close>

text \<open>
  The two models of the registry agree. A task of \<open>Lspee_Registry_Conc\<close> that is scheduled without
  interruption does what the operation of \<open>Lspee_Registry\<close>, or the round of \<open>Lspee_Eviction\<close> or
  \<open>Lspee_Memory\<close>, does in one piece; an attach that the operation cannot finish is a task that waits.
\<close>

text \<open>\<open>n\<close> sections of one task; \<open>None\<close> when it is blocked or finished before.\<close>

primrec solo :: "nat \<Rightarrow> instant \<Rightarrow> json result \<Rightarrow> task \<Rightarrow> world \<Rightarrow> (task \<times> world) option" where
  "solo 0 now out t w = Some (t, w)"
| "solo (Suc n) now out t w =
     (case task_step now out t w of None \<Rightarrow> None | Some (t1, w1) \<Rightarrow> solo n now out t1 w1)"

lemma solo_add: "solo m now out t w = Some (t1, w1) \<Longrightarrow> solo (m + n) now out t w = solo n now out t1 w1"
  by (induction m arbitrary: t w) (auto split: option.splits)

text \<open>A section does not look at the other tasks.\<close>

lemma task_step_tasks:
  "task_step now out t (w\<lparr>w_tasks := ts\<rparr>) =
     map_option (map_prod id (\<lambda>w1. w1\<lparr>w_tasks := ts\<rparr>)) (task_step now out t w)"
proof (cases t)
  case (EvNext hs)
  then show ?thesis by (cases hs) auto
next
  case (MvNext settings ss)
  then show ?thesis by (cases ss) (auto simp: on_reg_def)
qed (auto simp: on_reg_def split: option.splits prod.splits sum.splits gate_entry.splits)

lemma solo_tasks:
  "solo n now out t (w\<lparr>w_tasks := ts\<rparr>) =
     map_option (map_prod id (\<lambda>w1. w1\<lparr>w_tasks := ts\<rparr>)) (solo n now out t w)"
  by (induction n arbitrary: t w) (auto simp: task_step_tasks split: option.splits)

lemma solo_schedule:
  assumes "i < length (w_tasks w)" and "solo n now out (w_tasks w ! i) w = Some (t', w')"
  shows "run_schedule (replicate n (i, now, out)) w = Some (w'\<lparr>w_tasks := (w_tasks w)[i := t']\<rparr>)"
  using assms
proof (induction n arbitrary: w t' w')
  case 0
  then show ?case by auto
next
  case (Suc n)
  then obtain t1 w1 where st: "task_step now out (w_tasks w ! i) w = Some (t1, w1)"
    and rest: "solo n now out t1 w1 = Some (t', w')" by (auto split: option.splits)
  let ?w1 = "w1\<lparr>w_tasks := (w_tasks w)[i := t1]\<rparr>"
  have "solo n now out t1 ?w1 = Some (t', w'\<lparr>w_tasks := (w_tasks w)[i := t1]\<rparr>)"
    by (simp add: solo_tasks rest)
  with Suc.IH [of ?w1 t' "w'\<lparr>w_tasks := (w_tasks w)[i := t1]\<rparr>"] Suc.prems(1) st show ?case by simp
qed

subsection \<open>Attach\<close>

text \<open>What the environment's answer makes of the spawn.\<close>

definition spawn_outcome :: "world \<Rightarrow> json result \<Rightarrow> session_key \<Rightarrow> session_handle result" where
  "spawn_outcome w out key =
     (case out of
        Inl e \<Rightarrow> Inl e
      | Inr init \<Rightarrow> Inr \<lparr>sh_key = key, sh_runtime = w_next w, sh_initialize_result = init\<rparr>)"

lemma solo_attach:
  assumes "acquire_or_spawn now key ck (spawn_outcome w out) (w_reg w) = Some (res, r')"
  obtains n w' where "solo n now out (AqStart key ck) w = Some (AqDone res, w')" "w_reg w' = r'"
proof -
  obtain g r2 where g: "gate_for key (count_attach (w_reg w)) = (g, r2)" by fastforce
  let ?w2 = "w\<lparr>w_reg := r2\<rparr>"
  have enter: "solo 2 now out (AqStart key ck) w = Some (AqLoop key ck g, ?w2)"
    using g by (simp add: numeral_2_eq_2 on_reg_def)
  show ?thesis
  proof (cases "try_reuse now key ck r2")
    case (Some p)
    then have "solo 1 now out (AqLoop key ck g) ?w2 = Some (AqDone (Inr (fst p)), ?w2\<lparr>w_reg := snd p\<rparr>)"
      by (simp add: split_def)
    moreover have "res = Inr (fst p)" "r' = snd p"
      using assms g Some by (auto simp: acquire_or_spawn_def split: prod.splits)
    ultimately show ?thesis using solo_add [OF enter, of 1] by (intro that [of 3 "?w2\<lparr>w_reg := snd p\<rparr>"]) simp_all
  next
    case None
    then obtain r3 where r3: "enter_gate g r2 = (ShouldSpawn, r3)"
      using assms g by (auto simp: acquire_or_spawn_def split: gate_entry.splits prod.splits)
    have "\<exists>w'. solo 5 now out (AqLoop key ck g) ?w2 = Some (AqDone res, w') \<and> w_reg w' = r'"
      using assms g None r3
      by (cases out)
        (auto simp: eval_nat_numeral acquire_or_spawn_def spawn_outcome_def Let_def on_reg_def split: prod.splits)
    then obtain w' where "solo 5 now out (AqLoop key ck g) ?w2 = Some (AqDone res, w')" "w_reg w' = r'"
      by blast
    then show ?thesis using solo_add [OF enter, of 5] by (intro that [of 7]) simp_all
  qed
qed

text \<open>The attach that cannot go on waits for the spawn under way.\<close>

lemma solo_attach_waits:
  assumes "acquire_or_spawn now key ck spawn (w_reg w) = None"
  obtains n w' g m where "solo n now out (AqStart key ck) w = Some (AqWait key ck g m, w')"
    "sg_notify (reg_gate_heap (w_reg w') ! g) = m" "sg_started (reg_gate_heap (w_reg w') ! g)"
    "same_but_gates (w_reg w) (w_reg w')"
proof -
  obtain g r2 where g: "gate_for key (count_attach (w_reg w)) = (g, r2)" by fastforce
  have none: "try_reuse now key ck r2 = None"
    using assms g by (auto simp: acquire_or_spawn_def split: option.splits)
  then obtain m where m: "enter_gate g r2 = (WaitForSpawn m, r2)"
    using assms g by (auto simp: acquire_or_spawn_def enter_gate_def Let_def split: if_splits sum.splits prod.splits)
  have "same_but_gates (w_reg w) r2"
    using count_attach_same gate_for_same [OF g] by (rule same_but_gates_trans)
  moreover have "solo 4 now out (AqStart key ck) w = Some (AqWait key ck g m, w\<lparr>w_reg := r2\<rparr>)"
    using g none m by (simp add: eval_nat_numeral on_reg_def)
  ultimately show ?thesis
    using m by (intro that [of 4 g m]) (auto simp: enter_gate_def Let_def split: if_splits)
qed

subsection \<open>Release and idle eviction\<close>

lemma solo_release:
  obtains n w' where "solo n now out (RlStart l) w = Some (RlDone (fst (release_by_lease_id now l (w_reg w))), w')"
    "w_reg w' = snd (release_by_lease_id now l (w_reg w))"
proof (cases "take_lease l (w_reg w)")
  case None
  then show ?thesis
    by (intro that [of 1]) (simp_all add: release_by_lease_id_def)
next
  case (Some p)
  then show ?thesis
    by (intro that [of 2 "w\<lparr>w_reg := snd (drop_ref now (fst p) (snd p))\<rparr>"])
      (simp_all add: release_by_lease_id_def numeral_2_eq_2 split_def Let_def)
qed

lemma solo_evictions:
  "\<exists>w'. solo (4 * length hs + 1) now out (EvNext hs) w = Some (EvDone, w') \<and>
     w_reg w' = fst (evict_idle shutdown hs (w_reg w))"
proof (induction hs arbitrary: w)
  case Nil
  then show ?case by simp
next
  case (Cons h hs)
  let ?w = "w\<lparr>w_alive := List.remove1 (sh_runtime h) (w_alive w),
    w_reg := increment_idle_gc (remove (sh_key h) (w_reg w))\<rparr>"
  have four: "solo 4 now out (EvNext (h # hs)) w = Some (EvNext hs, ?w)"
    by (simp add: eval_nat_numeral on_reg_def remove_def)
  have "solo (4 * length (h # hs) + 1) now out (EvNext (h # hs)) w =
      solo (4 * length hs + 1) now out (EvNext hs) ?w"
    using solo_add [OF four, of "4 * length hs + 1"] by simp
  with Cons.IH [of ?w] show ?case by (simp add: split_def Let_def)
qed

lemma solo_eviction_round:
  obtains n w' where "solo n now out EvScan w = Some (EvDone, w')"
    "w_reg w' = fst (evict_idle shutdown (fst (idle_candidates now (w_reg w))) (snd (idle_candidates now (w_reg w))))"
proof -
  obtain hs r1 where scan: "idle_candidates now (w_reg w) = (hs, r1)" by fastforce
  have one: "solo 1 now out EvScan w = Some (EvNext hs, w\<lparr>w_reg := r1\<rparr>)" using scan by simp
  obtain w' where "solo (4 * length hs + 1) now out (EvNext hs) (w\<lparr>w_reg := r1\<rparr>) = Some (EvDone, w')"
    "w_reg w' = fst (evict_idle shutdown hs r1)"
    using solo_evictions [of hs now out "w\<lparr>w_reg := r1\<rparr>" shutdown] by auto
  then show ?thesis
    using solo_add [OF one, of "4 * length hs + 1"] scan by (intro that [of "1 + (4 * length hs + 1)" w']) simp_all
qed

lemma solo_memory_round:
  "\<exists>w'. solo (5 * length ss + 1) now out (MvNext settings ss) w = Some (MvDone, w') \<and>
     w_reg w' = fst (evict_all shutdown settings ss (w_reg w))"
proof (induction ss arbitrary: w)
  case Nil
  then show ?case by simp
next
  case (Cons s ss)
  let ?w = "w\<lparr>w_alive := List.remove1 (sh_runtime (sm_handle s)) (w_alive w),
    w_reg := fst (evict_session shutdown s settings (w_reg w))\<rparr>"
  have five: "solo 5 now out (MvNext settings (s # ss)) w = Some (MvNext settings ss, ?w)"
    by (simp add: eval_nat_numeral on_reg_def remove_def evict_session_def Let_def)
  have "solo (5 * length (s # ss) + 1) now out (MvNext settings (s # ss)) w =
      solo (5 * length ss + 1) now out (MvNext settings ss) ?w"
    using solo_add [OF five, of "5 * length ss + 1"] by simp
  with Cons.IH [of ?w] show ?case by (simp add: split_def Let_def)
qed

subsection \<open>The agreement\<close>



end
