(* ===== verification/Lspee_Lsp.thy ===== *)
theory Lspee_Lsp
  imports Lspee_Json
begin

section \<open>Frames and the language server runtime\<close>

text \<open>
  \<open>crates/lspee_lsp/src/lib.rs\<close>: the base-protocol frames at the level of bytes, the reader and
  writer tasks, the call loop and how a child process is stopped; with the line frames of the
  control and stream sockets (\<open>tokio::io::Lines\<close>). A byte stream is the string of what will
  arrive until end of file, so a read never waits here. Both framings are interpretations of the
  locale \<open>frame_codec\<close>. The JSON printer and parser (\<open>serde_json\<close>) and the operating system
  are parameters.
\<close>

subsection \<open>A stream of frames\<close>

locale frame_codec =
  fixes ok :: "'m \<Rightarrow> bool"
    and enc :: "'m \<Rightarrow> string"
    and dec :: "string \<Rightarrow> ('m \<times> string) option"
  assumes dec_enc: "ok m \<Longrightarrow> dec (enc m @ rest) = Some (m, rest)"
    and dec_shorter: "dec s = Some (m, rest) \<Longrightarrow> length rest < length s"
begin

primrec dec_many :: "nat \<Rightarrow> string \<Rightarrow> 'm list" where
  "dec_many 0 s = []"
| "dec_many (Suc n) s = (case dec s of None \<Rightarrow> [] | Some (m, rest) \<Rightarrow> m # dec_many n rest)"

lemma dec_Nil: "dec [] = None"
proof (cases "dec []")
  case (Some p)
  then show ?thesis using dec_shorter [of "[]" "fst p" "snd p"] by simp
qed

lemma dec_many_enough: "length s \<le> n \<Longrightarrow> dec_many n s = dec_many (length s) s"
proof (induction n arbitrary: s rule: less_induct)
  case (less n)
  show ?case
  proof (cases n)
    case 0
    with less.prems show ?thesis by simp
  next
    case (Suc k)
    show ?thesis
    proof (cases "dec s")
      case None
      then show ?thesis by (cases "length s") (simp_all add: Suc)
    next
      case (Some p)
      then obtain m rest where p: "dec s = Some (m, rest)" by (cases p) auto
      from dec_shorter [OF this] obtain j where j: "length s = Suc j" "length rest \<le> j"
        by (cases "length s") auto
      from less.IH [of k rest] less.IH [of j rest] j less.prems Suc
      have "dec_many k rest = dec_many j rest" by simp
      with p j Suc show ?thesis by simp
    qed
  qed
qed

lemma dec_many_concat:
  "list_all ok ms \<Longrightarrow> length ms \<le> n \<Longrightarrow> dec_many n (concat (map enc ms)) = ms"
proof (induction ms arbitrary: n)
  case Nil
  then show ?case by (cases n) (simp_all add: dec_Nil)
next
  case (Cons m ms)
  then obtain k where "n = Suc k" by (cases n) auto
  with Cons show ?case by (simp add: dec_enc)
qed

lemma enc_not_Nil: "ok m \<Longrightarrow> enc m \<noteq> []"
  using dec_enc [of m "[]"] dec_Nil by auto

lemma enc_inject:
  assumes "ok m" "ok m'" "enc m @ r = enc m' @ r'"
  shows "m = m' \<and> r = r'"
proof -
  have "dec (enc m @ r) = Some (m, r)" by (rule dec_enc [OF assms(1)])
  moreover have "dec (enc m @ r) = Some (m', r')"
    unfolding assms(3) by (rule dec_enc [OF assms(2)])
  ultimately show ?thesis by simp
qed

lemma length_concat_enc: "list_all ok ms \<Longrightarrow> length ms \<le> length (concat (map enc ms))"
proof (induction ms)
  case (Cons m ms)
  then have "enc m \<noteq> []" using enc_not_Nil by simp
  with Cons show ?case by (cases "enc m") simp_all
qed simp

lemma dec_all_concat:
  assumes "list_all ok ms"
  shows "dec_many (length (concat (map enc ms))) (concat (map enc ms)) = ms"
  using assms length_concat_enc by (intro dec_many_concat) simp_all

end

subsection \<open>Lines\<close>

text \<open>The bytes up to and including the next line feed, or all that is left.\<close>

fun take_line :: "string \<Rightarrow> string \<times> string" where
  "take_line [] = ([], [])"
| "take_line (c # s) =
     (if c = LF then ([c], s) else (let (l, r) = take_line s in (c # l, r)))"

lemma take_line_append [simp]: "LF \<notin> set l \<Longrightarrow> take_line (l @ LF # r) = (l @ [LF], r)"
  by (induction l) auto

lemma take_line_parts: "take_line s = (l, r) \<Longrightarrow> s = l @ r"
  by (induction s arbitrary: l) (auto split: if_splits prod.splits)

lemma take_line_Nil_iff: "take_line s = ([], r) \<longleftrightarrow> s = [] \<and> r = []"
  by (cases s) (auto split: if_splits prod.splits)

text \<open>
  \<open>Lines::next_line\<close>: one line without its end (\<open>\n\<close> or \<open>\r\n\<close>); the outer \<open>Inl\<close> is the
  error of a line that is not UTF-8, \<open>None\<close> the end of the stream.
\<close>

definition chop_line_end :: "string \<Rightarrow> string" where
  "chop_line_end l =
     (if l \<noteq> [] \<and> last l = LF then
        (let l1 = butlast l in if l1 \<noteq> [] \<and> last l1 = CR then butlast l1 else l1)
      else l)"

definition next_line :: "string \<Rightarrow> (string \<times> string) option result" where
  "next_line s =
     (let (l, r) = take_line s
      in if l = [] then Inr None
         else if \<not> utf8_valid l then Inl ''stream did not contain valid UTF-8''
         else Inr (Some (chop_line_end l, r)))"

lemma utf8_valid_append: "utf8_valid s \<Longrightarrow> utf8_valid t \<Longrightarrow> utf8_valid (s @ t)"
proof (induction "length s" arbitrary: s rule: less_induct)
  case less
  show ?case
  proof (cases s)
    case Nil
    with less.prems show ?thesis by simp
  next
    case (Cons a s0)
    note v = less.prems(1) [unfolded Cons, unfolded utf8_valid.simps(2)]
    have IH: "utf8_valid r \<Longrightarrow> length r \<le> length s0 \<Longrightarrow> utf8_valid (r @ t)" for r
      using less.hyps [of r] less.prems(2) Cons by simp
    show ?thesis
    proof (cases "a \<le> CHR 0x7F")
      case True
      with v have "utf8_valid s0" by simp
      with IH [of s0] True Cons show ?thesis by simp
    next
      case a1: False
      with v obtain b s1 where s0: "s0 = b # s1" by (cases s0) simp_all
      show ?thesis
      proof (cases "CHR 0xC2 \<le> a \<and> a \<le> CHR 0xDF")
        case True
        with v a1 s0 have "cont_byte b" "utf8_valid s1" by simp_all
        with IH [of s1] True a1 Cons s0 show ?thesis by simp
      next
        case a2: False
        with v a1 s0 obtain c s2 where s1: "s1 = c # s2" by (cases s1) simp_all
        show ?thesis
        proof (cases "CHR 0xE0 \<le> a \<and> a \<le> CHR 0xEF")
          case True
          with v a1 a2 s0 s1 have "utf8_valid s2" by simp
          with IH [of s2] s0 s1 have "utf8_valid (s2 @ t)" by simp
          with v True a1 a2 Cons s0 s1 show ?thesis
            by (simp only: append_Cons utf8_valid.simps(2) list.case if_False if_True simp_thms)
              blast
        next
          case a3: False
          with v a1 a2 s0 s1 obtain d s3 where s2: "s2 = d # s3" by (cases s2) simp_all
          with v a1 a2 a3 s0 s1 have "utf8_valid s3"
            by (simp only: list.case if_False simp_thms)
          with IH [of s3] s0 s1 s2 have "utf8_valid (s3 @ t)" by simp
          with v a1 a2 a3 Cons s0 s1 s2 show ?thesis
            by (simp only: append_Cons utf8_valid.simps(2) list.case if_False simp_thms)
              blast
        qed
      qed
    qed
  qed
qed

lemma next_line_text:
  assumes "LF \<notin> set l" "CR \<notin> set l" "utf8_valid l"
  shows "next_line (l @ LF # r) = Inr (Some (l, r))"
proof -
  have "l \<noteq> [] \<Longrightarrow> last l \<noteq> CR" using assms(2) last_in_set by metis
  moreover have "utf8_valid (l @ [LF])" using assms(3) by (rule utf8_valid_append) simp
  ultimately show ?thesis
    using assms(1) by (auto simp: next_line_def chop_line_end_def Let_def)
qed

lemma next_line_shorter: "next_line s = Inr (Some (l, r)) \<Longrightarrow> length r < length s"
  by (auto simp: next_line_def Let_def split: prod.splits if_splits dest!: take_line_parts)

text \<open>One JSON value per line, the framing of the control socket and the stream sockets.\<close>

definition line_frame :: "(json \<Rightarrow> string) \<Rightarrow> json \<Rightarrow> string" where
  "line_frame ser v = ser v @ [LF]"

definition read_line_frame :: "(string \<Rightarrow> json option) \<Rightarrow> string \<Rightarrow> (json \<times> string) option" where
  "read_line_frame par s =
     (case next_line s of
        Inr (Some (l, r)) \<Rightarrow> map_option (\<lambda>v. (v, r)) (par l)
      | _ \<Rightarrow> None)"

interpretation line: frame_codec "json_text_ok ser par" "line_frame ser" "read_line_frame par"
  for ser par
proof
  fix v rest s r
  show "json_text_ok ser par v \<Longrightarrow> read_line_frame par (line_frame ser v @ rest) = Some (v, rest)"
    by (simp add: line_frame_def read_line_frame_def next_line_text json_text_okD)
  show "read_line_frame par s = Some (v, r) \<Longrightarrow> length r < length s"
    by (auto simp: read_line_frame_def dest: next_line_shorter split: sum.splits option.splits)
qed

subsection \<open>Base-protocol frames\<close>

text \<open>\<open>serde_json::to_vec\<close> on a \<open>Value\<close> does not fail, so neither does the encoder.\<close>

definition encode_lsp_frame :: "(json \<Rightarrow> string) \<Rightarrow> json \<Rightarrow> string" where
  "encode_lsp_frame ser message =
     ''Content-Length: '' @ nat_str (length (ser message)) @ [CR, LF, CR, LF] @ ser message"

definition trim_crlf :: "string \<Rightarrow> string" where
  "trim_crlf l = rev (dropWhile (\<lambda>c. c = CR \<or> c = LF) (rev l))"

lemma take_line_shorter: "take_line s = (l, r) \<Longrightarrow> l \<noteq> [] \<Longrightarrow> length r < length s"
  by (auto dest!: take_line_parts)

text \<open>The header loop: the length seen so far and what follows the blank line.\<close>

function read_headers :: "nat option \<Rightarrow> string \<Rightarrow> (nat option \<times> string) option result" where
  "read_headers content_length s =
     (let (l, r) = take_line s
      in if \<not> utf8_valid l then Inl ''failed to read lsp header line''
         else if l = [] then Inr None
         else if trim_crlf l = [] then Inr (Some (content_length, r))
         else (case strip_prefix ''Content-Length:'' (trim_crlf l) of
                 Some value \<Rightarrow>
                   (case parse_unsigned 64 (trim value) of
                      None \<Rightarrow> Inl ''failed to parse Content-Length header''
                    | Some n \<Rightarrow> read_headers (Some n) r)
               | None \<Rightarrow> read_headers content_length r))"
  by pat_completeness auto

termination
  by (relation "measure (\<lambda>(_, s). length s)") (auto dest!: take_line_shorter [OF sym])

declare read_headers.simps [simp del]

text \<open>
  \<open>vec![0; n]\<close> panics when \<open>n\<close> bytes exceed \<open>isize::MAX\<close>; below that the model allocates.
\<close>

datatype lsp_read = LspFrame json string | LspEof | LspError string | LspPanic

definition read_lsp_frame :: "(string \<Rightarrow> json option) \<Rightarrow> string \<Rightarrow> lsp_read" where
  "read_lsp_frame par s =
     (case read_headers None s of
        Inl e \<Rightarrow> LspError e
      | Inr None \<Rightarrow> LspEof
      | Inr (Some (None, r)) \<Rightarrow> LspError ''missing Content-Length header''
      | Inr (Some (Some n, r)) \<Rightarrow>
          (if 2 ^ 63 \<le> n then LspPanic
           else if length r < n then LspError ''failed to read lsp frame body''
           else (case par (take n r) of
                   None \<Rightarrow> LspError ''failed to decode lsp frame JSON payload''
                 | Some v \<Rightarrow> LspFrame v (drop n r))))"

lemma read_headers_shorter:
  "read_headers cl s = Inr (Some (c, r)) \<Longrightarrow> length r < length s"
proof (induction cl s rule: read_headers.induct)
  case (1 cl s)
  obtain l t where l: "take_line s = (l, t)" by (cases "take_line s")
  have "length t < length s" if "l \<noteq> []" using take_line_shorter [OF l that] .
  with 1 l show ?case
    by (subst (asm) (3) read_headers.simps)
      (fastforce simp: Let_def split: if_splits option.splits)
qed

lemma read_lsp_frame_shorter: "read_lsp_frame par s = LspFrame v r \<Longrightarrow> length r < length s"
  by (auto simp: read_lsp_frame_def dest!: read_headers_shorter
      split: sum.splits option.splits if_splits)

subsection \<open>Reading back what was written\<close>

lemma trim_crlf_line:
  assumes "CR \<notin> set h" "LF \<notin> set h"
  shows "trim_crlf (h @ [CR, LF]) = h"
proof -
  have "dropWhile (\<lambda>c. c = CR \<or> c = LF) (rev h) = rev h"
    using assms by (cases "rev h") (auto simp flip: set_rev [of h])
  then show ?thesis by (simp add: trim_crlf_def)
qed

text \<open>One header line is consumed whole; a \<open>Content-Length\<close> replaces an earlier one.\<close>

lemma read_headers_line:
  assumes "h \<noteq> []" "CR \<notin> set h" "LF \<notin> set h" "utf8_valid h"
  shows "read_headers cl (h @ [CR, LF] @ r) =
    (case strip_prefix ''Content-Length:'' h of
       Some value \<Rightarrow>
         (case parse_unsigned 64 (trim value) of
            None \<Rightarrow> Inl ''failed to parse Content-Length header''
          | Some n \<Rightarrow> read_headers (Some n) r)
     | None \<Rightarrow> read_headers cl r)"
proof -
  have line: "take_line (h @ [CR, LF] @ r) = (h @ [CR, LF], r)"
    using take_line_append [of "h @ [CR]" r] assms(3) by simp
  have "utf8_valid (h @ [CR, LF])" using assms(4) by (rule utf8_valid_append) simp
  with line show ?thesis
    by (subst read_headers.simps)
      (simp add: trim_crlf_line [OF assms(2,3)] assms(1) split: option.splits)
qed

lemma read_headers_blank: "read_headers cl ([CR, LF] @ r) = Inr (Some (cl, r))"
  by (subst read_headers.simps) (simp add: trim_crlf_def)

lemma trim_space_number: "trim (CHR '' '' # nat_str n) = nat_str n"
proof -
  obtain c t where ct: "nat_str n = c # t" using nat_str_not_Nil by (meson list.exhaust)
  then have "is_digit c" using nat_str_digits [of c n] by simp
  then have none: "strip_first ws_encodings (nat_str n) = None"
    using ct by (simp add: strip_first_ws_digit)
  then have "strip_many k ws_encodings (nat_str n) = nat_str n" for k by (cases k) simp_all
  moreover have "strip_first ws_encodings (CHR '' '' # nat_str n) = Some (nat_str n)"
    by (simp add: ws_encodings_def)
  ultimately have "trim_start (CHR '' '' # nat_str n) = nat_str n" by (simp add: trim_start_def)
  moreover have "trim_start (nat_str n) = nat_str n"
    using none by (cases "length (nat_str n)") (simp_all add: trim_start_def)
  ultimately show ?thesis using trim_nat_str [of n] by (simp add: trim_def)
qed

lemma length_line_ok:
  defines "h n \<equiv> ''Content-Length: '' @ nat_str n"
  shows "h n \<noteq> []" "CR \<notin> set (h n)" "LF \<notin> set (h n)" "utf8_valid (h n)"
    "strip_prefix ''Content-Length:'' (h n) = Some (CHR '' '' # nat_str n)"
proof -
  have fixed: "list_all (\<lambda>c. c \<noteq> CR \<and> c \<noteq> LF \<and> c \<le> CHR 0x7F) ''Content-Length: ''" by code_simp
  have chars: "c \<noteq> CR \<and> c \<noteq> LF \<and> c \<le> CHR 0x7F" if "c \<in> set (h n)" for c
  proof -
    from that consider "c \<in> set ''Content-Length: ''" | "c \<in> set (nat_str n)"
      unfolding h_def set_append by blast
    then show ?thesis
    proof cases
      case 1
      with fixed show ?thesis unfolding list_all_iff by blast
    next
      case 2
      then show ?thesis using nat_str_digits is_digit_facts by blast
    qed
  qed
  show "h n \<noteq> []" by (simp add: h_def)
  show "CR \<notin> set (h n)" "LF \<notin> set (h n)" using chars by blast+
  show "utf8_valid (h n)" using chars by (intro utf8_valid_ascii) blast
  show "strip_prefix ''Content-Length:'' (h n) = Some (CHR '' '' # nat_str n)"
    by (simp add: h_def)
qed

lemma read_length_line:
  assumes "n < 2 ^ 64"
  shows "read_headers cl (''Content-Length: '' @ nat_str n @ [CR, LF] @ r) = read_headers (Some n) r"
  using read_headers_line [OF length_line_ok(1-4) [of n], of cl r] assms
  by (simp only: length_line_ok(5) append_assoc option.case trim_space_number parse_unsigned_nat_str
      if_True)

lemma read_encode:
  assumes "json_text_ok ser par v" "length (ser v) < 2 ^ 63"
  shows "read_lsp_frame par (encode_lsp_frame ser v @ rest) = LspFrame v rest"
proof -
  have "read_headers None (encode_lsp_frame ser v @ rest) =
      Inr (Some (Some (length (ser v)), ser v @ rest))"
    using read_length_line [of "length (ser v)" None "[CR, LF] @ ser v @ rest"]
      read_headers_blank [of "Some (length (ser v))" "ser v @ rest"] assms(2)
    by (simp add: encode_lsp_frame_def)
  with assms show ?thesis by (simp add: read_lsp_frame_def json_text_okD)
qed

definition dec_lsp :: "(string \<Rightarrow> json option) \<Rightarrow> string \<Rightarrow> (json \<times> string) option" where
  "dec_lsp par s = (case read_lsp_frame par s of LspFrame v r \<Rightarrow> Some (v, r) | _ \<Rightarrow> None)"

interpretation lsp: frame_codec "\<lambda>v. json_text_ok ser par v \<and> length (ser v) < 2 ^ 63"
  "encode_lsp_frame ser" "dec_lsp par"
  for ser par
proof
  fix v rest s r
  show "json_text_ok ser par v \<and> length (ser v) < 2 ^ 63 \<Longrightarrow>
      dec_lsp par (encode_lsp_frame ser v @ rest) = Some (v, rest)"
    using read_encode [of ser par v rest] by (simp add: dec_lsp_def)
  show "dec_lsp par s = Some (v, r) \<Longrightarrow> length r < length s"
    using read_lsp_frame_shorter by (auto simp: dec_lsp_def split: lsp_read.splits)
qed

subsection \<open>The runtime\<close>

record lsp_message =
  lm_id :: "json option"
  lm_method :: "string option"
  lm_payload :: json

definition message_from_json :: "json \<Rightarrow> lsp_message" where
  "message_from_json payload =
     \<lparr>lm_id = jget payload ''id'', lm_method = jget_str payload ''method'', lm_payload = payload\<rparr>"

text \<open>
  The writer task: frames the queued messages one by one until a write or a flush fails. The
  outcomes of the writes are the first argument; the result is what the child receives.
\<close>

fun writer_task :: "(json \<Rightarrow> string) \<Rightarrow> bool list \<Rightarrow> json list \<Rightarrow> string" where
  "writer_task ser _ [] = []"
| "writer_task ser [] (m # ms) = []"
| "writer_task ser (write_ok # oks) (m # ms) =
     (if write_ok then encode_lsp_frame ser m @ writer_task ser oks ms else [])"

text \<open>The reader task: publishes each frame until the end of the stream or the first error.\<close>

function reader_task :: "(string \<Rightarrow> json option) \<Rightarrow> string \<Rightarrow> lsp_message list" where
  "reader_task par s =
     (case read_lsp_frame par s of
        LspFrame payload r \<Rightarrow> message_from_json payload # reader_task par r
      | _ \<Rightarrow> [])"
  by pat_completeness auto

termination
  by (relation "measure (\<lambda>(_, s). length s)") (simp_all add: read_lsp_frame_shorter)

declare reader_task.simps [simp del]

text \<open>What a broadcast receiver yields.\<close>

datatype bus_event = BusMessage lsp_message | BusLagged nat | BusClosed

text \<open>
  The loop of \<open>LspRuntime::call\<close> on the events its receiver yields after the request is sent;
  \<open>None\<close>: they are used up and the call still waits. The bus never closes under a call, since
  the runtime that makes it holds a sender.
\<close>

fun call_loop :: "json \<Rightarrow> bus_event list \<Rightarrow> json result option" where
  "call_loop expected_id [] = None"
| "call_loop expected_id (BusMessage msg # es) =
     (if lm_id msg = Some expected_id then Some (Inr (lm_payload msg)) else call_loop expected_id es)"
| "call_loop expected_id (_ # es) =
     Some (Inl ''lsp response channel closed while waiting for call response'')"

definition runtime_call :: "json \<Rightarrow> bool \<Rightarrow> bus_event list \<Rightarrow> json result option" where
  "runtime_call request queued events =
     (case jget request ''id'' of
        None \<Rightarrow> Some (Inl ''request message must include id'')
      | Some expected_id \<Rightarrow>
          (if queued then call_loop expected_id events
           else Some (Inl ''failed to queue inbound lsp message'')))"

subsection \<open>Starting and stopping the process\<close>

definition lsp_prepare :: "string \<Rightarrow> unit result" where
  "lsp_prepare command =
     (if trim command = [] then Inl ''lsp command is empty; set [[lsp]].command in configuration''
      else Inr ())"

text \<open>\<open>os_spawn\<close> starts the child with its pipes, or says that the system refused.\<close>

definition lsp_spawn :: "(string \<Rightarrow> string list \<Rightarrow> nat option) \<Rightarrow> string \<Rightarrow> string list \<Rightarrow> nat result" where
  "lsp_spawn os_spawn command args =
     bind_res (lsp_prepare command) (\<lambda>_.
       case os_spawn command args of
         None \<Rightarrow> Inl (''failed to spawn lsp command: '' @ command)
       | Some rt \<Rightarrow> Inr rt)"

text \<open>\<open>rss_bytes\<close> on the exit status and the output of \<open>ps\<close>; the product is a \<open>u64\<close>.\<close>

definition rss_from_ps :: "bool \<Rightarrow> string \<Rightarrow> u64 option" where
  "rss_from_ps success stdout =
     (if \<not> success then None
      else map_option (\<lambda>kb. of_nat kb * 1024) (parse_unsigned 64 (trim stdout)))"

datatype wait_outcome = Exited | WaitFailed | StillRunning

datatype child_action = Queued json | Waited | Killed

definition shutdown_request :: json where
  "shutdown_request = jobj [(''jsonrpc'', JStr ''2.0''), (''id'', JStr ''lspee-shutdown''),
     (''method'', JStr ''shutdown''), (''params'', JNull)]"

definition exit_notification :: json where
  "exit_notification = jobj [(''jsonrpc'', JStr ''2.0''), (''method'', JStr ''exit''),
     (''params'', JNull)]"

text \<open>
  \<open>shutdown\<close>: asks the server to exit, waits two seconds for it, kills it if it is still
  running. The outcomes of the wait and of the kill are arguments.
\<close>

definition runtime_shutdown :: "wait_outcome \<Rightarrow> bool \<Rightarrow> unit result \<times> child_action list" where
  "runtime_shutdown waited kill_ok =
     (let sent = [Queued shutdown_request, Queued exit_notification, Waited]
      in case waited of
           Exited \<Rightarrow> (Inr (), sent)
         | WaitFailed \<Rightarrow> (Inl ''failed waiting for lsp child process to exit'', sent)
         | StillRunning \<Rightarrow>
             (if kill_ok then Inr () else Inl ''failed to kill lsp child after graceful shutdown timeout'',
              sent @ [Killed]))"

definition runtime_force_stop :: "bool option \<Rightarrow> bool \<Rightarrow> unit result \<times> child_action list" where
  "runtime_force_stop try_wait kill_ok =
     (case try_wait of
        None \<Rightarrow> (Inl ''failed to query lsp child state'', [])
      | Some True \<Rightarrow> (Inr (), [])
      | Some False \<Rightarrow>
          (if kill_ok then Inr () else Inl ''failed to kill lsp child process'', [Killed]))"

subsection \<open>Properties\<close>

definition header_line_ok :: "string \<Rightarrow> bool" where
  "header_line_ok h = (h \<noteq> [] \<and> CR \<notin> set h \<and> LF \<notin> set h \<and> utf8_valid h \<and>
     strip_prefix ''Content-Length:'' h = None)"

lemma read_headers_extra:
  "list_all header_line_ok hs \<Longrightarrow>
     read_headers cl (concat (map (\<lambda>h. h @ [CR, LF]) hs) @ r) = read_headers cl r"
proof (induction hs)
  case (Cons h hs)
  then have "header_line_ok h" by simp
  with Cons read_headers_line [of h cl "concat (map (\<lambda>h. h @ [CR, LF]) hs) @ r"] show ?case
    by (simp add: header_line_ok_def)
qed simp

text \<open>C24: a JSON value framed by the encoder is read back as itself, with the rest of the stream
  untouched, also behind any other header lines.\<close>

theorem lsp_frame_roundtrip:
  assumes "json_text_ok ser par v" and "length (ser v) < 2 ^ 63" and "list_all header_line_ok hs"
  shows "read_lsp_frame par (concat (map (\<lambda>h. h @ [CR, LF]) hs) @ encode_lsp_frame ser v @ rest) =
    LspFrame v rest"
  using read_encode [OF assms(1,2), of rest]
  by (simp add: read_lsp_frame_def read_headers_extra [OF assms(3)])

text \<open>A printer and a parser for the concrete instances: they know one value.\<close>

definition demo_json :: json where
  "demo_json = jobj [(''jsonrpc'', JStr ''2.0''), (''id'', JInt 1), (''method'', JStr ''initialize'')]"

definition demo_ser :: "json \<Rightarrow> string" where
  "demo_ser v = ''{}''"

definition demo_par :: "string \<Rightarrow> json option" where
  "demo_par s = (if s = ''{}'' then Some demo_json else None)"

lemma demo_text_ok: "json_text_ok demo_ser demo_par demo_json"
  by (simp add: json_text_ok_def demo_ser_def demo_par_def)

theorem lsp_frame_roundtrip_witness:
  "read_lsp_frame demo_par (concat (map (\<lambda>h. h @ [CR, LF]) [''Content-Type: text/json'']) @
     encode_lsp_frame demo_ser demo_json @ ''next'') = LspFrame demo_json ''next''"
proof (rule lsp_frame_roundtrip [OF demo_text_ok])
  show "list_all header_line_ok [''Content-Type: text/json'']" by code_simp
qed (simp add: demo_ser_def)

lemma reader_step:
  assumes "json_text_ok ser par v" "length (ser v) < 2 ^ 63"
  shows "reader_task par (encode_lsp_frame ser v @ r) = message_from_json v # reader_task par r"
  by (subst reader_task.simps) (simp add: read_encode [OF assms])

lemma reader_end: "reader_task par [] = []"
  by (subst reader_task.simps) (simp add: read_lsp_frame_def read_headers.simps)

text \<open>C25: the reader task publishes, in order, exactly the messages the writer task has framed, when
  every write succeeds; and a failed write cuts the stream after the messages before it.\<close>

theorem reader_reads_writer:
  assumes "list_all (\<lambda>v. json_text_ok ser par v \<and> length (ser v) < 2 ^ 63) ms"
    and "length ms \<le> length oks"
  shows "reader_task par (writer_task ser oks ms) =
    map message_from_json (map fst (takeWhile snd (zip ms oks)))"
  using assms
  by (induction ser oks ms rule: writer_task.induct)
    (simp_all add: reader_end reader_step)

theorem reader_reads_writer_witness:
  "reader_task demo_par (writer_task demo_ser [True, True, False] [demo_json, demo_json, demo_json]) =
    map message_from_json
      (map fst (takeWhile snd (zip [demo_json, demo_json, demo_json] [True, True, False])))"
  by (rule reader_reads_writer) (simp_all add: demo_text_ok, simp_all add: demo_ser_def)

text \<open>C26: on a bus that drops nothing, a call answers with the first message that carries its
  request's identifier and waits as long as there is none. Nothing but the identifier is looked
  at: a request the server sends under the same identifier is taken for the response.\<close>

theorem call_first_match:
  "runtime_call request True (map BusMessage ms) =
     (case jget request ''id'' of
        None \<Rightarrow> Some (Inl ''request message must include id'')
      | Some i \<Rightarrow> map_option (\<lambda>m. Inr (lm_payload m)) (List.find (\<lambda>m. lm_id m = Some i) ms)) \<and>
   runtime_call (jobj [(''id'', JInt 1), (''method'', JStr ''textDocument/hover'')]) True
       [BusMessage (message_from_json
          (jobj [(''id'', JInt 1), (''method'', JStr ''workspace/configuration'')]))] =
     Some (Inr (jobj [(''id'', JInt 1), (''method'', JStr ''workspace/configuration'')]))"
proof -
  have "call_loop i (map BusMessage ms) =
      map_option (\<lambda>m. Inr (lm_payload m)) (List.find (\<lambda>m. lm_id m = Some i) ms)" for i
    by (induction ms) simp_all
  then show ?thesis
    by (simp add: runtime_call_def message_from_json_def split: option.splits)
qed

end
