(* ===== verification/Lspee_Config.thy ===== *)
theory Lspee_Config
  imports Lspee_Json
begin

section \<open>Configuration\<close>

text \<open>
  \<open>crates/lspee_config/src/lib.rs\<close>: the layers default, user, project and how they merge, the
  identity hash, and the errors of reading them. A \<open>BTreeMap\<close> is an ordered association list.
  The file system, the environment, the TOML reader and printer and SHA-256 are the fields of
  \<open>config_env\<close>.
\<close>

abbreviation PROJECT_CONFIG_FILE :: string where "PROJECT_CONFIG_FILE \<equiv> ''lspee.toml''"
abbreviation USER_CONFIG_DIR :: string where "USER_CONFIG_DIR \<equiv> ''.config/lspee''"
abbreviation USER_CONFIG_FILE :: string where "USER_CONFIG_FILE \<equiv> ''config.toml''"

subsection \<open>Data\<close>

datatype toml =
    TString string
  | TInteger int
  | TFloat u64
  | TBoolean bool
  | TDatetime string
  | TArray "toml list"
  | TTable "(string \<times> toml) list"

datatype config_error = ConfigRead path | ConfigParse path | ConfigCanonicalize path

record lsp_config =
  lc_id :: string
  lc_command :: string
  lc_args :: "string list"
  lc_env :: "(string \<times> string) list"
  lc_initialization_options :: "(string \<times> toml) list"

record memory_config =
  mc_max_session_mb :: "u64 option"
  mc_max_total_mb :: "u64 option"
  mc_check_interval_ms :: u64

record session_config =
  sc_idle_ttl_secs :: u64
  sc_daemon_idle_ttl_secs :: "u64 option"

record effective_config =
  ec_lsps :: "(string \<times> lsp_config) list"
  ec_root_markers :: "string list"
  ec_workspace_mode :: string
  ec_transport_flags :: "(string \<times> string) list"
  ec_memory :: memory_config
  ec_session :: session_config

definition lookup_lsp_config :: "effective_config \<Rightarrow> string \<Rightarrow> lsp_config option" where
  "lookup_lsp_config c lsp_id = map_of (ec_lsps c) lsp_id"

record partial_lsp_config =
  pl_id :: "string option"
  pl_command :: "string option"
  pl_args :: "string list option"
  pl_env :: "(string \<times> string) list option"
  pl_initialization_options :: "(string \<times> toml) list option"

record partial_memory_config =
  pm_max_session_mb :: "u64 option"
  pm_max_total_mb :: "u64 option"
  pm_check_interval_ms :: "u64 option"

record partial_session_config =
  ps_idle_ttl_secs :: "u64 option"
  ps_daemon_idle_ttl_secs :: "u64 option"

record partial_config =
  pc_lsp :: "partial_lsp_config list"
  pc_root_markers :: "string list option"
  pc_workspace_mode :: "string option"
  pc_transport_flags :: "(string \<times> string) list option"
  pc_memory :: "partial_memory_config option"
  pc_session :: "partial_session_config option"

record resolved_config =
  rv_project_root :: path
  rv_merged :: effective_config
  rv_config_hash :: string

subsection \<open>Defaults\<close>

definition default_memory_check_interval_ms :: u64 where
  "default_memory_check_interval_ms = 1000"

definition default_idle_ttl_secs :: u64 where
  "default_idle_ttl_secs = 300"

definition default_memory_config :: memory_config where
  "default_memory_config =
     \<lparr>mc_max_session_mb = None, mc_max_total_mb = None,
      mc_check_interval_ms = default_memory_check_interval_ms\<rparr>"

definition default_session_config :: session_config where
  "default_session_config =
     \<lparr>sc_idle_ttl_secs = default_idle_ttl_secs, sc_daemon_idle_ttl_secs = Some 1800\<rparr>"

definition default_config :: effective_config where
  "default_config =
     \<lparr>ec_lsps = [], ec_root_markers = [''.git''], ec_workspace_mode = ''single'',
      ec_transport_flags = [], ec_memory = default_memory_config,
      ec_session = default_session_config\<rparr>"

subsection \<open>Applying a layer\<close>

definition empty_lsp :: "string \<Rightarrow> lsp_config" where
  "empty_lsp lsp_id =
     \<lparr>lc_id = lsp_id, lc_command = [], lc_args = [], lc_env = [], lc_initialization_options = []\<rparr>"

definition partial_lsp_id :: "partial_lsp_config \<Rightarrow> string" where
  "partial_lsp_id p = unwrap_or (pl_id p) ''default''"

definition apply_lsp :: "partial_lsp_config \<Rightarrow> lsp_config \<Rightarrow> lsp_config" where
  "apply_lsp p e =
     e\<lparr>lc_command := unwrap_or (pl_command p) (lc_command e),
       lc_args := unwrap_or (pl_args p) (lc_args e),
       lc_env := unwrap_or (pl_env p) (lc_env e),
       lc_initialization_options :=
         unwrap_or (pl_initialization_options p) (lc_initialization_options e)\<rparr>"

fun apply_lsps ::
  "partial_lsp_config list \<Rightarrow> (string \<times> lsp_config) list \<Rightarrow> (string \<times> lsp_config) list" where
  "apply_lsps [] m = m"
| "apply_lsps (p # ps) m =
     (let lsp_id = partial_lsp_id p;
          entry = unwrap_or (map_of m lsp_id) (empty_lsp lsp_id)
      in apply_lsps ps (bt_insert lsp_id (apply_lsp p entry) m))"

definition apply_memory :: "partial_memory_config \<Rightarrow> memory_config \<Rightarrow> memory_config" where
  "apply_memory p m =
     m\<lparr>mc_max_session_mb := opt_or (pm_max_session_mb p) (mc_max_session_mb m),
       mc_max_total_mb := opt_or (pm_max_total_mb p) (mc_max_total_mb m),
       mc_check_interval_ms := unwrap_or (pm_check_interval_ms p) (mc_check_interval_ms m)\<rparr>"

definition apply_session :: "partial_session_config \<Rightarrow> session_config \<Rightarrow> session_config" where
  "apply_session p s =
     s\<lparr>sc_idle_ttl_secs := unwrap_or (ps_idle_ttl_secs p) (sc_idle_ttl_secs s),
       sc_daemon_idle_ttl_secs := opt_or (ps_daemon_idle_ttl_secs p) (sc_daemon_idle_ttl_secs s)\<rparr>"

definition apply_partial :: "partial_config \<Rightarrow> effective_config \<Rightarrow> effective_config" where
  "apply_partial p m =
     m\<lparr>ec_lsps := apply_lsps (pc_lsp p) (ec_lsps m),
       ec_root_markers := unwrap_or (pc_root_markers p) (ec_root_markers m),
       ec_workspace_mode := unwrap_or (pc_workspace_mode p) (ec_workspace_mode m),
       ec_transport_flags := unwrap_or (pc_transport_flags p) (ec_transport_flags m),
       ec_memory := (case pc_memory p of None \<Rightarrow> ec_memory m | Some pm \<Rightarrow> apply_memory pm (ec_memory m)),
       ec_session :=
         (case pc_session p of None \<Rightarrow> ec_session m | Some ps \<Rightarrow> apply_session ps (ec_session m))\<rparr>"

subsection \<open>Resolving\<close>

datatype file_state = Absent | Unreadable | Contents string

record config_env =
  cv_current_dir :: "path option"
  cv_canonicalize :: "path \<Rightarrow> path option"
  cv_home :: "string option"
  cv_file :: "path \<Rightarrow> file_state"
  cv_parse_toml :: "string \<Rightarrow> partial_config option"
  cv_print_toml :: "effective_config \<Rightarrow> string"
  cv_sha256_hex :: "string \<Rightarrow> string"

definition identity_text :: "(effective_config \<Rightarrow> string) \<Rightarrow> path \<Rightarrow> effective_config \<Rightarrow> string" where
  "identity_text print_toml root c = path_display root @ [CHR 0x00] @ print_toml c"

definition hash_identity :: "config_env \<Rightarrow> path \<Rightarrow> effective_config \<Rightarrow> string" where
  "hash_identity env root c = cv_sha256_hex env (identity_text (cv_print_toml env) root c)"

definition canonical_project_root :: "config_env \<Rightarrow> path option \<Rightarrow> config_error + path" where
  "canonical_project_root env override =
     bind_res (case override of
        Some p \<Rightarrow> Inr p
      | None \<Rightarrow> (case cv_current_dir env of
          None \<Rightarrow> Inl (ConfigRead (path_of ''.'')) | Some d \<Rightarrow> Inr d))
       (\<lambda>root. case cv_canonicalize env root of
          None \<Rightarrow> Inl (ConfigCanonicalize root) | Some p \<Rightarrow> Inr p)"

definition load_partial_if_exists :: "config_env \<Rightarrow> path \<Rightarrow> config_error + partial_config option" where
  "load_partial_if_exists env path =
     (case cv_file env path of
        Absent \<Rightarrow> Inr None
      | Unreadable \<Rightarrow> Inl (ConfigRead path)
      | Contents raw \<Rightarrow>
          (case cv_parse_toml env raw of
             None \<Rightarrow> Inl (ConfigParse path)
           | Some parsed \<Rightarrow> Inr (Some parsed)))"

definition user_config_path :: "config_env \<Rightarrow> path" where
  "user_config_path env =
     path_join (path_join (path_of (unwrap_or (cv_home env) ''~'')) USER_CONFIG_DIR) USER_CONFIG_FILE"

definition apply_layer :: "partial_config option \<Rightarrow> effective_config \<Rightarrow> effective_config" where
  "apply_layer p m = (case p of None \<Rightarrow> m | Some cfg \<Rightarrow> apply_partial cfg m)"

definition resolve :: "config_env \<Rightarrow> path option \<Rightarrow> config_error + resolved_config" where
  "resolve env override =
     bind_res (canonical_project_root env override) (\<lambda>root.
     bind_res (load_partial_if_exists env (user_config_path env)) (\<lambda>user_cfg.
       let merged1 = apply_layer user_cfg default_config
       in bind_res (load_partial_if_exists env (path_join root PROJECT_CONFIG_FILE)) (\<lambda>project_cfg.
            let merged2 = apply_layer project_cfg merged1
            in Inr \<lparr>rv_project_root = root, rv_merged = merged2,
                    rv_config_hash = hash_identity env root merged2\<rparr>)))"

subsection \<open>Layers\<close>

text \<open>
  What every setting promises: a layer that names it replaces it, a layer that does not leaves
  it. The lemmas follow once for all settings.
\<close>

locale overlay =
  fixes get :: "'m \<Rightarrow> 'v"
    and part :: "'p \<Rightarrow> 'v option"
    and app :: "'p \<Rightarrow> 'm \<Rightarrow> 'm"
  assumes get_app: "get (app p m) = unwrap_or (part p) (get m)"
begin

lemma get_idem: "get (app p (app p m)) = get (app p m)"
  by (simp add: get_app) (cases "part p"; simp)

lemma get_later_wins: "part p = Some v \<Longrightarrow> get (app p (app q m)) = v"
  by (simp add: get_app)

definition layer :: "'p option \<Rightarrow> 'm \<Rightarrow> 'm" where
  "layer p m = (case p of None \<Rightarrow> m | Some q \<Rightarrow> app q m)"

lemma get_two_layers:
  "get (layer p (layer u m)) =
     unwrap_or (opt_or (Option.bind p part) (Option.bind u part)) (get m)"
  by (cases p; cases u; auto simp: layer_def get_app opt_or_def unwrap_or_def split: option.splits)

lemma get_layer_twice: "get (layer p (layer p m)) = get (layer p m)"
  by (cases p) (simp_all add: layer_def get_idem)

end

text \<open>The last value a layer gives for a server, for a field \<open>f\<close> of its entries.\<close>

definition lsp_part :: "(partial_lsp_config \<Rightarrow> 'v option) \<Rightarrow> string \<Rightarrow> partial_lsp_config list \<Rightarrow> 'v option" where
  "lsp_part f lsp_id ps =
     foldl (\<lambda>v p. if partial_lsp_id p = lsp_id then opt_or (f p) v else v) None ps"

definition lsp_field :: "(lsp_config \<Rightarrow> 'v) \<Rightarrow> string \<Rightarrow> (string \<times> lsp_config) list \<Rightarrow> 'v" where
  "lsp_field g lsp_id m = g (unwrap_or (map_of m lsp_id) (empty_lsp lsp_id))"

lemma lsp_field_apply:
  assumes "\<And>p e. g (apply_lsp p e) = unwrap_or (f p) (g e)"
  shows "lsp_field g lsp_id (apply_lsps ps m) =
    unwrap_or (lsp_part f lsp_id ps) (lsp_field g lsp_id m)"
proof -
  have "lsp_field g lsp_id (apply_lsps ps m) =
      unwrap_or (foldl (\<lambda>v p. if partial_lsp_id p = lsp_id then opt_or (f p) v else v) v0 ps) d"
    if "lsp_field g lsp_id m = unwrap_or v0 d" for v0 d m
    using that
  proof (induction ps arbitrary: m v0)
    case Nil
    then show ?case by simp
  next
    case (Cons p ps)
    let ?m = "bt_insert (partial_lsp_id p)
      (apply_lsp p (unwrap_or (map_of m (partial_lsp_id p)) (empty_lsp (partial_lsp_id p)))) m"
    have "lsp_field g lsp_id ?m =
        unwrap_or (if partial_lsp_id p = lsp_id then opt_or (f p) v0 else v0) d"
      using Cons.prems by (cases "f p") (auto simp: lsp_field_def assms)
    from Cons.IH [OF this] show ?case by (simp add: Let_def)
  qed
  from this [of m None "lsp_field g lsp_id m"] show ?thesis by (simp add: lsp_part_def)
qed

interpretation cfg_mode: overlay ec_workspace_mode pc_workspace_mode apply_partial
  by unfold_locales (simp add: apply_partial_def)

interpretation cfg_markers: overlay ec_root_markers pc_root_markers apply_partial
  by unfold_locales (simp add: apply_partial_def)

interpretation cfg_flags: overlay ec_transport_flags pc_transport_flags apply_partial
  by unfold_locales (simp add: apply_partial_def)

interpretation cfg_idle_ttl: overlay "\<lambda>c. sc_idle_ttl_secs (ec_session c)"
  "\<lambda>p. Option.bind (pc_session p) ps_idle_ttl_secs" apply_partial
  by unfold_locales (simp add: apply_partial_def apply_session_def split: option.splits)

interpretation cfg_daemon_ttl: overlay "\<lambda>c. sc_daemon_idle_ttl_secs (ec_session c)"
  "\<lambda>p. map_option Some (Option.bind (pc_session p) ps_daemon_idle_ttl_secs)" apply_partial
  by unfold_locales
    (auto simp: apply_partial_def apply_session_def opt_or_def unwrap_or_def split: option.splits)

interpretation cfg_session_mb: overlay "\<lambda>c. mc_max_session_mb (ec_memory c)"
  "\<lambda>p. map_option Some (Option.bind (pc_memory p) pm_max_session_mb)" apply_partial
  by unfold_locales
    (auto simp: apply_partial_def apply_memory_def opt_or_def unwrap_or_def split: option.splits)

interpretation cfg_total_mb: overlay "\<lambda>c. mc_max_total_mb (ec_memory c)"
  "\<lambda>p. map_option Some (Option.bind (pc_memory p) pm_max_total_mb)" apply_partial
  by unfold_locales
    (auto simp: apply_partial_def apply_memory_def opt_or_def unwrap_or_def split: option.splits)

interpretation cfg_interval: overlay "\<lambda>c. mc_check_interval_ms (ec_memory c)"
  "\<lambda>p. Option.bind (pc_memory p) pm_check_interval_ms" apply_partial
  by unfold_locales (simp add: apply_partial_def apply_memory_def split: option.splits)

interpretation cfg_command: overlay "\<lambda>c. lsp_field lc_command lsp_id (ec_lsps c)"
  "\<lambda>p. lsp_part pl_command lsp_id (pc_lsp p)" apply_partial for lsp_id
  by unfold_locales (simp add: apply_partial_def lsp_field_apply apply_lsp_def)

interpretation cfg_args: overlay "\<lambda>c. lsp_field lc_args lsp_id (ec_lsps c)"
  "\<lambda>p. lsp_part pl_args lsp_id (pc_lsp p)" apply_partial for lsp_id
  by unfold_locales (simp add: apply_partial_def lsp_field_apply apply_lsp_def)

interpretation cfg_env: overlay "\<lambda>c. lsp_field lc_env lsp_id (ec_lsps c)"
  "\<lambda>p. lsp_part pl_env lsp_id (pc_lsp p)" apply_partial for lsp_id
  by unfold_locales (simp add: apply_partial_def lsp_field_apply apply_lsp_def)

interpretation cfg_init: overlay "\<lambda>c. lsp_field lc_initialization_options lsp_id (ec_lsps c)"
  "\<lambda>p. lsp_part pl_initialization_options lsp_id (pc_lsp p)" apply_partial for lsp_id
  by unfold_locales (simp add: apply_partial_def lsp_field_apply apply_lsp_def)

subsection \<open>Properties\<close>

text \<open>A setting after the user's and the project's layer over a default.\<close>

definition setting :: "('p \<Rightarrow> 'v option) \<Rightarrow> 'p option \<Rightarrow> 'p option \<Rightarrow> 'v \<Rightarrow> 'v" where
  "setting part user project d =
     unwrap_or (opt_or (Option.bind project part) (Option.bind user part)) d"

definition lsps_ok :: "(string \<times> lsp_config) list \<Rightarrow> bool" where
  "lsps_ok m = (bt_sorted m \<and> (\<forall>k c. map_of m k = Some c \<longrightarrow> lc_id c = k))"

lemma apply_lsps_ok: "lsps_ok m \<Longrightarrow> lsps_ok (apply_lsps ps m)"
proof (induction ps arbitrary: m)
  case (Cons p ps)
  let ?k = "partial_lsp_id p"
  have "lc_id (unwrap_or (map_of m ?k) (empty_lsp ?k)) = ?k"
    using Cons.prems by (cases "map_of m ?k") (simp_all add: lsps_ok_def empty_lsp_def)
  then have "lsps_ok (bt_insert ?k (apply_lsp p (unwrap_or (map_of m ?k) (empty_lsp ?k))) m)"
    using Cons.prems by (simp add: lsps_ok_def apply_lsp_def)
  with Cons.IH show ?case by (simp add: Let_def)
qed simp

lemma apply_layer_ok: "lsps_ok (ec_lsps m) \<Longrightarrow> lsps_ok (ec_lsps (apply_layer p m))"
  by (cases p) (simp_all add: apply_layer_def apply_partial_def apply_lsps_ok)

lemmas layer_defs = cfg_mode.layer_def cfg_markers.layer_def cfg_flags.layer_def
  cfg_idle_ttl.layer_def cfg_daemon_ttl.layer_def cfg_session_mb.layer_def
  cfg_total_mb.layer_def cfg_interval.layer_def cfg_command.layer_def cfg_args.layer_def
  cfg_env.layer_def cfg_init.layer_def

lemma default_fields:
  "lsp_field lc_command i (ec_lsps default_config) = []"
  "lsp_field lc_args i (ec_lsps default_config) = []"
  by (simp_all add: lsp_field_def default_config_def empty_lsp_def)

lemma resolve_Inr:
  "resolve env override = Inr rc \<longleftrightarrow>
     (\<exists>root user project.
        canonical_project_root env override = Inr root \<and>
        load_partial_if_exists env (user_config_path env) = Inr user \<and>
        load_partial_if_exists env (path_join root PROJECT_CONFIG_FILE) = Inr project \<and>
        rc = \<lparr>rv_project_root = root,
              rv_merged = apply_layer project (apply_layer user default_config),
              rv_config_hash = hash_identity env root
                (apply_layer project (apply_layer user default_config))\<rparr>)"
  by (auto simp: resolve_def bind_res_Inr_iff Let_def)


text \<open>An environment with a user file and no project file.\<close>

definition demo_partial :: partial_config where
  "demo_partial =
     \<lparr>pc_lsp = [\<lparr>pl_id = Some ''taplo'', pl_command = Some ''taplo'', pl_args = None, pl_env = None,
        pl_initialization_options = None\<rparr>],
      pc_root_markers = None, pc_workspace_mode = Some ''multi'', pc_transport_flags = None,
      pc_memory = None, pc_session = None\<rparr>"

definition demo_env :: config_env where
  "demo_env =
     \<lparr>cv_current_dir = Some (path_of ''/w''), cv_canonicalize = Some, cv_home = Some ''/home/u'',
      cv_file = (\<lambda>p. if p = path_of ''/home/u/.config/lspee/config.toml'' then Contents ''x'' else Absent),
      cv_parse_toml = (\<lambda>_. Some demo_partial), cv_print_toml = ec_workspace_mode,
      cv_sha256_hex = (\<lambda>s. s)\<rparr>"

definition demo_resolved :: resolved_config where
  "demo_resolved =
     \<lparr>rv_project_root = path_of ''/w'', rv_merged = apply_partial demo_partial default_config,
      rv_config_hash = hash_identity demo_env (path_of ''/w'') (apply_partial demo_partial default_config)\<rparr>"

lemma demo_resolve: "resolve demo_env None = Inr demo_resolved"
proof -
  have "user_config_path demo_env = path_of ''/home/u/.config/lspee/config.toml''" by code_simp
  moreover have "path_join (path_of ''/w'') PROJECT_CONFIG_FILE \<noteq>
      path_of ''/home/u/.config/lspee/config.toml''" by code_simp
  ultimately show ?thesis
    by (simp add: resolve_def canonical_project_root_def load_partial_if_exists_def demo_env_def
        demo_resolved_def apply_layer_def Let_def)
qed


definition file_error :: "config_env \<Rightarrow> path \<Rightarrow> config_error option" where
  "file_error env p =
     (case cv_file env p of
        Absent \<Rightarrow> None
      | Unreadable \<Rightarrow> Some (ConfigRead p)
      | Contents raw \<Rightarrow> if cv_parse_toml env raw = None then Some (ConfigParse p) else None)"

lemma load_partial_cases:
  "load_partial_if_exists env p =
     (case file_error env p of
        Some e \<Rightarrow> Inl e
      | None \<Rightarrow> Inr (case cv_file env p of Contents raw \<Rightarrow> cv_parse_toml env raw | _ \<Rightarrow> None))"
  by (auto simp: load_partial_if_exists_def file_error_def split: file_state.splits option.splits)

text \<open>Resolving fails exactly when the root cannot be found, or a configuration file that exists
  cannot be read or parsed; the root is looked at first, then the user's file, and a broken user
  file is an error for every project.\<close>

theorem resolve_errors:
  "resolve env override =
     (case canonical_project_root env override of
        Inl e \<Rightarrow> Inl e
      | Inr root \<Rightarrow>
          (case opt_or (file_error env (user_config_path env))
                       (file_error env (path_join root PROJECT_CONFIG_FILE)) of
             Some e \<Rightarrow> Inl e
           | None \<Rightarrow> resolve env override)) \<and>
   (is_ok (resolve env override) \<longleftrightarrow>
     (\<exists>root. canonical_project_root env override = Inr root \<and>
        file_error env (user_config_path env) = None \<and>
        file_error env (path_join root PROJECT_CONFIG_FILE) = None))"
  by (auto simp: resolve_def load_partial_cases Let_def split: sum.splits option.splits)



end
