(* ===== verification/Lspee_Languages.thy ===== *)
theory Lspee_Languages
  imports Lspee_Config
begin

section \<open>Language catalog\<close>

text \<open>
  \<open>crates/lspee_config/src/languages.rs\<close>: the catalog of known servers, overridden by the same
  two configuration files, and the lookups by identifier and by file extension. The built-in
  catalog is data the TOML reader produces (\<open>defaults\<close>); the search path and the test for an
  executable file are the fields of \<open>path_env\<close>.
\<close>

record lsp_definition =
  ld_command :: string
  ld_args :: "string list"
  ld_file_extensions :: "string list"
  ld_root_markers :: "string list"

record lsp_selection =
  ls_id :: string
  ls_command :: string
  ls_args :: "string list"
  ls_root_markers :: "string list"
  ls_executable_found :: bool

type_synonym language_registry = "(string \<times> lsp_definition) list"

record path_env =
  pe_paths :: "path list option"
  pe_is_file :: "path \<Rightarrow> bool"

definition default_definition :: lsp_definition where
  "default_definition =
     \<lparr>ld_command = [], ld_args = [], ld_file_extensions = [], ld_root_markers = []\<rparr>"

definition has_executable :: "path_env \<Rightarrow> string \<Rightarrow> bool" where
  "has_executable pe executable =
     (if executable = [] then False
      else (case pe_paths pe of
              None \<Rightarrow> False
            | Some dirs \<Rightarrow> list_ex (\<lambda>dir. pe_is_file pe (path_join dir executable)) dirs))"

definition selection_from_definition :: "path_env \<Rightarrow> string \<Rightarrow> lsp_definition \<Rightarrow> lsp_selection" where
  "selection_from_definition pe lsp_id d =
     \<lparr>ls_id = lsp_id, ls_command = ld_command d, ls_args = ld_args d,
      ls_root_markers = ld_root_markers d,
      ls_executable_found = has_executable pe (ld_command d)\<rparr>"

text \<open>A \<open>BTreeSet\<close> of strings read back as a list: ascending, without repetition.\<close>

definition extension_prefix :: string where
  "extension_prefix = ''language_extension_''"

definition add_extensions :: "(string \<times> toml) list \<Rightarrow> string list \<Rightarrow> string list" where
  "add_extensions options exts =
     sort (remdups (exts @ List.map_filter (\<lambda>(k, _). strip_prefix extension_prefix k) options))"

definition override_entry :: "partial_lsp_config \<Rightarrow> lsp_definition \<Rightarrow> lsp_definition" where
  "override_entry p e =
     e\<lparr>ld_command := unwrap_or (pl_command p) (ld_command e),
       ld_args := unwrap_or (pl_args p) (ld_args e),
       ld_file_extensions :=
         (case pl_initialization_options p of
            None \<Rightarrow> ld_file_extensions e
          | Some options \<Rightarrow> add_extensions options (ld_file_extensions e))\<rparr>"

fun override_entries :: "partial_lsp_config list \<Rightarrow> language_registry \<Rightarrow> language_registry" where
  "override_entries [] r = r"
| "override_entries (p # ps) r =
     (let lsp_id = partial_lsp_id p;
          entry = unwrap_or (map_of r lsp_id) default_definition
      in override_entries ps (bt_insert lsp_id (override_entry p entry) r))"

definition apply_overrides ::
  "config_env \<Rightarrow> path option \<Rightarrow> language_registry \<Rightarrow> config_error + language_registry" where
  "apply_overrides env path r =
     (case path of
        None \<Rightarrow> Inr r
      | Some p \<Rightarrow> bind_res (load_partial_if_exists env p) (\<lambda>parsed.
          Inr (case parsed of None \<Rightarrow> r | Some cfg \<Rightarrow> override_entries (pc_lsp cfg) r)))"

definition load_registry ::
  "config_env \<Rightarrow> language_registry option \<Rightarrow> path option \<Rightarrow> path option
     \<Rightarrow> config_error + language_registry" where
  "load_registry env defaults user_config project_config =
     bind_res (case defaults of
        None \<Rightarrow> Inl (ConfigParse (path_of ''crates/lspee_config/defaults/languages.toml''))
      | Some r \<Rightarrow> Inr r) (\<lambda>r.
     bind_res (apply_overrides env user_config r) (\<lambda>r1. apply_overrides env project_config r1))"

definition lsp_for_id ::
  "config_env \<Rightarrow> path_env \<Rightarrow> language_registry option \<Rightarrow> string \<Rightarrow> path option \<Rightarrow> path option
     \<Rightarrow> config_error + lsp_selection option" where
  "lsp_for_id env pe defaults lsp_id user_config project_config =
     bind_res (load_registry env defaults user_config project_config) (\<lambda>r.
       Inr (map_option (selection_from_definition pe lsp_id) (map_of r lsp_id)))"

text \<open>The extension of a name that is not UTF-8 counts as missing.\<close>

definition lsps_for_file ::
  "config_env \<Rightarrow> path_env \<Rightarrow> language_registry option \<Rightarrow> path \<Rightarrow> path option \<Rightarrow> path option
     \<Rightarrow> config_error + lsp_selection list" where
  "lsps_for_file env pe defaults file_path user_config project_config =
     (case Option.bind (path_extension file_path) (\<lambda>e. if utf8_valid e then Some e else None) of
        None \<Rightarrow> Inr []
      | Some e \<Rightarrow>
          bind_res (load_registry env defaults user_config project_config) (\<lambda>r.
            Inr (List.map_filter (\<lambda>(i, d).
              if list_ex (\<lambda>c. eq_ignore_ascii_case c (to_ascii_lower e)) (ld_file_extensions d)
              then Some (selection_from_definition pe i d) else None) r)))"

subsection \<open>Overrides are layers\<close>

definition catalog_field :: "(lsp_definition \<Rightarrow> 'v) \<Rightarrow> string \<Rightarrow> language_registry \<Rightarrow> 'v" where
  "catalog_field g lsp_id r = g (unwrap_or (map_of r lsp_id) default_definition)"

lemma catalog_field_override:
  assumes "\<And>p e. g (override_entry p e) = unwrap_or (f p) (g e)"
  shows "catalog_field g lsp_id (override_entries ps r) =
    unwrap_or (lsp_part f lsp_id ps) (catalog_field g lsp_id r)"
proof -
  have "catalog_field g lsp_id (override_entries ps r) =
      unwrap_or (foldl (\<lambda>v p. if partial_lsp_id p = lsp_id then opt_or (f p) v else v) v0 ps) d"
    if "catalog_field g lsp_id r = unwrap_or v0 d" for v0 d r
    using that
  proof (induction ps arbitrary: r v0)
    case Nil
    then show ?case by simp
  next
    case (Cons p ps)
    let ?r = "bt_insert (partial_lsp_id p)
      (override_entry p (unwrap_or (map_of r (partial_lsp_id p)) default_definition)) r"
    have "catalog_field g lsp_id ?r =
        unwrap_or (if partial_lsp_id p = lsp_id then opt_or (f p) v0 else v0) d"
      using Cons.prems by (cases "f p") (auto simp: catalog_field_def assms)
    from Cons.IH [OF this] show ?case by (simp add: Let_def)
  qed
  from this [of r None "catalog_field g lsp_id r"] show ?thesis by (simp add: lsp_part_def)
qed

interpretation cat_command: overlay "catalog_field ld_command lsp_id"
  "\<lambda>p. lsp_part pl_command lsp_id (pc_lsp p)" "\<lambda>p. override_entries (pc_lsp p)" for lsp_id
  by unfold_locales (simp add: catalog_field_override override_entry_def)

interpretation cat_args: overlay "catalog_field ld_args lsp_id"
  "\<lambda>p. lsp_part pl_args lsp_id (pc_lsp p)" "\<lambda>p. override_entries (pc_lsp p)" for lsp_id
  by unfold_locales (simp add: catalog_field_override override_entry_def)

lemma set_map_filter': "set (List.map_filter f xs) = {y. \<exists>x \<in> set xs. f x = Some y}"
  by (induction xs) (auto simp: List.map_filter_simps split: option.splits)

lemma add_extensions_set:
  "set (add_extensions options exts) =
     set exts \<union> {e. \<exists>v. (extension_prefix @ e, v) \<in> set options}"
  by (force simp: add_extensions_def set_map_filter' strip_prefix_Some_iff)

lemma override_extensions_grow:
  "set (catalog_field ld_file_extensions lsp_id r) \<subseteq>
     set (catalog_field ld_file_extensions lsp_id (override_entries ps r))"
proof (induction ps arbitrary: r)
  case (Cons p ps)
  let ?r = "bt_insert (partial_lsp_id p)
    (override_entry p (unwrap_or (map_of r (partial_lsp_id p)) default_definition)) r"
  have "set (catalog_field ld_file_extensions lsp_id r) \<subseteq>
      set (catalog_field ld_file_extensions lsp_id ?r)"
    by (auto simp: catalog_field_def override_entry_def add_extensions_set split: option.splits)
  with Cons.IH [of ?r] show ?case by (simp add: Let_def)
qed simp

lemma override_entries_sorted: "bt_sorted r \<Longrightarrow> bt_sorted (override_entries ps r)"
  by (induction ps arbitrary: r) (simp_all add: Let_def)

lemma apply_overrides_sorted:
  "bt_sorted r \<Longrightarrow> apply_overrides env p r = Inr r' \<Longrightarrow> bt_sorted r'"
  by (auto simp: apply_overrides_def bind_res_Inr_iff override_entries_sorted split: option.splits)

lemma load_registry_sorted:
  "load_registry env (Some d) u p = Inr r \<Longrightarrow> bt_sorted d \<Longrightarrow> bt_sorted r"
  by (auto simp: load_registry_def bind_res_Inr_iff dest: apply_overrides_sorted)

subsection \<open>Properties\<close>

lemma set_map_filter_if:
  "set (List.map_filter (\<lambda>(i, x). if Q i x then Some (g i x) else None) r) =
     {s. \<exists>i x. (i, x) \<in> set r \<and> s = g i x \<and> Q i x}"
proof (rule set_eqI)
  fix s
  have "s \<in> set (List.map_filter (\<lambda>(i, x). if Q i x then Some (g i x) else None) r) \<longleftrightarrow>
      (\<exists>p \<in> set r. Q (fst p) (snd p) \<and> s = g (fst p) (snd p))"
    by (auto simp: set_map_filter' split_def split: if_splits)
  then show "s \<in> set (List.map_filter (\<lambda>(i, x). if Q i x then Some (g i x) else None) r) \<longleftrightarrow>
      s \<in> {s. \<exists>i x. (i, x) \<in> set r \<and> s = g i x \<and> Q i x}"
    unfolding Bex_def split_paired_Ex fst_conv snd_conv mem_Collect_eq by blast
qed

lemma ids_map_filter:
  "map ls_id (List.map_filter (\<lambda>(i, d). if P i d then Some (selection_from_definition pe i d) else None) r) =
     map fst (filter (\<lambda>(i, d). P i d) r)"
  by (induction r) (auto simp: List.map_filter_simps selection_from_definition_def)


definition demo_catalog :: language_registry where
  "demo_catalog =
     [(''rust-analyzer'', \<lparr>ld_command = ''rust-analyzer'', ld_args = [], ld_file_extensions = [''rs''],
        ld_root_markers = [''Cargo.toml'']\<rparr>),
      (''taplo'', \<lparr>ld_command = ''taplo'', ld_args = [''lsp''], ld_file_extensions = [''toml''],
        ld_root_markers = []\<rparr>)]"

definition demo_path_env :: path_env where
  "demo_path_env = \<lparr>pe_paths = Some [path_of ''/bin''], pe_is_file = (\<lambda>p. p = path_of ''/bin/taplo'')\<rparr>"


text \<open>The catalog the daemon consults takes a server's command and arguments from the project
  file, else the user file, else the built-in entry; a configuration file can add extensions to
  an entry and never take one away.\<close>

theorem catalog_precedence:
  assumes "load_registry env (Some d) (Some u) (Some p) = Inr r"
  shows "\<exists>user project. load_partial_if_exists env u = Inr user \<and>
    load_partial_if_exists env p = Inr project \<and>
    catalog_field ld_command i r = setting (\<lambda>c. lsp_part pl_command i (pc_lsp c)) user project
      (catalog_field ld_command i d) \<and>
    catalog_field ld_args i r = setting (\<lambda>c. lsp_part pl_args i (pc_lsp c)) user project
      (catalog_field ld_args i d) \<and>
    set (catalog_field ld_file_extensions i d) \<subseteq> set (catalog_field ld_file_extensions i r)"
proof -
  let ?app = "\<lambda>x r. case x of None \<Rightarrow> r | Some cfg \<Rightarrow> override_entries (pc_lsp cfg) r"
  from assms obtain user project where
    u: "load_partial_if_exists env u = Inr user" and p: "load_partial_if_exists env p = Inr project"
    and r: "r = ?app project (?app user d)"
    by (auto simp: load_registry_def apply_overrides_def bind_res_Inr_iff)
  have "catalog_field ld_command i r = setting (\<lambda>c. lsp_part pl_command i (pc_lsp c)) user project
      (catalog_field ld_command i d)"
    using cat_command.get_two_layers [of i project user d]
    by (simp add: r cat_command.layer_def setting_def)
  moreover have "catalog_field ld_args i r = setting (\<lambda>c. lsp_part pl_args i (pc_lsp c)) user project
      (catalog_field ld_args i d)"
    using cat_args.get_two_layers [of i project user d]
    by (simp add: r cat_args.layer_def setting_def)
  moreover have grow: "set (catalog_field ld_file_extensions i x) \<subseteq>
      set (catalog_field ld_file_extensions i (?app c x))" for c x
    using override_extensions_grow by (cases c) simp_all
  have "set (catalog_field ld_file_extensions i d) \<subseteq> set (catalog_field ld_file_extensions i r)"
    unfolding r using grow [of d user] grow [of "?app user d" project] by (rule subset_trans)
  ultimately show ?thesis using u p by blast
qed

theorem catalog_precedence_witness:
  "\<exists>user project. load_partial_if_exists demo_env (path_of ''/home/u/.config/lspee/config.toml'') = Inr user \<and>
    load_partial_if_exists demo_env (path_of ''/w/lspee.toml'') = Inr project \<and>
    catalog_field ld_command ''taplo'' (override_entries (pc_lsp demo_partial) demo_catalog) =
      setting (\<lambda>c. lsp_part pl_command ''taplo'' (pc_lsp c)) user project
        (catalog_field ld_command ''taplo'' demo_catalog) \<and>
    catalog_field ld_args ''taplo'' (override_entries (pc_lsp demo_partial) demo_catalog) =
      setting (\<lambda>c. lsp_part pl_args ''taplo'' (pc_lsp c)) user project
        (catalog_field ld_args ''taplo'' demo_catalog) \<and>
    set (catalog_field ld_file_extensions ''taplo'' demo_catalog) \<subseteq>
      set (catalog_field ld_file_extensions ''taplo'' (override_entries (pc_lsp demo_partial) demo_catalog))"
proof (rule catalog_precedence)
  have "path_of ''/w/lspee.toml'' \<noteq> path_of ''/home/u/.config/lspee/config.toml''" by code_simp
  then show "load_registry demo_env (Some demo_catalog)
      (Some (path_of ''/home/u/.config/lspee/config.toml'')) (Some (path_of ''/w/lspee.toml'')) =
      Inr (override_entries (pc_lsp demo_partial) demo_catalog)"
    by (simp add: load_registry_def apply_overrides_def load_partial_if_exists_def demo_env_def)
qed

end
