(* ===== verification/Lspee_Dispatch.thy ===== *)
theory Lspee_Dispatch
  imports Lspee_Eviction Lspee_Lsp Lspee_Languages
begin

section \<open>The control protocol\<close>

text \<open>
  \<open>crates/lspee_daemon/src/lib.rs\<close>: what the daemon does with one control connection, from the
  bytes of its lines to the registry operations and the answers, and how an attach starts and
  bootstraps a language server. A handler runs without interleaving here (the theory
  \<open>Lspee_Registry_Conc\<close> interleaves the registry sections below it); \<open>None\<close> is an attach
  that waits for another task's spawn. The surroundings of the daemon (configuration files,
  process creation, the answers of the language servers, the stream sockets, the memory probe) are
  the fields of \<open>daemon_env\<close>.
\<close>

subsection \<open>Envelopes\<close>

definition ok_envelope :: "string option \<Rightarrow> string \<Rightarrow> json \<Rightarrow> control_envelope" where
  "ok_envelope i message_type payload =
     \<lparr>ce_v = PROTOCOL_VERSION, ce_id = i, ce_type = message_type, ce_payload = payload\<rparr>"

definition error_envelope ::
  "string option \<Rightarrow> string \<Rightarrow> string \<Rightarrow> bool \<Rightarrow> json option \<Rightarrow> control_envelope" where
  "error_envelope i code message retryable details =
     \<lparr>ce_v = PROTOCOL_VERSION, ce_id = i, ce_type = TYPE_ERROR,
      ce_payload = to_value_error_response
        \<lparr>er_code = code, er_message = message, er_retryable = retryable, er_details = details\<rparr>\<rparr>"

record dispatch_outcome =
  do_response :: control_envelope
  do_shutdown_requested :: bool

definition respond :: "control_envelope \<Rightarrow> dispatch_outcome" where
  "respond e = \<lparr>do_response = e, do_shutdown_requested = False\<rparr>"

subsection \<open>Session keys and stream modes\<close>

definition lsp_id_char :: "char \<Rightarrow> bool" where
  "lsp_id_char c =
     ((CHR ''a'' \<le> c \<and> c \<le> CHR ''z'') \<or> (CHR ''0'' \<le> c \<and> c \<le> CHR ''9'') \<or>
      c \<in> {CHR ''-'', CHR ''_'', CHR ''.''})"

definition validate_session_key :: "session_key_wire \<Rightarrow> string + unit" where
  "validate_session_key key =
     (if skw_project_root key = [] \<or> \<not> path_is_absolute (path_of (skw_project_root key))
      then Inl ''session_key.project_root must be an absolute non-empty path''
      else if trim (skw_config_hash key) = []
      then Inl ''session_key.config_hash must be non-empty''
      else if skw_lsp_id key = [] \<or> \<not> list_all lsp_id_char (skw_lsp_id key)
      then Inl ''session_key.lsp_id must match ^[a-z0-9._-]+$''
      else Inr ())"

definition preferred_stream_mode :: "attach_capabilities option \<Rightarrow> stream_mode" where
  "preferred_stream_mode capabilities =
     (case capabilities of
        None \<Rightarrow> MuxControl
      | Some c \<Rightarrow> if list_ex (\<lambda>mode. mode = Dedicated) (ac_stream_mode c) then Dedicated else MuxControl)"

subsection \<open>Starting a language server\<close>

record daemon_env =
  dn_config :: config_env
  dn_paths :: path_env
  dn_catalog :: "language_registry option"
  dn_error_text :: "config_error \<Rightarrow> string"
  dn_os_spawn :: "path \<Rightarrow> lsp_config \<Rightarrow> nat option"
  dn_call :: "nat \<Rightarrow> json \<Rightarrow> json result"
  dn_send :: "nat \<Rightarrow> json \<Rightarrow> unit result"
  dn_file_url :: "path \<Rightarrow> string option"
  dn_stream :: "path \<Rightarrow> string \<Rightarrow> path result"
  dn_rss :: "nat \<Rightarrow> u64 option result"

definition map_error :: "('e \<Rightarrow> string) \<Rightarrow> 'e + 'a \<Rightarrow> 'a result" where
  "map_error f r = (case r of Inl e \<Rightarrow> Inl (f e) | Inr x \<Rightarrow> Inr x)"

definition fill_from_catalog :: "lsp_selection option \<Rightarrow> lsp_config \<Rightarrow> lsp_config" where
  "fill_from_catalog catalog c =
     (let c1 = (if trim (lc_command c) = []
                then (case catalog of Some s \<Rightarrow> c\<lparr>lc_command := ls_command s\<rparr> | None \<Rightarrow> c) else c)
      in if lc_args c1 = []
         then (case catalog of Some s \<Rightarrow> c1\<lparr>lc_args := ls_args s\<rparr> | None \<Rightarrow> c1) else c1)"

definition catalog_config :: "string \<Rightarrow> lsp_selection \<Rightarrow> lsp_config" where
  "catalog_config lsp_id s =
     \<lparr>lc_id = lsp_id, lc_command = ls_command s, lc_args = ls_args s, lc_env = [],
      lc_initialization_options = []\<rparr>"

definition no_command_error :: "string \<Rightarrow> string" where
  "no_command_error lsp_id = ''no command found for lsp id '' @ [CHR 0x27] @ lsp_id @ [CHR 0x27] @
     ''. add a [[lsp]] entry or install the server''"

definition choose_lsp_config ::
  "lsp_config option \<Rightarrow> lsp_selection option \<Rightarrow> string \<Rightarrow> lsp_config result" where
  "choose_lsp_config project_lsp catalog lsp_id =
     (let from_catalog = (case catalog of
            Some s \<Rightarrow> Inr (catalog_config lsp_id s) | None \<Rightarrow> Inl (no_command_error lsp_id))
      in case project_lsp of
           None \<Rightarrow> from_catalog
         | Some p \<Rightarrow>
             (let c = fill_from_catalog catalog p
              in if trim (lc_command c) \<noteq> [] then Inr c else from_catalog))"

definition resolve_lsp_config ::
  "daemon_env \<Rightarrow> resolved_config \<Rightarrow> path \<Rightarrow> string \<Rightarrow> lsp_config result" where
  "resolve_lsp_config dn resolved project_root lsp_id =
     bind_res (map_error (dn_error_text dn)
        (lsp_for_id (dn_config dn) (dn_paths dn) (dn_catalog dn) lsp_id
           (map_option (\<lambda>home. path_join (path_of home) ''.config/lspee/config.toml'')
              (cv_home (dn_config dn)))
           (Some (path_join project_root ''lspee.toml''))))
       (\<lambda>catalog. choose_lsp_config (lookup_lsp_config (rv_merged resolved) lsp_id) catalog lsp_id)"

text \<open>\<open>serde_json::to_value\<close> on TOML values; a float that is not finite becomes null.\<close>

definition float_json :: "u64 \<Rightarrow> json" where
  "float_json bits = (if take_bit 11 (drop_bit 52 bits) = 0x7FF then JNull else JFloat bits)"

fun toml_to_json :: "toml \<Rightarrow> json" where
  "toml_to_json (TString s) = JStr s"
| "toml_to_json (TInteger i) = JInt i"
| "toml_to_json (TFloat f) = float_json f"
| "toml_to_json (TBoolean b) = JBool b"
| "toml_to_json (TDatetime d) = jobj [(''$__toml_private_datetime'', JStr d)]"
| "toml_to_json (TArray xs) = JArr (map toml_to_json xs)"
| "toml_to_json (TTable kvs) = jobj (map (\<lambda>kv. (fst kv, toml_to_json (snd kv))) kvs)"

definition initialize_params :: "(path \<Rightarrow> string option) \<Rightarrow> path \<Rightarrow> lsp_config \<Rightarrow> json" where
  "initialize_params file_url project_root lsp =
     jstruct
       [(''processId'', Some JNull), (''capabilities'', Some (jobj [])),
        (''rootUri'', map_option JStr (file_url project_root)),
        (''initializationOptions'',
           if lc_initialization_options lsp = [] then None
           else Some (toml_to_json (TTable (lc_initialization_options lsp))))]"

definition initialize_request :: "json \<Rightarrow> json" where
  "initialize_request params = jobj
     [(''jsonrpc'', JStr ''2.0''), (''id'', JStr ''lspee-initialize''),
      (''method'', JStr ''initialize''), (''params'', params)]"

definition initialized_notification :: json where
  "initialized_notification = jobj
     [(''jsonrpc'', JStr ''2.0''), (''method'', JStr ''initialized''), (''params'', jobj [])]"

definition bootstrap_lsp_session :: "daemon_env \<Rightarrow> nat \<Rightarrow> path \<Rightarrow> lsp_config \<Rightarrow> json result" where
  "bootstrap_lsp_session dn rt project_root lsp =
     bind_res (dn_call dn rt (initialize_request (initialize_params (dn_file_url dn) project_root lsp)))
       (\<lambda>initialize_result.
          bind_res (dn_send dn rt initialized_notification) (\<lambda>_. Inr initialize_result))"

text \<open>The closure an attach hands to \<open>acquire_or_spawn\<close>.\<close>

definition spawn_session :: "daemon_env \<Rightarrow> path \<Rightarrow> string \<Rightarrow> session_key \<Rightarrow> session_handle result" where
  "spawn_session dn spawn_root lsp_id spawn_key =
     bind_res (map_error (dn_error_text dn) (resolve (dn_config dn) (Some spawn_root))) (\<lambda>resolved.
     bind_res (resolve_lsp_config dn resolved spawn_root lsp_id) (\<lambda>cfg.
     bind_res (lsp_spawn (\<lambda>_ _. dn_os_spawn dn spawn_root cfg) (lc_command cfg) (lc_args cfg)) (\<lambda>rt.
     bind_res (bootstrap_lsp_session dn rt spawn_root cfg) (\<lambda>initialize_result.
       Inr \<lparr>sh_key = spawn_key, sh_runtime = rt, sh_initialize_result = initialize_result\<rparr>))))"

subsection \<open>Requests\<close>

type_synonym handler = "registry \<Rightarrow> (dispatch_outcome \<times> registry) option"

definition dispatch_attach :: "daemon_env \<Rightarrow> instant \<Rightarrow> string option \<Rightarrow> json \<Rightarrow> handler" where
  "dispatch_attach dn now i payload r =
     (case from_value_attach payload of
        None \<Rightarrow> Some (respond (error_envelope i ERROR_BAD_MESSAGE ''Invalid Attach payload'' False None), r)
      | Some p \<Rightarrow>
     (case validate_session_key (at_session_key p) of
        Inl message \<Rightarrow>
          Some (respond (error_envelope i ERROR_INVALID_SESSION_KEY message False None), r)
      | Inr _ \<Rightarrow>
     (let root = path_of (skw_project_root (at_session_key p));
          lsp_id = skw_lsp_id (at_session_key p);
          key = session_key_new root lsp_id (skw_config_hash (at_session_key p))
      in case acquire_or_spawn now key (cm_client_kind (at_client_meta p))
                (spawn_session dn root lsp_id) r of
           None \<Rightarrow> None
         | Some (Inl error, r1) \<Rightarrow>
             Some (respond (error_envelope i ERROR_SESSION_SPAWN_FAILED error True None), r1)
         | Some (Inr lease, r1) \<Rightarrow>
     (case session_handle_of key r1 of
        None \<Rightarrow>
          Some (respond (error_envelope i ERROR_INTERNAL ''session handle missing after attach'' True None), r1)
      | Some handle \<Rightarrow>
          (let attached = (\<lambda>stream. respond (ok_envelope i TYPE_ATTACH_OK (to_value_attach_ok
                 \<lparr>ao_lease_id = le_id lease, ao_session_id = None, ao_stream = stream,
                  ao_server = Some \<lparr>si_state = ''Ready'', si_reused = True\<rparr>,
                  ao_initialize_result = Some (sh_initialize_result handle)\<rparr>)))
           in case preferred_stream_mode (at_capabilities p) of
                MuxControl \<Rightarrow> Some (attached \<lparr>st_mode = MuxControl, st_endpoint = None\<rparr>, r1)
              | Dedicated \<Rightarrow>
                  (case dn_stream dn (sk_root key) (le_id lease) of
                     Inr endpoint \<Rightarrow>
                       Some (attached \<lparr>st_mode = Dedicated,
                               st_endpoint = Some (''unix://'' @ path_display endpoint)\<rparr>, r1)
                   | Inl error \<Rightarrow>
                       Some (respond (error_envelope i ERROR_INTERNAL
                               (''failed to create dedicated stream endpoint: '' @ error) True None),
                             snd (release_by_lease_id now (le_id lease) r1))))))))"

definition dispatch_release :: "instant \<Rightarrow> string option \<Rightarrow> json \<Rightarrow> handler" where
  "dispatch_release now i payload r =
     (case from_value_release payload of
        None \<Rightarrow> Some (respond (error_envelope i ERROR_BAD_MESSAGE ''Invalid Release payload'' False None), r)
      | Some p \<Rightarrow>
          (case release_by_lease_id now (rl_lease_id p) r of
             (Some ref_count, r1) \<Rightarrow>
               Some (respond (ok_envelope i TYPE_RELEASE_OK (to_value_release_ok
                 \<lparr>ro_lease_id = rl_lease_id p, ro_ref_count = of_nat ref_count\<rparr>)), r1)
           | (None, r1) \<Rightarrow>
               Some (respond (error_envelope i ERROR_LEASE_NOT_FOUND ''Lease not found'' False None), r1)))"

definition call_error_code :: "string \<Rightarrow> string" where
  "call_error_code message =
     (if contains message ERROR_SESSION_EVICTED_MEMORY then ERROR_SESSION_EVICTED_MEMORY
      else if contains message ''terminating'' then ERROR_SESSION_RESTARTING
      else if contains message ''timeout'' \<or> contains message ''timed out'' then ERROR_TIMEOUT
      else ERROR_INTERNAL)"

definition notify_error_code :: "string \<Rightarrow> string" where
  "notify_error_code message =
     (if contains message ERROR_SESSION_EVICTED_MEMORY then ERROR_SESSION_EVICTED_MEMORY
      else if contains message ''terminating'' then ERROR_SESSION_RESTARTING
      else ERROR_INTERNAL)"

definition dispatch_call :: "daemon_env \<Rightarrow> instant \<Rightarrow> string option \<Rightarrow> json \<Rightarrow> handler" where
  "dispatch_call dn now i payload r =
     (case from_value_call payload of
        None \<Rightarrow> Some (respond (error_envelope i ERROR_BAD_MESSAGE ''Invalid Call payload'' False None), r)
      | Some p \<Rightarrow>
          (let (res, r1) = call_by_lease_id now (dn_call dn) (ca_lease_id p) (ca_request p) r
           in Some (respond (case res of
                  Inr (Some response) \<Rightarrow> ok_envelope i TYPE_CALL_OK (to_value_call_ok
                    \<lparr>co_lease_id = ca_lease_id p, co_response = response\<rparr>)
                | Inr None \<Rightarrow> error_envelope i ERROR_LEASE_NOT_FOUND ''Lease not found'' False None
                | Inl message \<Rightarrow> error_envelope i (call_error_code message) message True None), r1)))"

definition dispatch_notify :: "daemon_env \<Rightarrow> instant \<Rightarrow> string option \<Rightarrow> json \<Rightarrow> handler" where
  "dispatch_notify dn now i payload r =
     (case from_value_notify payload of
        None \<Rightarrow> Some (respond (error_envelope i ERROR_BAD_MESSAGE ''Invalid Notify payload'' False None), r)
      | Some p \<Rightarrow>
          (let (res, r1) = notify_by_lease_id now (dn_send dn) (no_lease_id p) (no_message p) r
           in Some (respond (case res of
                  Inr (Some _) \<Rightarrow> ok_envelope i TYPE_NOTIFY_OK (to_value_notify_ok
                    \<lparr>nk_lease_id = no_lease_id p\<rparr>)
                | Inr None \<Rightarrow> error_envelope i ERROR_LEASE_NOT_FOUND ''Lease not found'' False None
                | Inl message \<Rightarrow> error_envelope i (notify_error_code message) message True None), r1)))"

definition dispatch_stats ::
  "daemon_env \<Rightarrow> instant \<Rightarrow> instant \<Rightarrow> memory_budget_settings \<Rightarrow> string option \<Rightarrow> handler" where
  "dispatch_stats dn now started_at settings i r =
     (let s = snapshot now r;
          c = rs_counters s
      in Some (respond (ok_envelope i TYPE_STATS_OK (to_value_stats_ok
           \<lparr>so_sessions = of_nat (length (rs_sessions s)), so_leases = of_nat (rs_lease_count s),
            so_uptime_ms = of_nat (as_millis (now - started_at)),
            so_counters = \<lparr>stc_sessions_spawned_total = rc_sessions_spawned_total c,
              stc_sessions_reused_total = rc_sessions_reused_total c,
              stc_sessions_gc_idle_total = rc_sessions_gc_idle_total c,
              stc_sessions_evicted_memory_total = rc_sessions_evicted_memory_total c,
              stc_session_crashes_total = rc_session_crashes_total c,
              stc_attach_requests_total = rc_attach_requests_total c\<rparr>,
            so_memory = \<lparr>mst_total_bytes = total_memory_bytes now (dn_rss dn) r,
              mst_max_total_bytes = mb_max_total_bytes settings,
              mst_max_session_bytes = mb_max_session_bytes settings\<rparr>\<rparr>)), r))"

definition dispatch_shutdown :: "string option \<Rightarrow> json \<Rightarrow> handler" where
  "dispatch_shutdown i payload r =
     (case from_value_shutdown payload of
        None \<Rightarrow> Some (respond (error_envelope i ERROR_BAD_MESSAGE ''Invalid Shutdown payload'' False None), r)
      | Some _ \<Rightarrow>
          Some (\<lparr>do_response = ok_envelope i TYPE_SHUTDOWN_OK
                   (to_value_shutdown_ok \<lparr>sd_accepted = True\<rparr>),
                 do_shutdown_requested = True\<rparr>, r))"

definition dispatch_control_request ::
  "daemon_env \<Rightarrow> instant \<Rightarrow> instant \<Rightarrow> memory_budget_settings \<Rightarrow> control_envelope \<Rightarrow> handler" where
  "dispatch_control_request dn now started_at settings req =
     (if ce_type req = TYPE_ATTACH then dispatch_attach dn now (ce_id req) (ce_payload req)
      else if ce_type req = TYPE_RELEASE then dispatch_release now (ce_id req) (ce_payload req)
      else if ce_type req = TYPE_CALL then dispatch_call dn now (ce_id req) (ce_payload req)
      else if ce_type req = TYPE_NOTIFY then dispatch_notify dn now (ce_id req) (ce_payload req)
      else if ce_type req = TYPE_STATS then dispatch_stats dn now started_at settings (ce_id req)
      else if ce_type req = TYPE_SHUTDOWN then dispatch_shutdown (ce_id req) (ce_payload req)
      else (\<lambda>r. Some (respond (error_envelope (ce_id req) ERROR_UNKNOWN_TYPE
              ''Unknown control message type'' False None), r)))"

subsection \<open>One connection\<close>

text \<open>What becomes of a line: the answer, whether the connection goes on, the registry.\<close>

record line_outcome =
  lo_response :: control_envelope
  lo_continue :: bool
  lo_shutdown :: bool

definition reply :: "control_envelope \<Rightarrow> bool \<Rightarrow> line_outcome" where
  "reply e continue = \<lparr>lo_response = e, lo_continue = continue, lo_shutdown = False\<rparr>"

definition request_id :: "json \<Rightarrow> string option" where
  "request_id raw = jget_str raw ''id''"

text \<open>\<open>as u32\<close> keeps the low 32 bits.\<close>

definition request_version :: "json \<Rightarrow> u32 option" where
  "request_version raw = map_option ucast (Option.bind (jget raw ''v'') as_u64)"

definition handle_line ::
  "(string \<Rightarrow> json option) \<Rightarrow> daemon_env \<Rightarrow> instant \<Rightarrow> instant \<Rightarrow> memory_budget_settings
     \<Rightarrow> string \<Rightarrow> registry \<Rightarrow> (line_outcome \<times> registry) option" where
  "handle_line par dn now started_at settings line r =
     (if length line > MAX_FRAME_SIZE_BYTES then
        Some (reply (error_envelope None ERROR_FRAME_TOO_LARGE
                ''Control frame exceeds 1 MiB maximum'' False None) False, r)
      else
     (case par line of
        None \<Rightarrow>
          Some (reply (error_envelope None ERROR_BAD_MESSAGE ''Invalid JSON frame'' False None) True, r)
      | Some raw \<Rightarrow>
          (if request_version raw \<noteq> Some PROTOCOL_VERSION then
             Some (reply (error_envelope (request_id raw) ERROR_UNSUPPORTED_VERSION
                     ''Unsupported protocol version'' False None) False, r)
           else
          (case from_value_envelope raw of
             None \<Rightarrow>
               Some (reply (error_envelope None ERROR_BAD_MESSAGE
                       ''Malformed control envelope'' False None) True, r)
           | Some req \<Rightarrow>
               map_option (\<lambda>(out, r1).
                 (\<lparr>lo_response = do_response out, lo_continue = \<not> do_shutdown_requested out,
                   lo_shutdown = do_shutdown_requested out\<rparr>, r1))
                 (dispatch_control_request dn now started_at settings req r)))))"

text \<open>
  The loop over the lines of a connection; \<open>oks\<close> are the outcomes of the writes and, per line,
  \<open>now\<close> is the clock when it is handled. The result: the answers written, the registry, whether a
  shutdown was signalled, and how the connection ended.
\<close>

datatype connection_end = Closed | Failed string | Waits

type_synonym connection = "control_envelope list \<times> registry \<times> bool \<times> connection_end"

definition conn_cons :: "control_envelope \<Rightarrow> bool \<Rightarrow> connection \<Rightarrow> connection" where
  "conn_cons e shutdown c = (case c of (es, r, s, fin) \<Rightarrow> (e # es, r, shutdown \<or> s, fin))"

function handle_control_connection ::
  "(string \<Rightarrow> json option) \<Rightarrow> daemon_env \<Rightarrow> instant \<Rightarrow> memory_budget_settings
     \<Rightarrow> (instant \<times> bool) list \<Rightarrow> string \<Rightarrow> registry \<Rightarrow> connection" where
  "handle_control_connection par dn started_at settings oks input r =
     (case next_line input of
        Inl e \<Rightarrow> ([], r, False, Failed e)
      | Inr None \<Rightarrow> ([], r, False, Closed)
      | Inr (Some (line, rest)) \<Rightarrow>
          (let (now, write_ok) = (case oks of [] \<Rightarrow> (started_at, False) | ok # _ \<Rightarrow> ok)
           in case handle_line par dn now started_at settings line r of
                None \<Rightarrow> ([], r, False, Waits)
              | Some (out, r1) \<Rightarrow>
                  (if \<not> write_ok then ([], r1, lo_shutdown out, Failed ''write failed'')
                   else conn_cons (lo_response out) (lo_shutdown out)
                     (if lo_continue out
                      then handle_control_connection par dn started_at settings (tl oks) rest r1
                      else ([], r1, False, Closed)))))"
  by pat_completeness auto

termination
  by (relation "measure (\<lambda>(_, _, _, _, _, input, _). length input)") (auto dest: next_line_shorter)

declare handle_control_connection.simps [simp del]

text \<open>\<open>write_envelope\<close>: the bytes of an answer.\<close>

definition write_envelope :: "(json \<Rightarrow> string) \<Rightarrow> control_envelope \<Rightarrow> string" where
  "write_envelope ser e = line_frame ser (to_value_envelope e)"

subsection \<open>The daemon\<close>

record daemon =
  da_root :: path
  da_config :: resolved_config
  da_registry :: registry
  da_started_at :: instant

definition daemon_new :: "instant \<Rightarrow> path \<Rightarrow> resolved_config \<Rightarrow> daemon" where
  "daemon_new now root config =
     \<lparr>da_root = root, da_config = config,
      da_registry = with_idle_ttl (from_secs (unat (sc_idle_ttl_secs (ec_session (rv_merged config))))),
      da_started_at = now\<rparr>"

definition control_socket_path :: "path \<Rightarrow> path" where
  "control_socket_path root = path_join (path_join root ''.lspee'') ''daemon.sock''"

text \<open>The products are \<open>u64\<close> products.\<close>

definition memory_settings :: "daemon \<Rightarrow> memory_budget_settings" where
  "memory_settings d =
     (let mem = ec_memory (rv_merged (da_config d))
      in \<lparr>mb_max_session_bytes = map_option (\<lambda>mb. mb * 1024 * 1024) (mc_max_session_mb mem),
          mb_max_total_bytes = map_option (\<lambda>mb. mb * 1024 * 1024) (mc_max_total_mb mem),
          mb_check_interval = from_millis (unat (mc_check_interval_ms mem))\<rparr>)"

definition daemon_idle_ttl :: "daemon \<Rightarrow> duration option" where
  "daemon_idle_ttl d =
     map_option (\<lambda>s. from_secs (unat s)) (sc_daemon_idle_ttl_secs (ec_session (rv_merged (da_config d))))"

text \<open>
  The accept loop of \<open>run\<close> with one connection after the other: it leaves the loop when a
  connection has signalled the shutdown, then stops every session.
\<close>

fun serve_connections ::
  "(string \<Rightarrow> json option) \<Rightarrow> daemon_env \<Rightarrow> daemon \<Rightarrow> ((instant \<times> bool) list \<times> string) list
     \<Rightarrow> registry \<Rightarrow> control_envelope list list \<times> registry \<times> bool" where
  "serve_connections par dn d [] r = ([], r, False)"
| "serve_connections par dn d ((oks, input) # cs) r =
     (case handle_control_connection par dn (da_started_at d) (memory_settings d) oks input r of
        (es, r1, True, _) \<Rightarrow> ([es], r1, True)
      | (es, r1, False, _) \<Rightarrow>
          (let (ess, r2, stop) = serve_connections par dn d cs r1 in (es # ess, r2, stop)))"

definition daemon_run ::
  "(string \<Rightarrow> json option) \<Rightarrow> daemon_env \<Rightarrow> (nat \<Rightarrow> unit result) \<Rightarrow> daemon
     \<Rightarrow> ((instant \<times> bool) list \<times> string) list
     \<Rightarrow> control_envelope list list \<times> registry \<times> evict_effect list \<times> bool" where
  "daemon_run par dn shutdown d cs =
     (case serve_connections par dn d cs (da_registry d) of
        (ess, r, True) \<Rightarrow>
          (let (r1, effects) = shutdown_all_sessions shutdown r in (ess, r1, effects, True))
      | (ess, r, False) \<Rightarrow> (ess, r, [], False))"

subsection \<open>Properties\<close>

lemma lsp_id_char_table:
  "lsp_id_char c \<longleftrightarrow> c \<in> set ''abcdefghijklmnopqrstuvwxyz0123456789-_.''"
proof -
  have "map char_of ([97..<123] @ [48..<58] @ [45, 95, 46 :: nat]) =
      ''abcdefghijklmnopqrstuvwxyz0123456789-_.''"
    by code_simp
  then have "c \<in> set ''abcdefghijklmnopqrstuvwxyz0123456789-_.'' \<longleftrightarrow>
      c \<in> char_of ` set ([97..<123] @ [48..<58] @ [45, 95, 46 :: nat])"
    by (metis set_map)
  also have "\<dots> \<longleftrightarrow> (of_char c :: nat) \<in> set ([97..<123] @ [48..<58] @ [45, 95, 46])"
  proof
    assume "c \<in> char_of ` set ([97..<123] @ [48..<58] @ [45, 95, 46 :: nat])"
    then obtain n :: nat where "c = char_of n" "n \<in> set ([97..<123] @ [48..<58] @ [45, 95, 46])" by blast
    then show "(of_char c :: nat) \<in> set ([97..<123] @ [48..<58] @ [45, 95, 46])" by auto
  next
    assume "(of_char c :: nat) \<in> set ([97..<123] @ [48..<58] @ [45, 95, 46])"
    then show "c \<in> char_of ` set ([97..<123] @ [48..<58] @ [45, 95, 46 :: nat])"
      by (metis char_of_char imageI)
  qed
  also have "\<dots> \<longleftrightarrow> lsp_id_char c"
    unfolding set_append set_upt lsp_id_char_def less_eq_char_def
    by auto
      (auto simp flip: of_char_eq_iff [where ?'a = nat])
  finally show ?thesis ..
qed

text \<open>A session key is accepted exactly when its root starts at the root directory, its
  configuration hash is not blank and its server identifier is a non-empty word over lower-case
  letters, digits, dash, underscore and dot; the first of the three that fails gives the
  message.\<close>

theorem validate_session_key_exact:
  "is_ok (validate_session_key key) =
     ((\<exists>rest. skw_project_root key = CHR ''/'' # rest) \<and> trim (skw_config_hash key) \<noteq> [] \<and>
      skw_lsp_id key \<noteq> [] \<and>
      set (skw_lsp_id key) \<subseteq> set ''abcdefghijklmnopqrstuvwxyz0123456789-_.'') \<and>
   (validate_session_key key = Inl ''session_key.lsp_id must match ^[a-z0-9._-]+$'') =
     ((\<exists>rest. skw_project_root key = CHR ''/'' # rest) \<and> trim (skw_config_hash key) \<noteq> [] \<and>
      \<not> (skw_lsp_id key \<noteq> [] \<and>
        set (skw_lsp_id key) \<subseteq> set ''abcdefghijklmnopqrstuvwxyz0123456789-_.''))"
  unfolding validate_session_key_def subset_code(1) lsp_id_char_table [symmetric]
  by (auto simp: path_is_absolute_path_of list_all_iff)

lemma respond_simps [simp]:
  "do_response (respond e) = e" "do_shutdown_requested (respond e) = False"
  by (simp_all add: respond_def)

lemma reply_simps [simp]:
  "lo_response (reply e c) = e" "lo_continue (reply e c) = c" "lo_shutdown (reply e c) = False"
  by (simp_all add: reply_def)

lemma envelope_simps [simp]:
  "ce_v (ok_envelope i t p) = PROTOCOL_VERSION" "ce_id (ok_envelope i t p) = i"
  "ce_type (ok_envelope i t p) = t" "ce_payload (ok_envelope i t p) = p"
  "ce_v (error_envelope i c m b d) = PROTOCOL_VERSION" "ce_id (error_envelope i c m b d) = i"
  "ce_type (error_envelope i c m b d) = TYPE_ERROR"
  by (simp_all add: ok_envelope_def error_envelope_def)

definition answers :: "string option \<Rightarrow> dispatch_outcome \<Rightarrow> bool" where
  "answers i out = (ce_v (do_response out) = PROTOCOL_VERSION \<and> ce_id (do_response out) = i)"

lemma answers_respond [simp]:
  "answers i (respond (ok_envelope j t p)) = (j = i)"
  "answers i (respond (error_envelope j c m b d)) = (j = i)"
  by (simp_all add: answers_def)

lemma attach_answers: "dispatch_attach dn now i p r = Some (out, r') \<Longrightarrow> answers i out"
  by (auto simp: dispatch_attach_def Let_def split: option.splits sum.splits stream_mode.splits)

lemma release_answers: "dispatch_release now i p r = Some (out, r') \<Longrightarrow> answers i out"
  by (auto simp: dispatch_release_def split: option.splits prod.splits)

lemma call_answers: "dispatch_call dn now i p r = Some (out, r') \<Longrightarrow> answers i out"
  by (auto simp: dispatch_call_def Let_def split: option.splits prod.splits sum.splits)

lemma notify_answers: "dispatch_notify dn now i p r = Some (out, r') \<Longrightarrow> answers i out"
  by (auto simp: dispatch_notify_def Let_def split: option.splits prod.splits sum.splits)

lemma stats_answers: "dispatch_stats dn now t0 st i r = Some (out, r') \<Longrightarrow> answers i out"
  by (auto simp: dispatch_stats_def Let_def)

lemma shutdown_answers: "dispatch_shutdown i p r = Some (out, r') \<Longrightarrow> answers i out"
  by (auto simp: dispatch_shutdown_def answers_def split: option.splits)

lemmas handler_answers = attach_answers release_answers call_answers notify_answers stats_answers
  shutdown_answers

lemma request_answers:
  "dispatch_control_request dn now t0 st req r = Some (out, r') \<Longrightarrow> answers (ce_id req) out"
  by (auto simp: dispatch_control_request_def dest: handler_answers split: if_splits)

lemma no_shutdown_requested:
  "dispatch_attach dn now i p r = Some (out, r') \<Longrightarrow> \<not> do_shutdown_requested out"
  "dispatch_release now i p r = Some (out, r') \<Longrightarrow> \<not> do_shutdown_requested out"
  "dispatch_call dn now i p r = Some (out, r') \<Longrightarrow> \<not> do_shutdown_requested out"
  "dispatch_notify dn now i p r = Some (out, r') \<Longrightarrow> \<not> do_shutdown_requested out"
  "dispatch_stats dn now t0 st i r = Some (out, r') \<Longrightarrow> \<not> do_shutdown_requested out"
  by (auto simp: dispatch_attach_def dispatch_release_def dispatch_call_def dispatch_notify_def
      dispatch_stats_def Let_def split: option.splits sum.splits stream_mode.splits prod.splits)

lemma request_shutdown:
  "dispatch_control_request dn now t0 st req r = Some (out, r') \<Longrightarrow>
     do_shutdown_requested out = (ce_type req = TYPE_SHUTDOWN \<and> from_value_shutdown (ce_payload req) \<noteq> None)"
  by (auto simp: dispatch_control_request_def dispatch_shutdown_def dest: no_shutdown_requested
      split: if_splits option.splits)

lemma request_facts:
  assumes "dispatch_control_request dn now t0 st req r = Some (out, r')"
  shows "ce_v (do_response out) = PROTOCOL_VERSION \<and> ce_id (do_response out) = ce_id req \<and>
    do_shutdown_requested out =
      (ce_type req = TYPE_SHUTDOWN \<and> from_value_shutdown (ce_payload req) \<noteq> None)"
  using request_answers [OF assms] request_shutdown [OF assms] by (simp add: answers_def)

text \<open>The request of a line, when the line gets as far as being dispatched.\<close>

definition line_request :: "(string \<Rightarrow> json option) \<Rightarrow> string \<Rightarrow> control_envelope option" where
  "line_request par line =
     (if length line > MAX_FRAME_SIZE_BYTES then None
      else Option.bind (par line) (\<lambda>raw.
        if request_version raw = Some PROTOCOL_VERSION then from_value_envelope raw else None))"

definition line_refused :: "(string \<Rightarrow> json option) \<Rightarrow> string \<Rightarrow> bool" where
  "line_refused par line =
     (length line > MAX_FRAME_SIZE_BYTES \<or>
      (\<exists>raw. par line = Some raw \<and> request_version raw \<noteq> Some PROTOCOL_VERSION))"


text \<open>A line with a small request, read by a parser that knows it.\<close>

definition demo_request :: json where
  "demo_request = to_value_envelope
     \<lparr>ce_v = 1, ce_id = Some ''7'', ce_type = TYPE_SHUTDOWN, ce_payload = to_value_shutdown ()\<rparr>"

definition demo_daemon_env :: daemon_env where
  "demo_daemon_env =
     \<lparr>dn_config = demo_env, dn_paths = demo_path_env, dn_catalog = Some demo_catalog,
      dn_error_text = (\<lambda>_. ''error''), dn_os_spawn = (\<lambda>_ _. Some 7),
      dn_call = (\<lambda>_ v. Inr v), dn_send = (\<lambda>_ _. Inr ()), dn_file_url = (\<lambda>_. None),
      dn_stream = (\<lambda>p i. Inr (path_join p i)), dn_rss = (\<lambda>_. Inr None)\<rparr>"

definition demo_settings :: memory_budget_settings where
  "demo_settings = \<lparr>mb_max_session_bytes = None, mb_max_total_bytes = None, mb_check_interval = 1\<rparr>"

definition demo_line_par :: "string \<Rightarrow> json option" where
  "demo_line_par l = (if l = ''{}'' then Some demo_request else None)"

lemma demo_request_version: "request_version demo_request = Some PROTOCOL_VERSION"
  by (simp add: request_version_def demo_request_def to_value_envelope_def ju32_def as_u64_def
      PROTOCOL_VERSION_def)

lemma demo_line_handled:
  "handle_line demo_line_par demo_daemon_env 9 0 demo_settings ''{}'' (with_idle_ttl 300) =
     Some (\<lparr>lo_response = ok_envelope (Some ''7'') TYPE_SHUTDOWN_OK
              (to_value_shutdown_ok \<lparr>sd_accepted = True\<rparr>), lo_continue = False, lo_shutdown = True\<rparr>,
           with_idle_ttl 300)"
  using demo_request_version
  by (simp add: handle_line_def demo_line_par_def MAX_FRAME_SIZE_BYTES_def)
    (simp add: demo_request_def envelope_roundtrip dispatch_control_request_def dispatch_shutdown_def)


text \<open>The version is compared after it has been cut to 32 bits, so a request in version
  \<open>2 ^ 32 + 1\<close> is not refused for its version: it fails to decode instead, is answered as a bad
  message without its identifier, and the connection stays open.\<close>

theorem version_check_truncates:
  assumes "length line \<le> MAX_FRAME_SIZE_BYTES"
    and "par line = Some (jobj [(''v'', JInt (2 ^ 32 + 1)), (''id'', JStr i), (''type'', JStr t),
      (''payload'', p)])"
  shows "handle_line par dn now t0 st line r =
    Some (reply (error_envelope None ERROR_BAD_MESSAGE ''Malformed control envelope'' False None) True, r)"
proof -
  let ?raw = "jobj [(''v'', JInt (2 ^ 32 + 1)), (''id'', JStr i), (''type'', JStr t), (''payload'', p)]"
  have "(word_of_int (2 ^ 32 + 1) :: 64 word) = 4294967297" by simp
  then have "(ucast (word_of_int (2 ^ 32 + 1) :: 64 word) :: 32 word) = 1"
    by (simp only:) (simp add: unsigned_numeral take_bit_eq_mod)
  then have "request_version ?raw = Some PROTOCOL_VERSION"
    by (simp add: request_version_def as_u64_def PROTOCOL_VERSION_def)
  moreover have "from_value_envelope ?raw = None"
    by (simp add: from_value_envelope_def struct_fields_def jobj_def de_req_def fmlookup_of_list de_u32_def)
  ultimately show ?thesis using assms by (simp add: handle_line_def)
qed

theorem version_check_truncates_witness:
  "handle_line (\<lambda>_. Some (jobj [(''v'', JInt (2 ^ 32 + 1)), (''id'', JStr ''7''), (''type'', JStr ''Stats''),
      (''payload'', JNull)])) demo_daemon_env 9 0 demo_settings ''{}'' (with_idle_ttl 300) =
    Some (reply (error_envelope None ERROR_BAD_MESSAGE ''Malformed control envelope'' False None) True,
      with_idle_ttl 300)"
  by (rule version_check_truncates) (simp_all add: MAX_FRAME_SIZE_BYTES_def)

subsection \<open>Connections keep the registry\<close>

lemma quiescent_mono: "quiescent n r \<Longrightarrow> n \<le> m \<Longrightarrow> quiescent m r"
  by (simp add: quiescent_def)

lemma quiescent_Suc: "quiescent n r \<Longrightarrow> quiescent (Suc n) r"
  by (simp add: quiescent_def)

lemma spawn_session_keyed [simp]: "spawn_keyed (spawn_session dn root lsp_id) key"
  by (auto simp: spawn_keyed_def spawn_session_def bind_res_Inr_iff split: sum.splits)

lemma quiescent_acquire:
  assumes q: "quiescent n r" and n: "n + 1 < 2 ^ 64" and sp: "spawn_keyed spawn key"
  shows "\<exists>res r'. acquire_or_spawn now key ck spawn r = Some (res, r') \<and> quiescent (n + 1) r'"
proof -
  from q have inv: "registry_inv r" and idle: "gates_idle r" and seq: "unat (reg_lease_seq r) \<le> n"
    by (auto simp: quiescent_def)
  from inv have ok: "gates_ok r" by (simp add: registry_inv_def)
  with idle acquire_returns obtain res r' where
    a: "acquire_or_spawn now key ck spawn r = Some (res, r')"
    by (metis option.exhaust surj_pair)
  from seq n have room: "unat (reg_lease_seq r) + 1 < 2 ^ 64" by simp
  have "unat (reg_lease_seq r') \<le> n + 1"
    using acquire_seq [OF inv a] seq room by (simp add: unat_word_ariths(1))
  with inv_acquire [OF inv room sp a] acquire_idle_gates [OF a ok idle] a show ?thesis
    by (auto simp: quiescent_def)
qed

lemma quiescent_release:
  assumes "quiescent n r"
  shows "quiescent n (snd (release_by_lease_id now i r))"
  using assms same_gates_seq_release [of r now i]
  by (simp add: quiescent_def inv_release same_gates_seq_def gates_idle_def)

lemma quiescent_call: "quiescent n r \<Longrightarrow> quiescent n (snd (call_by_lease_id now f i req r))"
  using same_gates_seq_call [of r now f i req]
  by (simp add: quiescent_def inv_call same_gates_seq_def gates_idle_def)

lemma quiescent_notify: "quiescent n r \<Longrightarrow> quiescent n (snd (notify_by_lease_id now f i msg r))"
  using same_gates_seq_notify [of r now f i msg]
  by (simp add: quiescent_def inv_notify same_gates_seq_def gates_idle_def)

lemma quiescent_attach:
  assumes q: "quiescent n r" and n: "n + 1 < 2 ^ 64"
  shows "\<exists>out r'. dispatch_attach dn now i p r = Some (out, r') \<and> quiescent (n + 1) r'"
proof (cases "from_value_attach p")
  case None
  with q show ?thesis by (simp add: dispatch_attach_def quiescent_Suc)
next
  case (Some a)
  show ?thesis
  proof (cases "validate_session_key (at_session_key a)")
    case (Inl e)
    with q Some show ?thesis by (simp add: dispatch_attach_def quiescent_Suc)
  next
    case (Inr u)
    let ?root = "path_of (skw_project_root (at_session_key a))"
    let ?key = "session_key_new ?root (skw_lsp_id (at_session_key a))
      (skw_config_hash (at_session_key a))"
    from quiescent_acquire [OF q n spawn_session_keyed] obtain res r1 where
      acq: "acquire_or_spawn now ?key (cm_client_kind (at_client_meta a))
        (spawn_session dn ?root (skw_lsp_id (at_session_key a))) r = Some (res, r1)"
      and q1: "quiescent (n + 1) r1" by blast
    with Some Inr quiescent_release [OF q1] show ?thesis
      by (simp add: dispatch_attach_def Let_def split: sum.splits option.splits stream_mode.splits)
  qed
qed

lemma quiescent_request:
  assumes q: "quiescent n r" and n: "n + 1 < 2 ^ 64"
  shows "\<exists>out r'. dispatch_control_request dn now t0 st req r = Some (out, r') \<and> quiescent (n + 1) r'"
proof -
  have "\<exists>out r'. dispatch_release now i p r = Some (out, r') \<and> quiescent (n + 1) r'" for i p
  proof (cases "from_value_release p")
    case None
    with q show ?thesis by (simp add: dispatch_release_def quiescent_Suc)
  next
    case (Some x)
    obtain ro r1 where rel: "release_by_lease_id now (rl_lease_id x) r = (ro, r1)"
      by (metis surj_pair)
    have "quiescent n r1" using quiescent_release [OF q, of now "rl_lease_id x"] rel by simp
    then have "quiescent (n + 1) r1" by (rule quiescent_mono) simp
    with Some rel show ?thesis by (simp add: dispatch_release_def split: option.splits)
  qed
  moreover have "\<exists>out r'. dispatch_call dn now i p r = Some (out, r') \<and> quiescent (n + 1) r'" for i p
    using q quiescent_call [OF q]
    by (cases "from_value_call p")
      (simp_all add: dispatch_call_def split_def Let_def quiescent_Suc)
  moreover have "\<exists>out r'. dispatch_notify dn now i p r = Some (out, r') \<and> quiescent (n + 1) r'" for i p
    using q quiescent_notify [OF q]
    by (cases "from_value_notify p")
      (simp_all add: dispatch_notify_def split_def Let_def quiescent_Suc)
  moreover have "\<exists>out r'. dispatch_stats dn now t0 st i r = Some (out, r') \<and> quiescent (n + 1) r'" for i
    using q by (simp add: dispatch_stats_def Let_def quiescent_Suc)
  moreover have "\<exists>out r'. dispatch_shutdown i p r = Some (out, r') \<and> quiescent (n + 1) r'" for i p
    using q by (cases "from_value_shutdown p") (simp_all add: dispatch_shutdown_def quiescent_Suc)
  ultimately show ?thesis
    using quiescent_attach [OF q n] q
    by (simp add: dispatch_control_request_def quiescent_Suc)
qed

lemma quiescent_line:
  assumes q: "quiescent n r" and n: "n + 1 < 2 ^ 64"
  shows "\<exists>out r'. handle_line par dn now t0 st line r = Some (out, r') \<and> quiescent (n + 1) r'"
proof (cases "line_request par line")
  case None
  with q show ?thesis
    by (auto simp: handle_line_def line_request_def quiescent_Suc split: option.splits if_splits)
next
  case (Some req)
  from quiescent_request [OF q n] obtain out r' where
    "dispatch_control_request dn now t0 st req r = Some (out, r')" "quiescent (n + 1) r'" by blast
  with Some show ?thesis
    by (auto simp: handle_line_def line_request_def split: option.splits if_splits)
qed

lemma quiescent_connection:
  "quiescent n r \<Longrightarrow> n + length input < 2 ^ 64 \<Longrightarrow>
     handle_control_connection par dn t0 st oks input r = (es, r', s, fin) \<Longrightarrow>
     quiescent (n + length input) r' \<and> fin \<noteq> Waits"
proof (induction "length input" arbitrary: n oks input r es r' s fin rule: less_induct)
  case less
  show ?case
  proof (cases "next_line input")
    case (Inl e)
    with less.prems show ?thesis
      by (subst (asm) handle_control_connection.simps) (auto intro: quiescent_mono)
  next
    case (Inr o')
    show ?thesis
    proof (cases o')
      case None
      with Inr less.prems show ?thesis
        by (subst (asm) handle_control_connection.simps) (auto intro: quiescent_mono)
    next
      case (Some p)
      obtain line rest where p: "p = (line, rest)" by (cases p)
      with Inr Some have nl: "next_line input = Inr (Some (line, rest))" by simp
      then have len: "length rest < length input" by (rule next_line_shorter)
      obtain now ok where ok: "(case oks of [] \<Rightarrow> (t0, False) | ok # _ \<Rightarrow> ok) = (now, ok)"
        by (cases "case oks of [] \<Rightarrow> (t0, False) | ok # _ \<Rightarrow> ok")
      from less.prems(2) len have "n + 1 < 2 ^ 64" by simp
      from quiescent_line [OF less.prems(1) this] obtain out r1 where
        hl: "handle_line par dn now t0 st line r = Some (out, r1)" and q1: "quiescent (n + 1) r1" by blast
      obtain es2 r2 s2 fin2 where rec: "handle_control_connection par dn t0 st (tl oks) rest r1 =
          (es2, r2, s2, fin2)" by (metis surj_pair)
      have "quiescent (n + 1 + length rest) r2 \<and> fin2 \<noteq> Waits"
        by (rule less.hyps [OF len q1 _ rec]) (use less.prems(2) len in simp)
      then have rec': "quiescent (n + length input) r2 \<and> fin2 \<noteq> Waits"
        using len by (auto intro: quiescent_mono)
      have q1': "quiescent (n + length input) r1"
        using q1 len by (auto intro: quiescent_mono)
      from less.prems(3) show ?thesis
        using nl ok hl rec rec' q1'
        by (subst (asm) handle_control_connection.simps)
          (auto simp: conn_cons_def split: if_splits)
    qed
  qed
qed

subsection \<open>The life of the daemon\<close>

text \<open>The bytes a list of connections sends.\<close>

fun input_bytes :: "('a \<times> string) list \<Rightarrow> nat" where
  "input_bytes [] = 0"
| "input_bytes (c # cs) = length (snd c) + input_bytes cs"

lemma quiescent_serve:
  "quiescent n r \<Longrightarrow> n + input_bytes cs < 2 ^ 64 \<Longrightarrow>
     serve_connections par dn d cs r = (ess, r', stop) \<Longrightarrow>
     quiescent (n + input_bytes cs) r'"
proof (induction cs arbitrary: n r ess r' stop)
  case Nil
  then show ?case by simp
next
  case (Cons c cs)
  obtain oks input where c: "c = (oks, input)" by (cases c)
  obtain es r1 s fin where hc: "handle_control_connection par dn (da_started_at d)
      (memory_settings d) oks input r = (es, r1, s, fin)" by (metis surj_pair)
  from Cons.prems(2) c have room: "n + length input < 2 ^ 64"
    and room': "n + length input + input_bytes cs < 2 ^ 64"
    by (simp_all add: add.assoc)
  have q1: "quiescent (n + length input) r1"
    using quiescent_connection [OF Cons.prems(1) room hc] by simp
  show ?case
  proof (cases s)
    case True
    with Cons.prems(3) c hc have "r' = r1" by simp
    with q1 c show ?thesis by (auto intro: quiescent_mono)
  next
    case False
    obtain ess2 r2 stop2 where sc: "serve_connections par dn d cs r1 = (ess2, r2, stop2)"
      by (metis surj_pair)
    with Cons.prems(3) c hc False have "r' = r2" "stop = stop2" by simp_all
    with Cons.IH [OF q1 room' sc] c show ?thesis by (simp add: add.assoc)
  qed
qed


lemma demo_line_shuts_down:
  "handle_line demo_line_par dn now t0 st ''{}'' r =
     Some (\<lparr>lo_response = ok_envelope (Some ''7'') TYPE_SHUTDOWN_OK
              (to_value_shutdown_ok \<lparr>sd_accepted = True\<rparr>), lo_continue = False, lo_shutdown = True\<rparr>, r)"
  using demo_request_version
  by (simp add: handle_line_def demo_line_par_def MAX_FRAME_SIZE_BYTES_def)
    (simp add: demo_request_def envelope_roundtrip dispatch_control_request_def dispatch_shutdown_def)

lemma demo_next_line: "next_line (''{}'' @ [LF]) = Inr (Some (''{}'', []))"
  by code_simp

lemma demo_connection:
  "handle_control_connection demo_line_par dn t0 st [(9, True)] (''{}'' @ [LF]) r =
     ([ok_envelope (Some ''7'') TYPE_SHUTDOWN_OK (to_value_shutdown_ok \<lparr>sd_accepted = True\<rparr>)],
      r, True, Closed)"
  by (subst handle_control_connection.simps)
    (simp add: demo_next_line [simplified] demo_line_shuts_down conn_cons_def)

lemma demo_run: "daemon_run demo_line_par demo_daemon_env (\<lambda>_. Inr ())
    (daemon_new 0 [''/'', ''w''] demo_resolved) [([(9, True)], ''{}'' @ [LF])] =
  ([[ok_envelope (Some ''7'') TYPE_SHUTDOWN_OK (to_value_shutdown_ok \<lparr>sd_accepted = True\<rparr>)]],
   da_registry (daemon_new 0 [''/'', ''w''] demo_resolved), [], True)"
  by (simp add: daemon_run_def demo_connection [simplified] shutdown_all_sessions_def)
    (simp add: daemon_new_def all_handles_def with_idle_ttl_def)


subsection \<open>After an eviction\<close>

lemma evicted_message: "contains (ERROR_SESSION_EVICTED_MEMORY @ s) ERROR_SESSION_EVICTED_MEMORY"
  by (auto simp: contains_iff intro: exI [of _ "[]"])

text \<open>C17: once a session is marked as evicted for memory, a call and a notification on any of its
  leases are answered with the eviction's own error code and message, marked as retryable, and the
  registry stays as it is.\<close>

theorem evicted_session_refuses:
  assumes inv: "registry_inv r" and owner: "lease_owner r i = Some (sm_key s)"
    and r1: "r1 = mark_terminating_with_notice (sm_key s) (Some (eviction_notice s settings)) r"
    and message: "message = ERROR_SESSION_EVICTED_MEMORY @ '': '' @ sep_message (eviction_notice s settings)"
  shows "dispatch_call dn now rid (to_value_call \<lparr>ca_lease_id = i, ca_request = request\<rparr>) r1 =
      Some (respond (error_envelope rid ERROR_SESSION_EVICTED_MEMORY message True None), r1) \<and>
    dispatch_notify dn now rid (to_value_notify \<lparr>no_lease_id = i, no_message = request\<rparr>) r1 =
      Some (respond (error_envelope rid ERROR_SESSION_EVICTED_MEMORY message True None), r1)"
proof -
  obtain l where l: "map_of (reg_leases r) i = Some l" "lr_key l = sm_key s"
    using owner by (auto simp: lease_owner_def)
  from inv l obtain rec where rec: "map_of (reg_sessions r) (sm_key s) = Some rec"
    by (fastforce simp: registry_inv_def lease_owner_def leases_ok_def)
  have code: "sep_code (eviction_notice s settings) = ERROR_SESSION_EVICTED_MEMORY"
    by (simp add: eviction_notice_def)
  have st: "runtime_for_lease now i r1 = (Inl message, r1)"
    using l rec code
    by (simp add: runtime_for_lease_def r1 message mark_terminating_with_notice_def map_of_map_entry')
  show ?thesis
    by (simp add: dispatch_call_def dispatch_notify_def call_by_lease_id_def notify_by_lease_id_def st
        call_error_code_def notify_error_code_def message evicted_message call_roundtrip notify_roundtrip)
qed

definition demo_evicted :: memory_sample where
  "demo_evicted = (hd demo_samples)\<lparr>sm_key := demo_key\<rparr>"

lemma demo_owner: "lease_owner demo_registry ''lease_1'' = Some (sm_key demo_evicted)"
  by code_simp

theorem evicted_session_refuses_witness:
  "\<exists>r1 message. r1 = mark_terminating_with_notice demo_key (Some (eviction_notice demo_evicted demo_budget))
      demo_registry \<and>
    dispatch_call demo_daemon_env 9 (Some ''1'')
      (to_value_call \<lparr>ca_lease_id = ''lease_1'', ca_request = JNull\<rparr>) r1 =
      Some (respond (error_envelope (Some ''1'') ERROR_SESSION_EVICTED_MEMORY message True None), r1)"
proof -
  let ?r1 = "mark_terminating_with_notice (sm_key demo_evicted)
    (Some (eviction_notice demo_evicted demo_budget)) demo_registry"
  have "sm_key demo_evicted = demo_key" by (simp add: demo_evicted_def)
  with evicted_session_refuses [OF demo_registry_inv demo_owner refl refl, of demo_daemon_env 9 "Some ''1''"
      JNull demo_budget]
  show ?thesis by auto
qed

end
