(* ===== verification/Lspee_Client.thy ===== *)
theory Lspee_Client
  imports Lspee_Dispatch
begin

section \<open>The command line client\<close>

text \<open>
  \<open>crates/lspee_cli/src/commands\<close>: how the commands reach the daemon and talk to it
  (\<open>client.rs\<close>), and the commands that hold one conversation: \<open>call\<close>, \<open>status\<close>, \<open>stop\<close>,
  \<open>restart\<close>. A conversation is a state passed from step to step: the other end of the socket
  (any function that takes the bytes of a frame and gives the bytes that come back), the bytes
  received but not yet read, the readings of the clock, and a record of every frame the client
  tried to write. Text that a library adds to an error is left out of the messages.
\<close>

subsection \<open>Connecting\<close>

abbreviation DAEMON_CONNECT_ATTEMPTS :: nat where "DAEMON_CONNECT_ATTEMPTS \<equiv> 40"
abbreviation DAEMON_CONNECT_BACKOFF_MS :: nat where "DAEMON_CONNECT_BACKOFF_MS \<equiv> 100"

definition daemon_socket_path :: "path \<Rightarrow> path" where
  "daemon_socket_path project_root = path_join (path_join project_root ''.lspee'') ''daemon.sock''"

datatype error_kind = NotFound | ConnectionRefused | ConnectionReset | OtherKind

datatype connect_outcome = Connected | Refused error_kind

definition connect_error :: "path \<Rightarrow> string \<Rightarrow> string" where
  "connect_error project_root suffix =
     ''failed to connect to daemon socket '' @ path_display (daemon_socket_path project_root) @ suffix"

text \<open>The attempts behind the start of a daemon; between two of them the client sleeps.\<close>

fun retry_connect :: "(nat \<Rightarrow> connect_outcome) \<Rightarrow> nat \<Rightarrow> nat \<Rightarrow> duration \<Rightarrow> nat option \<times> duration" where
  "retry_connect attempt i 0 slept = (None, slept)"
| "retry_connect attempt i (Suc n) slept =
     (case attempt i of
        Connected \<Rightarrow> (Some i, slept)
      | Refused _ \<Rightarrow> retry_connect attempt (Suc i) n (slept + from_millis DAEMON_CONNECT_BACKOFF_MS))"

record connecting =
  co_stream :: "nat result"
  co_spawned :: bool
  co_slept :: duration

text \<open>\<open>attempt i\<close> is the outcome of the \<open>i\<close>-th call of \<open>UnixStream::connect\<close>.\<close>

definition connect ::
  "(nat \<Rightarrow> connect_outcome) \<Rightarrow> unit result \<Rightarrow> path \<Rightarrow> bool \<Rightarrow> connecting" where
  "connect attempt spawn project_root auto_start =
     (case attempt 0 of
        Connected \<Rightarrow> \<lparr>co_stream = Inr 0, co_spawned = False, co_slept = 0\<rparr>
      | Refused kind \<Rightarrow>
          (if \<not> auto_start \<or> kind \<notin> {NotFound, ConnectionRefused, ConnectionReset} then
             \<lparr>co_stream = Inl (connect_error project_root ''''), co_spawned = False, co_slept = 0\<rparr>
           else (case spawn of
             Inl e \<Rightarrow> \<lparr>co_stream = Inl e, co_spawned = False, co_slept = 0\<rparr>
           | Inr _ \<Rightarrow>
               (let (found, slept) = retry_connect attempt 1 DAEMON_CONNECT_ATTEMPTS 0
                in \<lparr>co_stream = (case found of
                       Some i \<Rightarrow> Inr i
                     | None \<Rightarrow> Inl (connect_error project_root '' after auto-start'')),
                    co_spawned = True, co_slept = slept\<rparr>))))"

text \<open>\<open>spawn_daemon\<close>: the arguments and the extra environment of the background process.\<close>

definition spawn_daemon_args :: "path \<Rightarrow> string list" where
  "spawn_daemon_args project_root =
     [''serve'', ''--project-root'', path_display project_root, ''--log-file'',
      path_display (path_join (path_join project_root ''.lspee'') ''daemon.log'')]"

definition spawn_daemon_vars :: "(string \<Rightarrow> string option) \<Rightarrow> (string \<times> string) list" where
  "spawn_daemon_vars var =
     List.map_filter (\<lambda>name. map_option (Pair name) (var name)) [''LSPEE_LOG'', ''LSPEE_LOG_FORMAT'']"

definition spawn_daemon :: "string option \<Rightarrow> bool \<Rightarrow> unit result" where
  "spawn_daemon current_exe spawned =
     (case current_exe of
        None \<Rightarrow> Inl ''failed to resolve current executable''
      | Some _ \<Rightarrow> if spawned then Inr () else Inl ''failed to spawn background daemon process'')"

subsection \<open>Frames\<close>

record 's wire =
  wi_ser :: "json \<Rightarrow> string"
  wi_par :: "string \<Rightarrow> json option"
  wi_peer :: "'s \<Rightarrow> string \<Rightarrow> ('s \<times> string) option"

record 's conn =
  cn_peer :: 's
  cn_inbound :: string
  cn_clock :: "nat list"
  cn_sent :: "(control_envelope \<times> bool) list"

type_synonym ('s, 'a) client = "'s conn \<Rightarrow> 'a result \<times> 's conn"

definition bind_client :: "('s, 'a) client \<Rightarrow> ('a \<Rightarrow> ('s, 'b) client) \<Rightarrow> ('s, 'b) client" where
  "bind_client m f c = (case m c of (Inl e, c1) \<Rightarrow> (Inl e, c1) | (Inr x, c1) \<Rightarrow> f x c1)"

definition lift_res :: "'a result \<Rightarrow> ('s, 'a) client" where
  "lift_res r c = (r, c)"

text \<open>The clock reads 0 before the epoch (\<open>unwrap_or_default\<close>), and here also when no reading is left.\<close>

definition new_request_id :: "string \<Rightarrow> 's conn \<Rightarrow> string \<times> 's conn" where
  "new_request_id prefix c =
     (let nanos = (case cn_clock c of [] \<Rightarrow> 0 | t # _ \<Rightarrow> t)
      in (prefix @ ''-'' @ nat_str nanos, c\<lparr>cn_clock := tl (cn_clock c)\<rparr>))"

definition write_frame :: "'s wire \<Rightarrow> control_envelope \<Rightarrow> ('s, unit) client" where
  "write_frame w envelope c =
     (case wi_peer w (cn_peer c) (line_frame (wi_ser w) (to_value_envelope envelope)) of
        None \<Rightarrow> (Inl ''write failed'', c\<lparr>cn_sent := cn_sent c @ [(envelope, False)]\<rparr>)
      | Some (peer, bytes) \<Rightarrow>
          (Inr (), c\<lparr>cn_peer := peer, cn_inbound := cn_inbound c @ bytes,
                     cn_sent := cn_sent c @ [(envelope, True)]\<rparr>))"

text \<open>
  The lines before the awaited answer are skipped; the second component is what is left to read.
  A line that is not UTF-8 is consumed by the error it causes.
\<close>

function response_for_id ::
  "(string \<Rightarrow> json option) \<Rightarrow> string \<Rightarrow> string \<Rightarrow> control_envelope result \<times> string" where
  "response_for_id par expected_id input =
     (case next_line input of
        Inl e \<Rightarrow> (Inl e, snd (take_line input))
      | Inr None \<Rightarrow>
          (Inl (''daemon socket closed before response for id='' @ expected_id), input)
      | Inr (Some (line, rest)) \<Rightarrow>
          (case Option.bind (par line) from_value_envelope of
             None \<Rightarrow> (Inl ''invalid daemon response JSON'', rest)
           | Some response \<Rightarrow>
               (if ce_id response = Some expected_id then (Inr response, rest)
                else response_for_id par expected_id rest)))"
  by pat_completeness auto

termination
  by (relation "measure (\<lambda>(_, _, input). length input)") (auto dest: next_line_shorter)

declare response_for_id.simps [simp del]

definition read_response_for_id :: "'s wire \<Rightarrow> string \<Rightarrow> ('s, control_envelope) client" where
  "read_response_for_id w expected_id c =
     (let (r, rest) = response_for_id (wi_par w) expected_id (cn_inbound c)
      in (r, c\<lparr>cn_inbound := rest\<rparr>))"

definition render_error_payload :: "json \<Rightarrow> string" where
  "render_error_payload payload =
     ''daemon error '' @ unwrap_or (jget_str payload ''code'') ''E_UNKNOWN'' @ '': '' @
       unwrap_or (jget_str payload ''message'') ''Unknown daemon error''"

definition ensure_not_error :: "control_envelope \<Rightarrow> unit result" where
  "ensure_not_error response =
     (if ce_type response = TYPE_ERROR then Inl (render_error_payload (ce_payload response))
      else Inr ())"

text \<open>The two checks every command makes on an answer.\<close>

definition expect_type :: "string \<Rightarrow> string \<Rightarrow> control_envelope \<Rightarrow> json result" where
  "expect_type ok_type what response =
     bind_res (ensure_not_error response) (\<lambda>_.
       if ce_type response \<noteq> ok_type
       then Inl (''unexpected response type for '' @ what @ '': '' @ ce_type response)
       else Inr (ce_payload response))"

definition request_envelope :: "string \<Rightarrow> string \<Rightarrow> json \<Rightarrow> control_envelope" where
  "request_envelope rid message_type payload =
     \<lparr>ce_v = PROTOCOL_VERSION, ce_id = Some rid, ce_type = message_type, ce_payload = payload\<rparr>"

text \<open>One request and its checked answer.\<close>

definition request_ok ::
  "'s wire \<Rightarrow> string \<Rightarrow> string \<Rightarrow> json \<Rightarrow> string \<Rightarrow> string \<Rightarrow> ('s, json) client" where
  "request_ok w prefix message_type payload ok_type what c =
     (let (rid, c1) = new_request_id prefix c
      in bind_client (write_frame w (request_envelope rid message_type payload)) (\<lambda>_.
         bind_client (read_response_for_id w rid) (\<lambda>response.
           lift_res (expect_type ok_type what response))) c1)"

subsection \<open>\<open>lspee call\<close>\<close>

record client_ident =
  id_name :: string
  id_version :: string
  id_pid :: u32
  id_cwd :: "string option"

definition attach_payload ::
  "client_ident \<Rightarrow> client_kind \<Rightarrow> stream_mode \<Rightarrow> resolved_config \<Rightarrow> string \<Rightarrow> attach" where
  "attach_payload ident kind mode resolved lsp =
     \<lparr>at_session_key = \<lparr>skw_project_root = path_display (rv_project_root resolved),
        skw_config_hash = rv_config_hash resolved, skw_lsp_id = lsp\<rparr>,
      at_client_meta = \<lparr>cm_client_name = id_name ident, cm_client_version = id_version ident,
        cm_client_kind = Some kind, cm_pid = Some (id_pid ident), cm_cwd = id_cwd ident\<rparr>,
      at_capabilities = Some \<lparr>ac_stream_mode = [mode]\<rparr>\<rparr>"

definition attach_lease_id :: "json \<Rightarrow> string result" where
  "attach_lease_id payload =
     (case jget_str payload ''lease_id'' of
        None \<Rightarrow> Inl ''AttachOk missing lease_id'' | Some lease_id \<Rightarrow> Inr lease_id)"

definition attach_session ::
  "'s wire \<Rightarrow> client_ident \<Rightarrow> client_kind \<Rightarrow> resolved_config \<Rightarrow> string \<Rightarrow> ('s, string) client" where
  "attach_session w ident kind resolved lsp =
     bind_client (request_ok w ''attach'' TYPE_ATTACH
        (to_value_attach (attach_payload ident kind MuxControl resolved lsp)) TYPE_ATTACH_OK ''Attach'')
       (\<lambda>payload. lift_res (attach_lease_id payload))"

definition release_lease :: "'s wire \<Rightarrow> string \<Rightarrow> ('s, unit) client" where
  "release_lease w lease_id =
     bind_client (request_ok w ''release'' TYPE_RELEASE
        (to_value_release \<lparr>rl_lease_id = lease_id, rl_reason = None\<rparr>) TYPE_RELEASE_OK ''Release'')
       (\<lambda>_. lift_res (Inr ()))"

definition decode_call_ok :: "json \<Rightarrow> call_ok result" where
  "decode_call_ok payload =
     (case from_value_call_ok payload of
        None \<Rightarrow> Inl ''invalid CallOk payload'' | Some ok \<Rightarrow> Inr ok)"

text \<open>
  From the call on: its frame goes out (an error here leaves at once), the answer is read, the
  lease is given back whatever the answer was, and only then is the answer looked at.
\<close>

definition call_and_release :: "'s wire \<Rightarrow> string \<Rightarrow> json \<Rightarrow> ('s, call_ok) client" where
  "call_and_release w lease_id request c =
     (let (call_id, c1) = new_request_id ''call'' c
      in bind_client (write_frame w (request_envelope call_id TYPE_CALL
             (to_value_call \<lparr>ca_lease_id = lease_id, ca_request = request\<rparr>)))
           (\<lambda>_ c2. let (call_response, c3) = read_response_for_id w call_id c2;
                       (_, c4) = release_lease w lease_id c3
                   in (bind_res (bind_res call_response (expect_type TYPE_CALL_OK ''Call''))
                         decode_call_ok, c4)) c1)"

definition call_conversation ::
  "'s wire \<Rightarrow> client_ident \<Rightarrow> client_kind \<Rightarrow> resolved_config \<Rightarrow> string \<Rightarrow> json \<Rightarrow> ('s, call_ok) client" where
  "call_conversation w ident kind resolved lsp request =
     bind_client (attach_session w ident kind resolved lsp)
       (\<lambda>lease_id. call_and_release w lease_id request)"

definition load_request_payload ::
  "(path \<Rightarrow> file_state) \<Rightarrow> (string \<Rightarrow> json option) \<Rightarrow> string \<Rightarrow> json result" where
  "load_request_payload file par request =
     bind_res (case strip_prefix ''@'' request of
        Some p \<Rightarrow> (case file (path_of p) of
            Contents text \<Rightarrow> if utf8_valid text then Inr text else Inl ''stream did not contain valid UTF-8''
          | _ \<Rightarrow> Inl ''cannot read the request file'')
      | None \<Rightarrow> Inr request)
       (\<lambda>content. case par content of
          None \<Rightarrow> Inl ''invalid JSON request payload'' | Some payload \<Rightarrow> Inr payload)"

datatype call_client_kind = CallAgent | CallHuman | CallCi

fun call_kind :: "call_client_kind \<Rightarrow> client_kind" where
  "call_kind CallAgent = Agent"
| "call_kind CallHuman = Human"
| "call_kind CallCi = Ci"

text \<open>The command: what it prints, and the connection it leaves behind if it got one.\<close>

record call_command =
  cc_lsp :: string
  cc_root :: "path option"
  cc_request :: string
  cc_no_start_daemon :: bool
  cc_client_kind :: call_client_kind
  cc_pretty :: bool

text \<open>
  What a command sees of its surroundings: \<open>cl_connect\<close> is the outcome of \<open>connect\<close> for a root and
  the auto-start flag.
\<close>

record 's cli_env =
  cl_config :: config_env
  cl_error_text :: "config_error \<Rightarrow> string"
  cl_connect :: "path \<Rightarrow> bool \<Rightarrow> 's conn result"
  cl_wire :: "'s wire"
  cl_pretty :: "json \<Rightarrow> string"
  cl_ident :: client_ident

definition resolve_root :: "'s cli_env \<Rightarrow> path option \<Rightarrow> resolved_config result" where
  "resolve_root e root = map_error (cl_error_text e) (resolve (cl_config e) root)"

definition show_json :: "'s cli_env \<Rightarrow> bool \<Rightarrow> json \<Rightarrow> string" where
  "show_json e pretty v = (if pretty then cl_pretty e v else wi_ser (cl_wire e) v)"

definition run_call :: "'s cli_env \<Rightarrow> call_command \<Rightarrow> string result \<times> 's conn option" where
  "run_call e cmd =
     (case bind_res (resolve_root e (cc_root cmd)) (\<lambda>resolved.
           bind_res (load_request_payload (cv_file (cl_config e)) (wi_par (cl_wire e)) (cc_request cmd)) (\<lambda>payload.
           bind_res (cl_connect e (rv_project_root resolved) (\<not> cc_no_start_daemon cmd)) (\<lambda>c.
             Inr (resolved, payload, c)))) of
        Inl error \<Rightarrow> (Inl error, None)
      | Inr (resolved, payload, c) \<Rightarrow>
          (case call_conversation (cl_wire e) (cl_ident e) (call_kind (cc_client_kind cmd)) resolved
                  (cc_lsp cmd) payload c of
             (Inl error, c1) \<Rightarrow> (Inl error, Some c1)
           | (Inr ok, c1) \<Rightarrow> (Inr (show_json e (cc_pretty cmd) (co_response ok)), Some c1)))"

subsection \<open>\<open>lspee status\<close>, \<open>stop\<close>, \<open>restart\<close>\<close>

definition request_stats :: "'s wire \<Rightarrow> string \<Rightarrow> ('s, stats_ok) client" where
  "request_stats w what =
     bind_client (request_ok w ''stats'' TYPE_STATS (to_value_stats ()) TYPE_STATS_OK what)
       (\<lambda>payload. lift_res (case from_value_stats_ok payload of
          None \<Rightarrow> Inl ''invalid StatsOk payload'' | Some stats \<Rightarrow> Inr stats))"

text \<open>The \<open>{:?}\<close> of an \<open>Option<u64>\<close>.\<close>

definition debug_u64_option :: "u64 option \<Rightarrow> string" where
  "debug_u64_option o' = (case o' of None \<Rightarrow> ''None'' | Some n \<Rightarrow> ''Some('' @ nat_str (unat n) @ '')'')"

definition u64_str :: "u64 \<Rightarrow> string" where
  "u64_str n = nat_str (unat n)"

definition status_lines :: "path \<Rightarrow> stats_ok \<Rightarrow> string list" where
  "status_lines root stats =
     [''daemon_status=ok'',
      ''project_root='' @ path_display root,
      ''sessions='' @ u64_str (so_sessions stats),
      ''leases='' @ u64_str (so_leases stats),
      ''uptime_ms='' @ u64_str (so_uptime_ms stats),
      ''memory_total_bytes='' @ u64_str (mst_total_bytes (so_memory stats)),
      ''memory_limits=max_session_bytes:'' @ debug_u64_option (mst_max_session_bytes (so_memory stats)) @
        '' max_total_bytes:'' @ debug_u64_option (mst_max_total_bytes (so_memory stats)),
      ''counters=sessions_spawned_total:'' @ u64_str (stc_sessions_spawned_total (so_counters stats)) @
        '' sessions_reused_total:'' @ u64_str (stc_sessions_reused_total (so_counters stats)) @
        '' sessions_gc_idle_total:'' @ u64_str (stc_sessions_gc_idle_total (so_counters stats)) @
        '' sessions_evicted_memory_total:'' @
        u64_str (stc_sessions_evicted_memory_total (so_counters stats)) @
        '' session_crashes_total:'' @ u64_str (stc_session_crashes_total (so_counters stats)) @
        '' attach_requests_total:'' @ u64_str (stc_attach_requests_total (so_counters stats))]"

definition status_json :: "path \<Rightarrow> stats_ok \<Rightarrow> json" where
  "status_json root stats = jobj
     [(''daemon_status'', JStr ''ok''), (''project_root'', JStr (path_display root)),
      (''stats'', to_value_stats_ok stats)]"

definition run_status ::
  "'s cli_env \<Rightarrow> path option \<Rightarrow> bool \<Rightarrow> bool \<Rightarrow> string list result \<times> 's conn option" where
  "run_status e project_root no_start_daemon human =
     (case bind_res (resolve_root e project_root) (\<lambda>resolved.
           bind_res (cl_connect e (rv_project_root resolved) (\<not> no_start_daemon)) (\<lambda>c.
             Inr (resolved, c))) of
        Inl error \<Rightarrow> (Inl error, None)
      | Inr (resolved, c) \<Rightarrow>
          (case request_stats (cl_wire e) ''Stats'' c of
             (Inl error, c1) \<Rightarrow> (Inl error, Some c1)
           | (Inr stats, c1) \<Rightarrow>
               (Inr (if human then status_lines (rv_project_root resolved) stats
                     else [wi_ser (cl_wire e) (status_json (rv_project_root resolved) stats)]), Some c1)))"

definition request_shutdown_ok :: "'s wire \<Rightarrow> ('s, unit) client" where
  "request_shutdown_ok w =
     bind_client (request_ok w ''shutdown'' TYPE_SHUTDOWN (to_value_shutdown ()) TYPE_SHUTDOWN_OK
         ''Shutdown'')
       (\<lambda>payload. lift_res (case from_value_shutdown_ok payload of
          None \<Rightarrow> Inl ''invalid ShutdownOk payload'' | Some _ \<Rightarrow> Inr ()))"

definition run_stop :: "'s cli_env \<Rightarrow> path option \<Rightarrow> string list result \<times> 's conn option" where
  "run_stop e project_root =
     (case resolve_root e project_root of
        Inl error \<Rightarrow> (Inl error, None)
      | Inr resolved \<Rightarrow>
          (let lines = (\<lambda>status. [''daemon_status='' @ status,
                 ''project_root='' @ path_display (rv_project_root resolved)])
           in case cl_connect e (rv_project_root resolved) False of
                Inl _ \<Rightarrow> (Inr (lines ''not_running''), None)
              | Inr c \<Rightarrow>
                  (case request_shutdown_ok (cl_wire e) c of
                     (Inl error, c1) \<Rightarrow> (Inl error, Some c1)
                   | (Inr _, c1) \<Rightarrow> (Inr (lines ''stopped''), Some c1))))"

text \<open>The best-effort shutdown: neither a failed write nor the answer matters.\<close>

definition best_effort_shutdown :: "'s wire \<Rightarrow> 's conn \<Rightarrow> 's conn" where
  "best_effort_shutdown w c =
     (let (shutdown_id, c1) = new_request_id ''shutdown'' c;
          (_, c2) = write_frame w (request_envelope shutdown_id TYPE_SHUTDOWN (to_value_shutdown ())) c1;
          (_, c3) = read_response_for_id w shutdown_id c2
      in c3)"

text \<open>
  \<open>reconnect\<close> is the outcome of the second \<open>connect\<close>, given the connection of the first, if any.
\<close>

definition run_restart ::
  "'s cli_env \<Rightarrow> ('s conn option \<Rightarrow> path \<Rightarrow> 's conn result) \<Rightarrow> path option
     \<Rightarrow> string list result \<times> 's conn option" where
  "run_restart e reconnect project_root =
     (case resolve_root e project_root of
        Inl error \<Rightarrow> (Inl error, None)
      | Inr resolved \<Rightarrow>
          (let root = rv_project_root resolved;
               before = (case cl_connect e root False of
                   Inl _ \<Rightarrow> None | Inr c \<Rightarrow> Some (best_effort_shutdown (cl_wire e) c))
           in case reconnect before root of
                Inl error \<Rightarrow> (Inl error, before)
              | Inr c \<Rightarrow>
                  (case request_stats (cl_wire e) ''Stats during restart'' c of
                     (Inl error, c1) \<Rightarrow> (Inl error, Some c1)
                   | (Inr stats, c1) \<Rightarrow>
                       (Inr [''daemon_status=restarted'', ''project_root='' @ path_display root,
                             ''uptime_ms='' @ u64_str (so_uptime_ms stats)], Some c1))))"

subsection \<open>Properties\<close>

lemma socket_paths_agree: "daemon_socket_path root = control_socket_path root"
  by (simp add: daemon_socket_path_def control_socket_path_def)

lemma retry_connect_found:
  "retry_connect attempt i n slept = (Some k, t) \<Longrightarrow>
     i \<le> k \<and> k < i + n \<and> attempt k = Connected \<and> (\<forall>j. i \<le> j \<and> j < k \<longrightarrow> attempt j \<noteq> Connected) \<and>
     t = slept + (k - i) * from_millis DAEMON_CONNECT_BACKOFF_MS"
proof (induction attempt i n slept rule: retry_connect.induct)
  case (2 attempt i n slept)
  show ?case
  proof (cases "attempt i")
    case Connected
    with "2.prems" show ?thesis by auto
  next
    case (Refused e)
    from "2.IH" [OF Refused] "2.prems" Refused have
      ih: "Suc i \<le> k" "k < Suc i + n" "attempt k = Connected"
        "\<forall>j. Suc i \<le> j \<and> j < k \<longrightarrow> attempt j \<noteq> Connected"
        "t = slept + from_millis DAEMON_CONNECT_BACKOFF_MS + (k - Suc i) * from_millis DAEMON_CONNECT_BACKOFF_MS"
      by simp_all
    moreover have "attempt j \<noteq> Connected" if "i \<le> j" "j < k" for j
      using that ih(4) Refused by (cases "j = i") auto
    moreover have "k - i = Suc (k - Suc i)" using ih(1) by simp
    ultimately show ?thesis by simp
  qed
qed simp

lemma retry_connect_none:
  "retry_connect attempt i n slept = (None, t) \<Longrightarrow>
     (\<forall>j. i \<le> j \<and> j < i + n \<longrightarrow> attempt j \<noteq> Connected) \<and>
     t = slept + n * from_millis DAEMON_CONNECT_BACKOFF_MS"
proof (induction attempt i n slept rule: retry_connect.induct)
  case (2 attempt i n slept)
  show ?case
  proof (cases "attempt i")
    case Connected
    with "2.prems" show ?thesis by simp
  next
    case (Refused e)
    from "2.IH" [OF Refused] "2.prems" Refused have
      ih: "\<forall>j. Suc i \<le> j \<and> j < Suc i + n \<longrightarrow> attempt j \<noteq> Connected"
        "t = slept + from_millis DAEMON_CONNECT_BACKOFF_MS + n * from_millis DAEMON_CONNECT_BACKOFF_MS"
      by simp_all
    have "attempt j \<noteq> Connected" if "i \<le> j" "j < i + Suc n" for j
      using that ih(1) Refused by (cases "j = i") auto
    with ih(2) show ?thesis by simp
  qed
qed auto

text \<open>The connection attempts that are made: the first, and up to 40 after a daemon was started.\<close>

definition may_start :: "(nat \<Rightarrow> connect_outcome) \<Rightarrow> unit result \<Rightarrow> bool \<Rightarrow> bool" where
  "may_start attempt spawn auto_start =
     (auto_start \<and> is_ok spawn \<and>
      attempt 0 \<in> {Refused NotFound, Refused ConnectionRefused, Refused ConnectionReset})"

lemma connect_not_started:
  assumes "\<not> may_start attempt spawn auto_start"
  shows "co_spawned (connect attempt spawn root auto_start) = False"
    and "co_slept (connect attempt spawn root auto_start) = 0"
    and "case co_stream (connect attempt spawn root auto_start) of
      Inr i \<Rightarrow> i = 0 \<and> attempt 0 = Connected | Inl e \<Rightarrow> attempt 0 \<noteq> Connected"
  using assms
  by (cases "attempt 0"; cases spawn; cases "\<not> auto_start \<or> attempt 0 = Refused OtherKind";
      auto simp: connect_def may_start_def split: error_kind.splits)+

text \<open>A first attempt that is refused, and the daemon started: the loop decides.\<close>

lemma connect_started:
  assumes "may_start attempt spawn auto_start"
    and "retry_connect attempt 1 DAEMON_CONNECT_ATTEMPTS 0 = (found, slept)"
  shows "connect attempt spawn root auto_start =
      \<lparr>co_stream = (case found of Some i \<Rightarrow> Inr i
         | None \<Rightarrow> Inl (connect_error root '' after auto-start'')), co_spawned = True, co_slept = slept\<rparr>"
  using assms by (cases spawn) (auto simp: connect_def may_start_def)

text \<open>C32: connecting succeeds with the first attempt that gets through; only a missing or dead socket,
  with the auto-start allowed, starts a daemon, and then once; the client gives up after 40 more
  attempts and never sleeps longer than four seconds.\<close>

theorem connect_bounded:
  assumes r0: "r = connect attempt spawn root auto_start"
  shows "co_spawned r = may_start attempt spawn auto_start \<and>
    co_slept r \<le> from_secs 4 \<and>
    (case co_stream r of
       Inr i \<Rightarrow> attempt i = Connected \<and> (\<forall>j. attempt j = Connected \<and> j \<le> i \<longrightarrow> j = i) \<and> i \<le> 40 \<and>
         co_slept r = (i - 1) * from_millis 100
     | Inl e \<Rightarrow> attempt 0 \<noteq> Connected \<and>
         (may_start attempt spawn auto_start \<longrightarrow> (\<forall>j \<le> 40. attempt j \<noteq> Connected)))"
proof (cases "may_start attempt spawn auto_start")
  case False
  with connect_not_started [OF False, of root] show ?thesis
    unfolding r0 by (simp split: sum.splits)
next
  case True
  then have a0: "attempt 0 \<noteq> Connected" by (auto simp: may_start_def)
  have ge1: "1 \<le> j" if "attempt j = Connected" for j using that a0 by (cases j) simp_all
  obtain found slept where ret: "retry_connect attempt 1 DAEMON_CONNECT_ATTEMPTS 0 = (found, slept)"
    by fastforce
  note r = r0 [unfolded connect_started [OF True ret]]
  show ?thesis
  proof (cases found)
    case None
    with retry_connect_none [of attempt 1 DAEMON_CONNECT_ATTEMPTS 0 slept] ret have
      "\<forall>j. 1 \<le> j \<and> j < 1 + DAEMON_CONNECT_ATTEMPTS \<longrightarrow> attempt j \<noteq> Connected"
      "slept = DAEMON_CONNECT_ATTEMPTS * from_millis DAEMON_CONNECT_BACKOFF_MS" by simp_all
    with None True a0 ge1 show ?thesis by (fastforce simp: r from_millis_def from_secs_def)
  next
    case (Some k)
    with retry_connect_found [of attempt 1 DAEMON_CONNECT_ATTEMPTS 0 k slept] ret have
      k: "1 \<le> k" "k < 1 + DAEMON_CONNECT_ATTEMPTS" "attempt k = Connected"
        "\<forall>j. 1 \<le> j \<and> j < k \<longrightarrow> attempt j \<noteq> Connected"
        "slept = (k - 1) * from_millis DAEMON_CONNECT_BACKOFF_MS" by simp_all
    have "\<forall>j. attempt j = Connected \<and> j \<le> k \<longrightarrow> j = k" using k(4) ge1 le_neq_implies_less by blast
    moreover have "(k - 1) * from_millis DAEMON_CONNECT_BACKOFF_MS \<le> from_secs 4"
      using k(2) by (simp add: from_millis_def from_secs_def)
    ultimately show ?thesis using k True by (simp add: r Some)
  qed
qed

theorem connect_bounded_witness:
  "co_spawned (connect (\<lambda>i. if i = 3 then Connected else Refused NotFound) (Inr ()) [''/''] True) =
      may_start (\<lambda>i. if i = 3 then Connected else Refused NotFound) (Inr ()) True \<and>
    co_slept (connect (\<lambda>i. if i = 3 then Connected else Refused NotFound) (Inr ()) [''/''] True) \<le> from_secs 4"
  using connect_bounded [OF refl, of "\<lambda>i. if i = 3 then Connected else Refused NotFound" "Inr ()" "[''/'']" True]
  by blast

lemma write_frame_sent:
  "write_frame w e c = (r, c') \<Longrightarrow>
     cn_sent c' = cn_sent c @ [(e, is_ok r)] \<and> (is_ok r \<or> r = Inl ''write failed'')"
  by (auto simp: write_frame_def split: option.splits prod.splits)

lemma new_request_id_same [simp]:
  "new_request_id prefix c = (i, c') \<Longrightarrow> cn_sent c' = cn_sent c"
  by (auto simp: new_request_id_def Let_def)

lemma read_response_same [simp]:
  "read_response_for_id w i c = (r, c') \<Longrightarrow> cn_sent c' = cn_sent c"
  by (auto simp: read_response_for_id_def split: prod.splits)

lemma bind_client_lift: "bind_client m (\<lambda>x. lift_res (f x)) c = (let (r, c1) = m c in (bind_res r f, c1))"
  by (auto simp: bind_client_def lift_res_def split: prod.splits sum.splits)

text \<open>Every request is one attempted frame.\<close>

lemma request_ok_sent:
  assumes "request_ok w prefix t payload ok_type what c = (r, c')"
  obtains i ok where "cn_sent c' = cn_sent c @ [(request_envelope i t payload, ok)]" "is_ok r \<Longrightarrow> ok"
proof -
  obtain i c1 where i: "new_request_id prefix c = (i, c1)" by (cases "new_request_id prefix c")
  obtain wr c2 where wf: "write_frame w (request_envelope i t payload) c1 = (wr, c2)"
    by (cases "write_frame w (request_envelope i t payload) c1")
  have sent: "cn_sent c2 = cn_sent c @ [(request_envelope i t payload, is_ok wr)]"
    using write_frame_sent [OF wf] i by simp
  show ?thesis
  proof (cases wr)
    case (Inl e)
    with assms i wf have "r = Inl e" "c' = c2"
      by (simp_all add: request_ok_def bind_client_def)
    with that sent show ?thesis by simp
  next
    case (Inr u)
    obtain rr c3 where rd: "read_response_for_id w i c2 = (rr, c3)"
      by (cases "read_response_for_id w i c2")
    with assms i wf Inr have "c' = c3"
      by (auto simp: request_ok_def bind_client_def lift_res_def split: sum.splits)
    with that sent rd Inr show ?thesis by simp
  qed
qed

definition call_frame :: "string \<Rightarrow> string \<Rightarrow> json \<Rightarrow> control_envelope" where
  "call_frame i lease_id request = request_envelope i TYPE_CALL
     (to_value_call \<lparr>ca_lease_id = lease_id, ca_request = request\<rparr>)"

definition release_frame :: "string \<Rightarrow> string \<Rightarrow> control_envelope" where
  "release_frame i lease_id = request_envelope i TYPE_RELEASE
     (to_value_release \<lparr>rl_lease_id = lease_id, rl_reason = None\<rparr>)"

lemma release_lease_sent:
  assumes "release_lease w lease_id c = (r, c')"
  shows "\<exists>i ok. cn_sent c' = cn_sent c @ [(release_frame i lease_id, ok)]"
proof -
  obtain q where "request_ok w ''release'' TYPE_RELEASE
        (to_value_release \<lparr>rl_lease_id = lease_id, rl_reason = None\<rparr>) TYPE_RELEASE_OK ''Release'' c = (q, c')"
    using assms by (auto simp: release_lease_def bind_client_lift split: prod.splits)
  then show ?thesis by (rule request_ok_sent) (auto simp: release_frame_def)
qed

lemma call_and_release_sent:
  "(\<exists>i. fst (call_and_release w lease_id request c) = Inl ''write failed'' \<and>
      cn_sent (snd (call_and_release w lease_id request c)) =
        cn_sent c @ [(call_frame i lease_id request, False)]) \<or>
   (\<exists>i j ok. cn_sent (snd (call_and_release w lease_id request c)) =
      cn_sent c @ [(call_frame i lease_id request, True), (release_frame j lease_id, ok)])"
proof -
  obtain i c2 where i: "new_request_id ''call'' c = (i, c2)" by (cases "new_request_id ''call'' c")
  obtain wr c3 where wf: "write_frame w (call_frame i lease_id request) c2 = (wr, c3)"
    by (cases "write_frame w (call_frame i lease_id request) c2")
  have sent: "cn_sent c3 = cn_sent c @ [(call_frame i lease_id request, is_ok wr)]"
    using write_frame_sent [OF wf] i by simp
  show ?thesis
  proof (cases wr)
    case (Inl e)
    with write_frame_sent [OF wf] have "e = ''write failed''" by simp
    with i wf Inl sent show ?thesis
      by (auto simp: call_and_release_def bind_client_def call_frame_def)
  next
    case (Inr u)
    obtain rr c4 where rd: "read_response_for_id w i c3 = (rr, c4)"
      by (cases "read_response_for_id w i c3")
    obtain rl c5 where rl: "release_lease w lease_id c4 = (rl, c5)"
      by (cases "release_lease w lease_id c4")
    have "snd (call_and_release w lease_id request c) = c5"
      using i wf Inr rd rl by (simp add: call_and_release_def bind_client_def call_frame_def)
    with release_lease_sent [OF rl] sent rd Inr show ?thesis by auto
  qed
qed

text \<open>A call is one attempt to attach and, once a lease is held, one attempt at the call and one to
  give this very lease back, whatever came as the answer to the call: an error, nonsense, or
  nothing. The one way around the release is a call frame that cannot be written.\<close>

theorem call_lease_lifecycle:
  "case attach_session w ident kind resolved lsp c of
     (Inl e, c1) \<Rightarrow> call_conversation w ident kind resolved lsp request c = (Inl e, c1)
   | (Inr lease_id, c1) \<Rightarrow>
       (\<exists>i. fst (call_conversation w ident kind resolved lsp request c) = Inl ''write failed'' \<and>
         cn_sent (snd (call_conversation w ident kind resolved lsp request c)) =
           cn_sent c1 @ [(call_frame i lease_id request, False)]) \<or>
       (\<exists>i j ok. cn_sent (snd (call_conversation w ident kind resolved lsp request c)) =
           cn_sent c1 @ [(call_frame i lease_id request, True), (release_frame j lease_id, ok)])"
proof (cases "attach_session w ident kind resolved lsp c")
  case (Pair r c1)
  then show ?thesis
    using call_and_release_sent [of w _ request c1]
    by (cases r) (simp_all add: call_conversation_def bind_client_def)
qed

end
