(* ===== verification/Lspee_Do.thy ===== *)
theory Lspee_Do
  imports Lspee_Client
begin

section \<open>\<open>lspee do\<close>\<close>

text \<open>
  \<open>crates/lspee_cli/src/commands/do_cmd.rs\<close>: requests built from flags, the document opened and
  closed around the call, the answer unwrapped and its locations given their source line. File
  system and URL library are the fields of \<open>file_env\<close>.
\<close>

subsection \<open>Arguments\<close>

datatype do_output = OutputJson | OutputPretty

record shared_args =
  sa_lsp :: "string option"
  sa_root :: "path option"
  sa_no_start_daemon :: bool
  sa_output :: do_output

record position_args =
  pa_shared :: shared_args
  pa_file :: path
  pa_line :: u32
  pa_col :: u32

record references_args =
  ra_position :: position_args
  ra_include_declaration :: bool

record rename_args =
  rn_position :: position_args
  rn_new_name :: string

record code_action_args =
  xa_position :: position_args
  xa_end_line :: "u32 option"
  xa_end_col :: "u32 option"

record file_only_args =
  fo_shared :: shared_args
  fo_file :: path

record formatting_args =
  fa_shared :: shared_args
  fa_file :: path
  fa_tab_size :: u32
  fa_insert_spaces :: bool

record workspace_symbol_args =
  wa_lsp :: string
  wa_root :: "path option"
  wa_no_start_daemon :: bool
  wa_output :: do_output
  wa_query :: string

datatype do_method =
    Hover position_args
  | Definition position_args
  | References references_args
  | Implementation position_args
  | TypeDefinition position_args
  | Completion position_args
  | SignatureHelp position_args
  | Rename rename_args
  | CodeAction code_action_args
  | Formatting formatting_args
  | Symbols file_only_args
  | WorkspaceSymbols workspace_symbol_args
  | Diagnostics file_only_args

record lsp_position =
  lp_line :: u32
  lp_character :: u32

record request_meta =
  rm_lsp_method :: string
  rm_file_path :: "path option"
  rm_position :: "lsp_position option"

fun shared_args_of :: "do_method \<Rightarrow> shared_args" where
  "shared_args_of (Hover a) = pa_shared a"
| "shared_args_of (Definition a) = pa_shared a"
| "shared_args_of (Completion a) = pa_shared a"
| "shared_args_of (Implementation a) = pa_shared a"
| "shared_args_of (TypeDefinition a) = pa_shared a"
| "shared_args_of (SignatureHelp a) = pa_shared a"
| "shared_args_of (References a) = pa_shared (ra_position a)"
| "shared_args_of (Rename a) = pa_shared (rn_position a)"
| "shared_args_of (CodeAction a) = pa_shared (xa_position a)"
| "shared_args_of (Formatting a) = fa_shared a"
| "shared_args_of (Symbols a) = fo_shared a"
| "shared_args_of (Diagnostics a) = fo_shared a"
| "shared_args_of (WorkspaceSymbols a) =
     \<lparr>sa_lsp = Some (wa_lsp a), sa_root = wa_root a, sa_no_start_daemon = wa_no_start_daemon a,
      sa_output = wa_output a\<rparr>"

fun file_path_of :: "do_method \<Rightarrow> path option" where
  "file_path_of (Hover a) = Some (pa_file a)"
| "file_path_of (Definition a) = Some (pa_file a)"
| "file_path_of (Completion a) = Some (pa_file a)"
| "file_path_of (Implementation a) = Some (pa_file a)"
| "file_path_of (TypeDefinition a) = Some (pa_file a)"
| "file_path_of (SignatureHelp a) = Some (pa_file a)"
| "file_path_of (References a) = Some (pa_file (ra_position a))"
| "file_path_of (Rename a) = Some (pa_file (rn_position a))"
| "file_path_of (CodeAction a) = Some (pa_file (xa_position a))"
| "file_path_of (Formatting a) = Some (fa_file a)"
| "file_path_of (Symbols a) = Some (fo_file a)"
| "file_path_of (Diagnostics a) = Some (fo_file a)"
| "file_path_of (WorkspaceSymbols _) = None"

fun lsp_method_name :: "do_method \<Rightarrow> string" where
  "lsp_method_name (Hover _) = ''textDocument/hover''"
| "lsp_method_name (Definition _) = ''textDocument/definition''"
| "lsp_method_name (References _) = ''textDocument/references''"
| "lsp_method_name (Implementation _) = ''textDocument/implementation''"
| "lsp_method_name (TypeDefinition _) = ''textDocument/typeDefinition''"
| "lsp_method_name (Completion _) = ''textDocument/completion''"
| "lsp_method_name (SignatureHelp _) = ''textDocument/signatureHelp''"
| "lsp_method_name (Rename _) = ''textDocument/rename''"
| "lsp_method_name (CodeAction _) = ''textDocument/codeAction''"
| "lsp_method_name (Formatting _) = ''textDocument/formatting''"
| "lsp_method_name (Symbols _) = ''textDocument/documentSymbol''"
| "lsp_method_name (WorkspaceSymbols _) = ''workspace/symbol''"
| "lsp_method_name (Diagnostics _) = ''textDocument/diagnostic''"

fun needs_location_enrichment :: "do_method \<Rightarrow> bool" where
  "needs_location_enrichment (Definition _) = True"
| "needs_location_enrichment (References _) = True"
| "needs_location_enrichment (Implementation _) = True"
| "needs_location_enrichment (TypeDefinition _) = True"
| "needs_location_enrichment _ = False"

subsection \<open>Files and servers\<close>

text \<open>\<open>fe_url_parse\<close> gives the scheme and what \<open>to_file_path\<close> makes of the URL.\<close>

record file_env =
  fe_canonicalize :: "path \<Rightarrow> path option"
  fe_from_file_path :: "path \<Rightarrow> string option"
  fe_url_parse :: "string \<Rightarrow> (string \<times> path option) option"
  fe_read :: "path \<Rightarrow> string option"

definition file_uri :: "file_env \<Rightarrow> path \<Rightarrow> string result" where
  "file_uri fe p =
     (case fe_canonicalize fe p of
        None \<Rightarrow> Inl (''cannot resolve file path '' @ [CHR 0x27] @ path_display p @ [CHR 0x27])
      | Some canonical \<Rightarrow>
          (case fe_from_file_path fe canonical of
             None \<Rightarrow> Inl (''cannot convert path to URI: '' @ path_display canonical)
           | Some url \<Rightarrow> Inr url))"

definition uri_to_path :: "file_env \<Rightarrow> string \<Rightarrow> path option" where
  "uri_to_path fe uri =
     (case fe_url_parse fe uri of
        None \<Rightarrow> None
      | Some (scheme, p) \<Rightarrow> if scheme \<noteq> ''file'' then None else p)"

definition select_from_matches :: "lsp_selection list \<Rightarrow> path \<Rightarrow> string result" where
  "select_from_matches matches file =
     (case List.find ls_executable_found matches of
        Some healthy \<Rightarrow> Inr (ls_id healthy)
      | None \<Rightarrow>
          (case matches of
             first # _ \<Rightarrow> Inr (ls_id first)
           | [] \<Rightarrow> Inl (''no LSP server matches file '' @ [CHR 0x27] @ path_display file @ [CHR 0x27] @
               ''; use --lsp to specify one explicitly'')))"

text \<open>The catalog is asked without a user and without a project file.\<close>

definition resolve_lsp_id ::
  "config_env \<Rightarrow> path_env \<Rightarrow> language_registry option \<Rightarrow> string option \<Rightarrow> path option \<Rightarrow> string result" where
  "resolve_lsp_id env pe defaults lsp file =
     (case lsp of
        Some i \<Rightarrow> Inr i
      | None \<Rightarrow>
          (case file of
             None \<Rightarrow>
               Inl ''--lsp is required when no --file is provided (needed for workspace-symbols)''
           | Some f \<Rightarrow>
               bind_res (map_error (\<lambda>_. ''failed to resolve LSP for file'')
                   (lsps_for_file env pe defaults f None None))
                 (\<lambda>matches. select_from_matches matches f)))"

text \<open>\<open>reader.lines().nth(n)?.ok()\<close>: a line that is not UTF-8 is counted but not returned.\<close>

fun nth_line :: "nat \<Rightarrow> string \<Rightarrow> string option" where
  "nth_line n s =
     (let (l, rest) = take_line s
      in if l = [] then None
         else (case n of
                 0 \<Rightarrow> if utf8_valid l then Some (chop_line_end l) else None
               | Suc m \<Rightarrow> nth_line m rest))"

declare nth_line.simps [simp del]

definition read_context_line :: "file_env \<Rightarrow> path \<Rightarrow> u32 \<Rightarrow> string option" where
  "read_context_line fe p line = Option.bind (fe_read fe p) (nth_line (unat line))"

definition language_table :: "(string \<times> string) list" where
  "language_table =
     [(''rs'', ''rust''), (''ts'', ''typescript''), (''tsx'', ''typescriptreact''),
      (''js'', ''javascript''), (''jsx'', ''javascriptreact''), (''py'', ''python''), (''go'', ''go''),
      (''toml'', ''toml''), (''json'', ''json''), (''md'', ''markdown''), (''yaml'', ''yaml''),
      (''yml'', ''yaml''), (''html'', ''html''), (''css'', ''css'')]"

definition language_id_for_extension :: "string \<Rightarrow> string" where
  "language_id_for_extension ext = unwrap_or (map_of language_table ext) ''plaintext''"

definition language_id_for_path :: "path \<Rightarrow> string" where
  "language_id_for_path p =
     (case Option.bind (path_extension p) (\<lambda>e. if utf8_valid e then Some e else None) of
        None \<Rightarrow> ''plaintext'' | Some ext \<Rightarrow> language_id_for_extension ext)"

definition extract_lsp_result :: "json \<Rightarrow> json" where
  "extract_lsp_result response =
     (case jget response ''result'' of
        Some r \<Rightarrow> r
      | None \<Rightarrow> (case jget response ''error'' of
          Some error \<Rightarrow> jobj [(''error'', error)] | None \<Rightarrow> JNull))"

subsection \<open>Building the request\<close>

definition jsonrpc_request :: "string \<Rightarrow> json \<Rightarrow> json" where
  "jsonrpc_request method params = jobj
     [(''jsonrpc'', JStr ''2.0''), (''id'', JInt 1), (''method'', JStr method), (''params'', params)]"

definition text_document :: "string \<Rightarrow> string \<times> json" where
  "text_document uri = (''textDocument'', jobj [(''uri'', JStr uri)])"

definition position_json :: "u32 \<Rightarrow> u32 \<Rightarrow> json" where
  "position_json line character = jobj [(''line'', ju32 line), (''character'', ju32 character)]"

definition position_meta :: "do_method \<Rightarrow> position_args \<Rightarrow> request_meta" where
  "position_meta m a =
     \<lparr>rm_lsp_method = lsp_method_name m, rm_file_path = Some (pa_file a),
      rm_position = Some \<lparr>lp_line = pa_line a, lp_character = pa_col a\<rparr>\<rparr>"

definition file_meta :: "do_method \<Rightarrow> path option \<Rightarrow> request_meta" where
  "file_meta m file = \<lparr>rm_lsp_method = lsp_method_name m, rm_file_path = file, rm_position = None\<rparr>"

definition with_uri ::
  "file_env \<Rightarrow> do_method \<Rightarrow> path \<Rightarrow> request_meta \<Rightarrow> (string \<Rightarrow> (string \<times> json) list)
     \<Rightarrow> (json \<times> request_meta) result" where
  "with_uri fe m file meta params =
     bind_res (file_uri fe file) (\<lambda>uri. Inr (jsonrpc_request (lsp_method_name m) (jobj (params uri)), meta))"

definition build_position :: "file_env \<Rightarrow> do_method \<Rightarrow> position_args \<Rightarrow> (string \<times> json) list
     \<Rightarrow> (json \<times> request_meta) result" where
  "build_position fe m a extra =
     with_uri fe m (pa_file a) (position_meta m a)
       (\<lambda>uri. [text_document uri, (''position'', position_json (pa_line a) (pa_col a))] @ extra)"

fun build_request :: "file_env \<Rightarrow> do_method \<Rightarrow> (json \<times> request_meta) result" where
  "build_request fe (Hover a) = build_position fe (Hover a) a []"
| "build_request fe (Definition a) = build_position fe (Definition a) a []"
| "build_request fe (Completion a) = build_position fe (Completion a) a []"
| "build_request fe (Implementation a) = build_position fe (Implementation a) a []"
| "build_request fe (TypeDefinition a) = build_position fe (TypeDefinition a) a []"
| "build_request fe (SignatureHelp a) = build_position fe (SignatureHelp a) a []"
| "build_request fe (References a) =
     build_position fe (References a) (ra_position a)
       [(''context'', jobj [(''includeDeclaration'', JBool (ra_include_declaration a))])]"
| "build_request fe (Rename a) =
     build_position fe (Rename a) (rn_position a) [(''newName'', JStr (rn_new_name a))]"
| "build_request fe (CodeAction a) =
     (let p = xa_position a;
          end_line = unwrap_or (xa_end_line a) (pa_line p);
          end_col = unwrap_or (xa_end_col a) (pa_col p)
      in with_uri fe (CodeAction a) (pa_file p) (position_meta (CodeAction a) p)
           (\<lambda>uri. [text_document uri,
              (''range'', jobj [(''start'', position_json (pa_line p) (pa_col p)),
                                (''end'', position_json end_line end_col)]),
              (''context'', jobj [(''diagnostics'', JArr [])])]))"
| "build_request fe (Formatting a) =
     with_uri fe (Formatting a) (fa_file a) (file_meta (Formatting a) (Some (fa_file a)))
       (\<lambda>uri. [text_document uri,
          (''options'', jobj [(''tabSize'', ju32 (fa_tab_size a)),
                              (''insertSpaces'', JBool (fa_insert_spaces a))])])"
| "build_request fe (Symbols a) =
     with_uri fe (Symbols a) (fo_file a) (file_meta (Symbols a) (Some (fo_file a)))
       (\<lambda>uri. [text_document uri])"
| "build_request fe (Diagnostics a) =
     with_uri fe (Diagnostics a) (fo_file a) (file_meta (Diagnostics a) (Some (fo_file a)))
       (\<lambda>uri. [text_document uri])"
| "build_request fe (WorkspaceSymbols a) =
     Inr (jsonrpc_request (lsp_method_name (WorkspaceSymbols a)) (jobj [(''query'', JStr (wa_query a))]),
          file_meta (WorkspaceSymbols a) None)"

subsection \<open>Wrapping the answer\<close>

text \<open>The two assignments \<open>obj["file"]\<close> and \<open>obj["position"]\<close> add keys to an object literal.\<close>

definition wrap_response :: "string \<Rightarrow> request_meta \<Rightarrow> json \<Rightarrow> u64 \<Rightarrow> json" where
  "wrap_response lsp_id meta res elapsed_ms = jstruct
     [(''lsp_id'', Some (JStr lsp_id)), (''method'', Some (JStr (rm_lsp_method meta))),
      (''result'', Some res), (''elapsed_ms'', Some (ju64 elapsed_ms)),
      (''file'', map_option (\<lambda>f. JStr (path_display f)) (rm_file_path meta)),
      (''position'', map_option (\<lambda>p. position_json (lp_line p) (lp_character p)) (rm_position meta))]"

text \<open>The URI and the start line of a location, under the given two keys.\<close>

definition location_parts :: "string \<Rightarrow> string \<Rightarrow> json \<Rightarrow> (string \<times> u64) option" where
  "location_parts uri_key range_key location =
     (case (jget_str location uri_key,
            Option.bind (Option.bind (Option.bind (jget location range_key) (\<lambda>r. jget r ''start''))
              (\<lambda>s. jget s ''line'')) as_u64) of
        (Some uri, Some line) \<Rightarrow> Some (uri, line)
      | _ \<Rightarrow> None)"

definition context_line :: "file_env \<Rightarrow> string \<times> u64 \<Rightarrow> string option" where
  "context_line fe part =
     Option.bind (uri_to_path fe (fst part)) (\<lambda>p. read_context_line fe p (ucast (snd part)))"

text \<open>\<open>location["context_line"] = v\<close>; the location is an object, since it had a key.\<close>

definition put_context :: "file_env \<Rightarrow> string \<times> u64 \<Rightarrow> json \<Rightarrow> json" where
  "put_context fe part location =
     (case context_line fe part of
        None \<Rightarrow> location
      | Some context \<Rightarrow> unwrap_or (jset location ''context_line'' (JStr context)) location)"

definition enrich_single_location :: "file_env \<Rightarrow> json \<Rightarrow> json" where
  "enrich_single_location fe location =
     (case location_parts ''uri'' ''range'' location of
        Some part \<Rightarrow> put_context fe part location
      | None \<Rightarrow>
          (case location_parts ''targetUri'' ''targetRange'' location of
             Some part \<Rightarrow> put_context fe part location
           | None \<Rightarrow> location))"

definition enrich_locations :: "file_env \<Rightarrow> json \<Rightarrow> json" where
  "enrich_locations fe res =
     (case res of
        JArr xs \<Rightarrow> JArr (map (enrich_single_location fe) xs)
      | JObj m \<Rightarrow> enrich_single_location fe (JObj m)
      | _ \<Rightarrow> res)"

definition do_result :: "file_env \<Rightarrow> do_method \<Rightarrow> string \<Rightarrow> request_meta \<Rightarrow> call_ok \<Rightarrow> u64 \<Rightarrow> json" where
  "do_result fe method lsp_id meta ok elapsed_ms =
     (let res = extract_lsp_result (co_response ok);
          res1 = (if needs_location_enrichment method then enrich_locations fe res else res)
      in wrap_response lsp_id meta res1 elapsed_ms)"

definition format_do_output ::
  "'s cli_env \<Rightarrow> file_env \<Rightarrow> do_method \<Rightarrow> string \<Rightarrow> request_meta \<Rightarrow> call_ok \<Rightarrow> u64 \<Rightarrow> do_output \<Rightarrow> string" where
  "format_do_output e fe method lsp_id meta ok elapsed_ms output =
     show_json e (output = OutputPretty) (do_result fe method lsp_id meta ok elapsed_ms)"

subsection \<open>The conversation\<close>

definition did_open_message :: "string \<Rightarrow> string \<Rightarrow> string \<Rightarrow> json" where
  "did_open_message uri language_id text = jobj
     [(''jsonrpc'', JStr ''2.0''), (''method'', JStr ''textDocument/didOpen''),
      (''params'', jobj [(''textDocument'', jobj
         [(''uri'', JStr uri), (''languageId'', JStr language_id), (''version'', JInt 1),
          (''text'', JStr text)])])]"

definition did_close_message :: "string \<Rightarrow> json" where
  "did_close_message uri = jobj
     [(''jsonrpc'', JStr ''2.0''), (''method'', JStr ''textDocument/didClose''),
      (''params'', jobj [text_document uri])]"

definition notify_payload :: "string \<Rightarrow> json \<Rightarrow> json" where
  "notify_payload lease_id message = to_value_notify \<lparr>no_lease_id = lease_id, no_message = message\<rparr>"

definition open_document :: "file_env \<Rightarrow> path \<Rightarrow> (string \<times> json) result" where
  "open_document fe file =
     bind_res (file_uri fe file) (\<lambda>uri.
       case fe_read fe file of
         None \<Rightarrow> Inl (''cannot read file '' @ [CHR 0x27] @ path_display file @ [CHR 0x27] @ '' for didOpen'')
       | Some text \<Rightarrow>
           (if utf8_valid text then Inr (uri, did_open_message uri (language_id_for_path file) text)
            else Inl (''cannot read file '' @ [CHR 0x27] @ path_display file @ [CHR 0x27] @ '' for didOpen'')))"

definition send_did_open :: "'s wire \<Rightarrow> file_env \<Rightarrow> string \<Rightarrow> path \<Rightarrow> ('s, string) client" where
  "send_did_open w fe lease_id file =
     bind_client (lift_res (open_document fe file)) (\<lambda>(uri, message).
     bind_client (request_ok w ''notify-open'' TYPE_NOTIFY (notify_payload lease_id message)
        TYPE_NOTIFY_OK ''Notify (didOpen)'')
       (\<lambda>_. lift_res (Inr uri)))"

definition send_did_close :: "'s wire \<Rightarrow> string \<Rightarrow> string \<Rightarrow> ('s, unit) client" where
  "send_did_close w lease_id uri =
     bind_client (request_ok w ''notify-close'' TYPE_NOTIFY (notify_payload lease_id (did_close_message uri))
        TYPE_NOTIFY_OK ''Notify (didClose)'')
       (\<lambda>_. lift_res (Inr ()))"

text \<open>Opening is best effort: its error leaves the document closed and the command goes on.\<close>

definition try_did_open :: "'s wire \<Rightarrow> file_env \<Rightarrow> string \<Rightarrow> path option \<Rightarrow> 's conn \<Rightarrow> string option \<times> 's conn" where
  "try_did_open w fe lease_id file c =
     (case file of
        None \<Rightarrow> (None, c)
      | Some f \<Rightarrow>
          (case send_did_open w fe lease_id f c of
             (Inr uri, c1) \<Rightarrow> (Some uri, c1) | (Inl _, c1) \<Rightarrow> (None, c1)))"

definition try_did_close :: "'s wire \<Rightarrow> string \<Rightarrow> string option \<Rightarrow> 's conn \<Rightarrow> 's conn" where
  "try_did_close w lease_id uri c =
     (case uri of None \<Rightarrow> c | Some u \<Rightarrow> snd (send_did_close w lease_id u c))"

definition do_call :: "'s wire \<Rightarrow> string \<Rightarrow> json \<Rightarrow> string option \<Rightarrow> ('s, call_ok) client" where
  "do_call w lease_id request uri c =
     (let (call_id, c1) = new_request_id ''call'' c
      in bind_client (write_frame w (request_envelope call_id TYPE_CALL
             (to_value_call \<lparr>ca_lease_id = lease_id, ca_request = request\<rparr>)))
           (\<lambda>_ c2. let (call_response, c3) = read_response_for_id w call_id c2;
                       c4 = try_did_close w lease_id uri c3;
                       (_, c5) = release_lease w lease_id c4
                   in (bind_res (bind_res call_response (expect_type TYPE_CALL_OK ''Call''))
                         decode_call_ok, c5)) c1)"

definition do_conversation ::
  "'s wire \<Rightarrow> file_env \<Rightarrow> client_ident \<Rightarrow> resolved_config \<Rightarrow> string \<Rightarrow> path option \<Rightarrow> json \<Rightarrow> ('s, call_ok) client" where
  "do_conversation w fe ident resolved lsp_id file request =
     bind_client (attach_session w ident Agent resolved lsp_id) (\<lambda>lease_id c.
       let (uri, c1) = try_did_open w fe lease_id file c in do_call w lease_id request uri c1)"

definition run_do ::
  "'s cli_env \<Rightarrow> path_env \<Rightarrow> language_registry option \<Rightarrow> file_env \<Rightarrow> u64 \<Rightarrow> do_method
     \<Rightarrow> string result \<times> 's conn option" where
  "run_do e pe defaults fe elapsed_ms method =
     (let shared = shared_args_of method
      in case bind_res (resolve_root e (sa_root shared)) (\<lambda>resolved.
              bind_res (resolve_lsp_id (cl_config e) pe defaults (sa_lsp shared) (file_path_of method)) (\<lambda>lsp_id.
              bind_res (build_request fe method) (\<lambda>(request, meta).
              bind_res (cl_connect e (rv_project_root resolved) (\<not> sa_no_start_daemon shared)) (\<lambda>c.
                Inr (resolved, lsp_id, request, meta, c))))) of
           Inl error \<Rightarrow> (Inl error, None)
         | Inr (resolved, lsp_id, request, meta, c) \<Rightarrow>
             (case do_conversation (cl_wire e) fe (cl_ident e) resolved lsp_id (file_path_of method) request c of
                (Inl error, c1) \<Rightarrow> (Inl error, Some c1)
              | (Inr ok, c1) \<Rightarrow>
                  (Inr (format_do_output e fe method lsp_id meta ok elapsed_ms (sa_output shared)), Some c1)))"

subsection \<open>Properties\<close>

definition notify_frame :: "string \<Rightarrow> string \<Rightarrow> json \<Rightarrow> control_envelope" where
  "notify_frame i lease_id message = request_envelope i TYPE_NOTIFY (notify_payload lease_id message)"

lemma request_ok_acked:
  assumes "request_ok w prefix t payload ok_type what c = (Inr x, c')"
  obtains i where "cn_sent c' = cn_sent c @ [(request_envelope i t payload, True)]"
  using assms by (rule request_ok_sent) auto

text \<open>What opening the document did: nothing, or one frame; an URI only for an acknowledged one.\<close>

definition opened :: "file_env \<Rightarrow> string \<Rightarrow> path option \<Rightarrow> string option \<Rightarrow> (control_envelope \<times> bool) list \<Rightarrow> bool" where
  "opened fe lease_id file uri frames =
     (case uri of
        None \<Rightarrow> frames = [] \<or>
          (\<exists>f u m i ok. file = Some f \<and> open_document fe f = Inr (u, m) \<and> frames = [(notify_frame i lease_id m, ok)])
      | Some u \<Rightarrow>
          (\<exists>f m i. file = Some f \<and> open_document fe f = Inr (u, m) \<and> frames = [(notify_frame i lease_id m, True)]))"

lemma try_did_open_sent:
  assumes "try_did_open w fe lease_id file c = (uri, c')"
  shows "\<exists>frames. cn_sent c' = cn_sent c @ frames \<and> opened fe lease_id file uri frames"
proof (cases "file")
  case None
  with assms show ?thesis by (simp add: try_did_open_def opened_def)
next
  case (Some f)
  show ?thesis
  proof (cases "open_document fe f")
    case (Inl e)
    with assms Some show ?thesis
      by (simp add: try_did_open_def send_did_open_def bind_client_def lift_res_def opened_def)
  next
    case (Inr um)
    obtain u m where um: "um = (u, m)" by (cases um)
    obtain r c1 where req: "request_ok w ''notify-open'' TYPE_NOTIFY (notify_payload lease_id m)
        TYPE_NOTIFY_OK ''Notify (didOpen)'' c = (r, c1)" by fastforce
    show ?thesis
    proof (cases r)
      case (Inl e)
      with assms Some Inr um req have "uri = None" "c' = c1"
        by (simp_all add: try_did_open_def send_did_open_def bind_client_def lift_res_def)
      with req Some Inr um show ?thesis
        by (auto simp: opened_def notify_frame_def elim!: request_ok_sent)
    next
      case (Inr x)
      with assms Some \<open>open_document fe f = Inr um\<close> um req have "uri = Some u" "c' = c1"
        by (simp_all add: try_did_open_def send_did_open_def bind_client_def lift_res_def)
      with req Inr Some \<open>open_document fe f = Inr um\<close> um show ?thesis
        by (auto simp: opened_def notify_frame_def elim!: request_ok_acked)
    qed
  qed
qed

lemma try_did_close_sent:
  "\<exists>i ok. cn_sent (try_did_close w lease_id uri c) = cn_sent c @
     (case uri of None \<Rightarrow> [] | Some u \<Rightarrow> [(notify_frame i lease_id (did_close_message u), ok)])"
proof (cases uri)
  case None
  then show ?thesis by (simp add: try_did_close_def)
next
  case (Some u)
  obtain r c1 where req: "request_ok w ''notify-close'' TYPE_NOTIFY
      (notify_payload lease_id (did_close_message u)) TYPE_NOTIFY_OK ''Notify (didClose)'' c = (r, c1)"
    by fastforce
  then have "snd (send_did_close w lease_id u c) = c1"
    by (simp add: send_did_close_def bind_client_lift Let_def)
  with Some req show ?thesis
    by (auto simp: try_did_close_def notify_frame_def elim!: request_ok_sent)
qed

text \<open>The frames of the call and of what follows it.\<close>

lemma do_call_sent:
  obtains (unsent) i where "fst (do_call w lease_id request uri c) = Inl ''write failed''"
      "cn_sent (snd (do_call w lease_id request uri c)) = cn_sent c @ [(call_frame i lease_id request, False)]"
  | (sent) i j k ok ok' where "cn_sent (snd (do_call w lease_id request uri c)) = cn_sent c @
      [(call_frame i lease_id request, True)] @
      (case uri of None \<Rightarrow> [] | Some u \<Rightarrow> [(notify_frame k lease_id (did_close_message u), ok')]) @
      [(release_frame j lease_id, ok)]"
proof -
  obtain i c3 where i: "new_request_id ''call'' c = (i, c3)" by fastforce
  obtain wr c4 where wf: "write_frame w (call_frame i lease_id request) c3 = (wr, c4)" by fastforce
  have c4: "cn_sent c4 = cn_sent c @ [(call_frame i lease_id request, is_ok wr)]"
    using write_frame_sent [OF wf] i by simp
  show thesis
  proof (cases wr)
    case (Inl e)
    with write_frame_sent [OF wf] have "e = ''write failed''" by simp
    with i wf Inl c4 show ?thesis
      by (intro unsent [of i]) (simp_all add: do_call_def bind_client_def call_frame_def)
  next
    case (Inr u)
    obtain rr c5 where rd: "read_response_for_id w i c4 = (rr, c5)" by fastforce
    obtain rl c6 where rl: "release_lease w lease_id (try_did_close w lease_id uri c5) = (rl, c6)"
      by fastforce
    obtain k ok' where cl: "cn_sent (try_did_close w lease_id uri c5) = cn_sent c5 @
        (case uri of None \<Rightarrow> [] | Some u \<Rightarrow> [(notify_frame k lease_id (did_close_message u), ok')])"
      using try_did_close_sent by blast
    have "snd (do_call w lease_id request uri c) = c6"
      using i wf Inr rd rl by (simp add: do_call_def bind_client_def call_frame_def)
    with release_lease_sent [OF rl] cl c4 rd Inr show ?thesis
      by (auto intro: sent)
  qed
qed


lemma build_request_id:
  assumes "build_request fe m = Inr (q, meta)"
  shows "jget q ''id'' = Some (JInt 1)" "jget q ''method'' = Some (JStr (lsp_method_name m))"
    "rm_lsp_method meta = lsp_method_name m" "rm_file_path meta = file_path_of m"
proof -
  have "jget q ''id'' = Some (JInt 1) \<and> jget q ''method'' = Some (JStr (lsp_method_name m)) \<and>
      rm_lsp_method meta = lsp_method_name m \<and> rm_file_path meta = file_path_of m"
    using assms
    by (cases m) (auto simp: build_position_def with_uri_def bind_res_Inr_iff jsonrpc_request_def
        position_meta_def file_meta_def Let_def)
  then show "jget q ''id'' = Some (JInt 1)" "jget q ''method'' = Some (JStr (lsp_method_name m))"
    "rm_lsp_method meta = lsp_method_name m" "rm_file_path meta = file_path_of m" by simp_all
qed

text \<open>Every request of \<open>lspee do\<close> has the identifier 1, and a session's runtime tells the answers
  apart by it alone: two of these requests on one session wait for the same message, and the first
  answer that comes is returned for both, whichever method it belongs to.\<close>

theorem do_requests_collide:
  assumes "build_request fe1 m1 = Inr (q1, meta1)" and "build_request fe2 m2 = Inr (q2, meta2)"
  shows "runtime_call q1 True events = runtime_call q2 True events \<and>
    runtime_call q2 True (BusMessage (message_from_json
        (jobj [(''jsonrpc'', JStr ''2.0''), (''id'', JInt 1), (''result'', answer_to_q1)])) # events) =
      Some (Inr (jobj [(''jsonrpc'', JStr ''2.0''), (''id'', JInt 1), (''result'', answer_to_q1)]))"
  using build_request_id(1) [OF assms(1)] build_request_id(1) [OF assms(2)]
  by (simp add: runtime_call_def message_from_json_def)

definition demo_shared :: shared_args where
  "demo_shared = \<lparr>sa_lsp = None, sa_root = None, sa_no_start_daemon = False, sa_output = OutputJson\<rparr>"

definition demo_hover :: do_method where
  "demo_hover = Hover \<lparr>pa_shared = demo_shared, pa_file = path_of ''/w/a.rs'', pa_line = 3, pa_col = 7\<rparr>"

definition demo_symbols :: do_method where
  "demo_symbols = WorkspaceSymbols
     \<lparr>wa_lsp = ''rust-analyzer'', wa_root = None, wa_no_start_daemon = False, wa_output = OutputJson,
      wa_query = ''main''\<rparr>"

definition demo_files :: file_env where
  "demo_files =
     \<lparr>fe_canonicalize = Some, fe_from_file_path = (\<lambda>p. Some (''file://'' @ path_display p)),
      fe_url_parse = (\<lambda>u. Some (''file'', map_option path_of (strip_prefix ''file://'' u))),
      fe_read = (\<lambda>p. if p = path_of ''/w/a.rs'' then Some (''fn a'' @ [CR, LF] @ ''fn b'') else None)\<rparr>"

theorem do_requests_collide_witness:
  "\<exists>q1 q2 meta1 meta2. build_request demo_files demo_hover = Inr (q1, meta1) \<and>
     build_request demo_files demo_symbols = Inr (q2, meta2) \<and>
     runtime_call q1 True [] = runtime_call q2 True [] \<and>
     runtime_call q2 True [BusMessage (message_from_json
        (jobj [(''jsonrpc'', JStr ''2.0''), (''id'', JInt 1), (''result'', JStr ''hover'')]))] =
       Some (Inr (jobj [(''jsonrpc'', JStr ''2.0''), (''id'', JInt 1), (''result'', JStr ''hover'')]))"
proof -
  obtain q1 meta1 where b1: "build_request demo_files demo_hover = Inr (q1, meta1)"
    by (simp add: demo_hover_def demo_files_def build_position_def with_uri_def file_uri_def)
  obtain q2 meta2 where b2: "build_request demo_files demo_symbols = Inr (q2, meta2)"
    by (simp add: demo_symbols_def)
  from do_requests_collide [OF b1 b2] b1 b2 show ?thesis by blast
qed

text \<open>The lines of a file, each with its end.\<close>

function file_lines :: "string \<Rightarrow> string list" where
  "file_lines s = (let (l, rest) = take_line s in if l = [] then [] else l # file_lines rest)"
  by pat_completeness auto

termination
  by (relation "measure length") (auto dest: take_line_shorter [OF sym])

declare file_lines.simps [simp del]

lemma nth_line_nth:
  "nth_line n s =
     (if n < length (file_lines s) \<and> utf8_valid (file_lines s ! n)
      then Some (chop_line_end (file_lines s ! n)) else None)"
proof (induction n s rule: nth_line.induct)
  case (1 n s)
  obtain l rest where tl: "take_line s = (l, rest)" by fastforce
  show ?case
  proof (cases "l = []")
    case True
    with tl show ?thesis by (simp add: nth_line.simps [of n s] file_lines.simps [of s])
  next
    case False
    with tl have lines: "file_lines s = l # file_lines rest" by (simp add: file_lines.simps [of s])
    show ?thesis
    proof (cases n)
      case 0
      with tl False lines show ?thesis by (simp add: nth_line.simps [of 0 s])
    next
      case (Suc m)
      with 1 [OF tl [symmetric] refl False Suc] tl False lines show ?thesis
        by (simp add: nth_line.simps [of "Suc m" s])
    qed
  qed
qed

text \<open>C34: a location of a readable file gets the line its start names, without the line end, and keeps
  every other entry; the number is cut to 32 bits on the way, and a number past the last line or a
  line that is not UTF-8 leaves the location alone.\<close>

theorem enriched_context_exact:
  assumes parts: "location_parts ''uri'' ''range'' loc = Some (uri, line)"
    and path: "uri_to_path fe uri = Some p" and contents: "fe_read fe p = Some bytes"
    and n: "n = unat line mod 2 ^ 32"
  shows "jget (enrich_single_location fe loc) =
    (if n < length (file_lines bytes) \<and> utf8_valid (file_lines bytes ! n)
     then (jget loc)(''context_line'' \<mapsto> JStr (chop_line_end (file_lines bytes ! n)))
     else jget loc)"
proof -
  have "unat (ucast line :: 32 word) = n"
    by (simp add: n unsigned_ucast_eq take_bit_eq_mod)
  then have ctx: "context_line fe (uri, line) = nth_line n bytes"
    by (simp add: context_line_def path read_context_line_def contents)
  from parts obtain v where "jget loc ''uri'' = Some v"
    by (auto simp: location_parts_def jget_str_def Option.bind_eq_Some_conv split: option.splits)
  then obtain m where m: "loc = JObj m" using jget_Some_JObj by blast
  have "enrich_single_location fe loc = put_context fe (uri, line) loc"
    by (simp add: enrich_single_location_def parts)
  then show ?thesis
    by (auto simp: put_context_def ctx nth_line_nth m jset_def fun_eq_iff)
qed

definition demo_location :: json where
  "demo_location = jobj [(''uri'', JStr ''file:///w/a.rs''),
     (''range'', jobj [(''start'', jobj [(''line'', JInt (2 ^ 32 + 1))])])]"

lemma demo_location_parts:
  "location_parts ''uri'' ''range'' demo_location = Some (''file:///w/a.rs'', 2 ^ 32 + 1)"
  by (simp add: location_parts_def demo_location_def as_u64_def)

theorem enriched_context_exact_witness:
  "jget (enrich_single_location demo_files demo_location) ''context_line'' = Some (JStr ''fn b'')"
proof -
  have lines: "file_lines (''fn a'' @ [CR, LF] @ ''fn b'') = [''fn a'' @ [CR, LF], ''fn b'']"
    by (simp add: file_lines.simps)
  have path: "uri_to_path demo_files ''file:///w/a.rs'' = Some (path_of ''/w/a.rs'')"
    by (simp add: uri_to_path_def demo_files_def)
  have read: "fe_read demo_files (path_of ''/w/a.rs'') = Some (''fn a'' @ [CR, LF] @ ''fn b'')"
    by (simp add: demo_files_def)
  have "(1 :: nat) = unat (2 ^ 32 + 1 :: u64) mod 2 ^ 32" by simp
  from enriched_context_exact [OF demo_location_parts path read this] show ?thesis
    unfolding lines by (simp add: chop_line_end_def)
qed

text \<open>Without \<open>--lsp\<close> the server is the first of the built-in catalog, in the order of the
  identifiers, that lists the file's extension and whose executable is found, or else the first
  that lists it. No configuration file has a say: an environment with other files gives the same
  answer.\<close>

theorem do_catalog_choice:
  assumes "path_extension f = Some ext" "utf8_valid ext"
    and "matches = filter (\<lambda>(i, d). list_ex (\<lambda>c. eq_ignore_ascii_case c (to_ascii_lower ext)) (ld_file_extensions d)) r"
  shows "resolve_lsp_id env pe (Some r) None (Some f) =
    (case List.find (\<lambda>(i, d). has_executable pe (ld_command d)) matches of
       Some (i, d) \<Rightarrow> Inr i
     | None \<Rightarrow> (case matches of (i, d) # _ \<Rightarrow> Inr i
         | [] \<Rightarrow> Inl (''no LSP server matches file '' @ [CHR 0x27] @ path_display f @ [CHR 0x27] @
               ''; use --lsp to specify one explicitly''))) \<and>
    resolve_lsp_id env pe (Some r) None (Some f) = resolve_lsp_id env' pe (Some r) None (Some f)"
proof -
  have sel: "select_from_matches (map (\<lambda>(i, d). selection_from_definition pe i d) ms) f =
    (case List.find (\<lambda>(i, d). has_executable pe (ld_command d)) ms of
       Some (i, d) \<Rightarrow> Inr i
     | None \<Rightarrow> (case ms of (i, d) # _ \<Rightarrow> Inr i
         | [] \<Rightarrow> Inl (''no LSP server matches file '' @ [CHR 0x27] @ path_display f @ [CHR 0x27] @
               ''; use --lsp to specify one explicitly'')))" for ms
  proof -
    have "List.find ls_executable_found (map (\<lambda>(i, d). selection_from_definition pe i d) ms) =
        map_option (\<lambda>(i, d). selection_from_definition pe i d)
          (List.find (\<lambda>(i, d). has_executable pe (ld_command d)) ms)"
      by (induction ms) (auto simp: selection_from_definition_def)
    then show ?thesis
      by (auto simp: select_from_matches_def selection_from_definition_def
          split: option.splits list.splits)
  qed
  have mf: "List.map_filter (\<lambda>(i, d).
      if list_ex (\<lambda>c. eq_ignore_ascii_case c (to_ascii_lower ext)) (ld_file_extensions d)
      then Some (selection_from_definition pe i d) else None) r =
    map (\<lambda>(i, d). selection_from_definition pe i d) matches"
    unfolding assms(3) by (induction r) (auto simp: List.map_filter_simps)
  have "resolve_lsp_id e pe (Some r) None (Some f) =
      select_from_matches (map (\<lambda>(i, d). selection_from_definition pe i d) matches) f" for e
    using assms(1,2)
    by (simp add: resolve_lsp_id_def lsps_for_file_def load_registry_def apply_overrides_def
        map_error_def mf)
  with sel show ?thesis by simp
qed

theorem do_catalog_choice_witness:
  "resolve_lsp_id demo_env demo_path_env (Some demo_catalog) None (Some (path_of ''/w/main.rs'')) =
     resolve_lsp_id (demo_env\<lparr>cv_file := \<lambda>_. Absent\<rparr>) demo_path_env (Some demo_catalog) None
       (Some (path_of ''/w/main.rs''))"
proof -
  have "path_extension (path_of ''/w/main.rs'') = Some ''rs''" by code_simp
  moreover have "utf8_valid ''rs''" by code_simp
  ultimately show ?thesis using do_catalog_choice [OF _ _ refl] by blast
qed

end
