(* ===== verification/Lspee_Config_Edit.thy ===== *)
theory Lspee_Config_Edit
  imports Lspee_Config
begin

section \<open>Editing the project's configuration\<close>

text \<open>
  \<open>crates/lspee_cli/src/commands/config.rs\<close>: \<open>init\<close>, \<open>add-lsp\<close>, \<open>remove-lsp\<close> and \<open>set\<close> on the
  project's \<open>lspee.toml\<close>. A document is what \<open>toml_edit\<close> edits: tables whose keys keep their
  order. Its parser and printer, and the file system, are the fields of \<open>edit_env\<close>. A command
  ends with its output line, an error, or a panic, and with the file it has written, if any.
\<close>

subsection \<open>Documents\<close>

datatype titem =
    INone
  | IValue toml
  | ITable "(string \<times> titem) list"
  | IArrayOfTables "(string \<times> titem) list list"

type_synonym ttable = "(string \<times> titem) list"

definition tget :: "ttable \<Rightarrow> string \<Rightarrow> titem option" where
  "tget t k = (case map_of t k of Some INone \<Rightarrow> None | r \<Rightarrow> r)"

definition tinsert :: "ttable \<Rightarrow> string \<Rightarrow> titem \<Rightarrow> ttable" where
  "tinsert t k i = AList.update k i t"

fun item_str :: "titem \<Rightarrow> string option" where
  "item_str (IValue (TString s)) = Some s"
| "item_str _ = None"

definition entry_id :: "ttable \<Rightarrow> string option" where
  "entry_id t = Option.bind (tget t ''id'') item_str"

definition to_toml_array :: "string list \<Rightarrow> toml" where
  "to_toml_array items = TArray (map TString items)"

record edit_env =
  ed_canonicalize :: "path option \<Rightarrow> path option"
  ed_file :: "path \<Rightarrow> file_state"
  ed_exists :: "path \<Rightarrow> bool"
  ed_parse :: "string \<Rightarrow> ttable option"
  ed_print :: "ttable \<Rightarrow> string"
  ed_write_ok :: bool

datatype edit_end = Done string | EditFailed string | Panicked string

type_synonym edit = "edit_end \<times> string option"

definition config_file_path :: "path \<Rightarrow> path" where
  "config_file_path project_root = path_join project_root ''lspee.toml''"

definition canonical_root :: "edit_env \<Rightarrow> path option \<Rightarrow> path result" where
  "canonical_root ed override_root =
     (case ed_canonicalize ed override_root of
        None \<Rightarrow> Inl ''cannot resolve the project root'' | Some p \<Rightarrow> Inr p)"

definition load_doc :: "edit_env \<Rightarrow> path \<Rightarrow> ttable result" where
  "load_doc ed p =
     (case ed_file ed p of
        Contents content \<Rightarrow>
          (if \<not> utf8_valid content then Inl ''stream did not contain valid UTF-8''
           else (case ed_parse ed content of
                   None \<Rightarrow> Inl (''failed to parse '' @ path_display p)
                 | Some doc \<Rightarrow> Inr doc))
      | _ \<Rightarrow> Inl ''cannot read the file'')"

definition load_or_create_doc :: "edit_env \<Rightarrow> path \<Rightarrow> ttable result" where
  "load_or_create_doc ed p = (if ed_exists ed p then load_doc ed p else Inr [])"

text \<open>The last two steps of every edit: write the document, print a line.\<close>

definition save_doc :: "edit_env \<Rightarrow> ttable \<Rightarrow> string \<Rightarrow> edit" where
  "save_doc ed doc message =
     (if ed_write_ok ed then (Done message, Some (ed_print ed doc))
      else (EditFailed ''cannot write the file'', None))"

definition fail_edit :: "string \<Rightarrow> edit" where
  "fail_edit e = (EditFailed e, None)"

definition with_root_doc :: "edit_env \<Rightarrow> path option \<Rightarrow> (path \<Rightarrow> ttable result) \<Rightarrow> (path \<Rightarrow> ttable \<Rightarrow> edit) \<Rightarrow> edit" where
  "with_root_doc ed root load act =
     (case bind_res (canonical_root ed root) (\<lambda>project_root.
           let p = config_file_path project_root in bind_res (load p) (\<lambda>doc. Inr (p, doc))) of
        Inl e \<Rightarrow> fail_edit e
      | Inr (p, doc) \<Rightarrow> act p doc)"

subsection \<open>\<open>add-lsp\<close>\<close>

text \<open>\<open>ensure_lsp_array\<close>; \<open>None\<close> is its \<open>expect\<close> failing.\<close>

definition ensure_lsp_array :: "ttable \<Rightarrow> (ttable \<times> ttable list) option" where
  "ensure_lsp_array doc =
     (let doc1 = (if tget doc ''lsp'' = None then tinsert doc ''lsp'' (IArrayOfTables []) else doc)
      in case tget doc1 ''lsp'' of
           Some (IArrayOfTables entries) \<Rightarrow> Some (doc1, entries)
         | _ \<Rightarrow> None)"

definition set_command :: "string \<Rightarrow> string list option \<Rightarrow> ttable \<Rightarrow> ttable" where
  "set_command command args entry =
     (let e1 = tinsert entry ''command'' (IValue (TString command))
      in case args of
           None \<Rightarrow> e1
         | Some xs \<Rightarrow> tinsert e1 ''args'' (IValue (to_toml_array xs)))"

text \<open>The loop over the entries stops at the first one with the identifier.\<close>

fun update_entry :: "string \<Rightarrow> (ttable \<Rightarrow> ttable) \<Rightarrow> ttable list \<Rightarrow> bool \<times> ttable list" where
  "update_entry i f [] = (False, [])"
| "update_entry i f (entry # entries) =
     (if entry_id entry = Some i then (True, f entry # entries)
      else (let (found, rest) = update_entry i f entries in (found, entry # rest)))"

definition new_entry :: "string \<Rightarrow> string \<Rightarrow> string list option \<Rightarrow> ttable" where
  "new_entry i command args =
     tinsert (tinsert (tinsert [] ''id'' (IValue (TString i))) ''command'' (IValue (TString command)))
       ''args'' (IValue (to_toml_array (unwrap_or args [])))"

definition add_entry :: "string \<Rightarrow> string \<Rightarrow> string list option \<Rightarrow> ttable list \<Rightarrow> bool \<times> ttable list" where
  "add_entry i command args entries =
     (let (found, entries1) = update_entry i (set_command command args) entries
      in (found, if found then entries1 else entries1 @ [new_entry i command args]))"

definition run_add_lsp ::
  "edit_env \<Rightarrow> path option \<Rightarrow> string \<Rightarrow> string \<Rightarrow> string list option \<Rightarrow> edit" where
  "run_add_lsp ed root i command args =
     with_root_doc ed root (load_or_create_doc ed) (\<lambda>_ doc.
       case ensure_lsp_array doc of
         None \<Rightarrow> (Panicked ''lsp should be an array of tables'', None)
       | Some (doc1, entries) \<Rightarrow>
           (let (found, entries1) = add_entry i command args entries
            in save_doc ed (tinsert doc1 ''lsp'' (IArrayOfTables entries1))
                 (if found then ''updated'' else ''added'')))"

subsection \<open>\<open>remove-lsp\<close>\<close>

function remove_entries :: "string \<Rightarrow> nat \<Rightarrow> ttable list \<Rightarrow> ttable list" where
  "remove_entries i idx entries =
     (if idx < length entries then
        (if entry_id (entries ! idx) = Some i
         then remove_entries i idx (take idx entries @ drop (Suc idx) entries)
         else remove_entries i (Suc idx) entries)
      else entries)"
  by pat_completeness auto

termination
  by (relation "measure (\<lambda>(_, idx, entries). length entries - idx)") auto

declare remove_entries.simps [simp del]

definition run_remove_lsp :: "edit_env \<Rightarrow> path option \<Rightarrow> string \<Rightarrow> edit" where
  "run_remove_lsp ed root i =
     with_root_doc ed root
       (\<lambda>p. if \<not> ed_exists ed p then Inl (''no lspee.toml found at '' @ path_display p) else load_doc ed p)
       (\<lambda>p doc.
          case tget doc ''lsp'' of
            None \<Rightarrow> fail_edit (''no [[lsp]] entries in '' @ path_display p)
          | Some (IArrayOfTables entries) \<Rightarrow>
              (let rest = remove_entries i 0 entries
               in if length rest = length entries
                  then fail_edit (''no [[lsp]] entry with id '' @ [CHR 0x27] @ i @ [CHR 0x27] @ '' found'')
                  else save_doc ed (tinsert doc ''lsp'' (IArrayOfTables rest)) ''removed'')
          | Some _ \<Rightarrow> fail_edit (''lsp is not an array of tables in '' @ path_display p))"

subsection \<open>\<open>set\<close>\<close>

text \<open>\<open>str::parse::<i64>\<close>.\<close>

definition parse_i64 :: "string \<Rightarrow> int option" where
  "parse_i64 s =
     (let (negative, ds) = (case s of
            c # t \<Rightarrow> if c = CHR ''-'' then (True, t) else if c = CHR ''+'' then (False, t) else (False, s)
          | [] \<Rightarrow> (False, []))
      in if ds = [] then None
         else case digits_val 0 ds of
           None \<Rightarrow> None
         | Some n \<Rightarrow>
             (let v = (if negative then - int n else int n)
              in if - (2 ^ 63) \<le> v \<and> v < 2 ^ 63 then Some v else None))"

definition parse_toml_value :: "string \<Rightarrow> toml" where
  "parse_toml_value s =
     (case parse_i64 s of
        Some n \<Rightarrow> TInteger n
      | None \<Rightarrow> if s = ''true'' then TBoolean True else if s = ''false'' then TBoolean False else TString s)"

text \<open>\<open>doc[section].or_insert(..)\<close>: a missing item becomes an empty table.\<close>

definition set_in_section :: "string \<Rightarrow> string \<Rightarrow> toml \<Rightarrow> ttable \<Rightarrow> ttable result" where
  "set_in_section section_name key value doc =
     (let item = unwrap_or (map_of doc section_name) INone;
          item1 = (if item = INone then ITable [] else item)
      in case item1 of
           ITable t \<Rightarrow> Inr (tinsert doc section_name (ITable (tinsert t key (IValue value))))
         | _ \<Rightarrow> Inl ([CHR 0x27] @ section_name @ [CHR 0x27] @ '' is not a table in lspee.toml''))"

definition set_key :: "string \<Rightarrow> toml \<Rightarrow> ttable \<Rightarrow> ttable result" where
  "set_key key value doc =
     (case split_on (CHR ''.'') key of
        [section_name, k] \<Rightarrow> set_in_section section_name k value doc
      | [k] \<Rightarrow> Inr (tinsert doc k (IValue value))
      | _ \<Rightarrow> Inl (''unsupported key depth: '' @ [CHR 0x27] @ key @ [CHR 0x27] @
          ''. Use section.key format (e.g. session.idle_ttl_secs)''))"

definition run_set :: "edit_env \<Rightarrow> path option \<Rightarrow> string \<Rightarrow> string \<Rightarrow> edit" where
  "run_set ed root key value =
     with_root_doc ed root (load_or_create_doc ed) (\<lambda>_ doc.
       case set_key key (parse_toml_value value) doc of
         Inl e \<Rightarrow> fail_edit e
       | Inr doc1 \<Rightarrow> save_doc ed doc1 (''set '' @ key @ ''='' @ value))"

subsection \<open>\<open>init\<close>\<close>

definition quoted :: "string \<Rightarrow> string" where
  "quoted s = [CHR 0x22] @ s @ [CHR 0x22]"

definition detected_lsps :: "(path \<Rightarrow> bool) \<Rightarrow> path \<Rightarrow> (string \<times> string \<times> string list) list" where
  "detected_lsps path_exists project_root =
     (let has = (\<lambda>name. path_exists (path_join project_root name))
      in (if has ''Cargo.toml'' then [(''rust-analyzer'', ''rust-analyzer'', [])] else []) @
         (if has ''package.json'' \<or> has ''tsconfig.json''
          then [(''typescript-language-server'', ''typescript-language-server'', [''--stdio''])] else []) @
         (if has ''pyproject.toml'' \<or> has ''setup.py''
          then [(''pyright'', ''pyright-langserver'', [''--stdio''])] else []) @
         (if has ''go.mod'' then [(''gopls'', ''gopls'', [])] else []))"

definition init_header :: "string list" where
  "init_header = [''# lspee project configuration'', ''# Docs: https://github.com/ifiokjr/lspee'', []]"

definition init_settings :: "string list" where
  "init_settings = [''[session]'', ''idle_ttl_secs = 300'', [], ''[memory]'', ''max_session_mb = 2048'',
     ''max_total_mb = 8192'']"

definition init_hint :: "string list" where
  "init_hint = [''# No project markers detected. Add LSP entries:'', ''# [[lsp]]'',
     ''# id = '' @ quoted ''your-lsp'', ''# command = '' @ quoted ''your-lsp-binary'', ''# args = []'']"

definition init_entry :: "string \<times> string \<times> string list \<Rightarrow> string list" where
  "init_entry lsp = (case lsp of (i, command, args) \<Rightarrow>
     [''[[lsp]]'', ''id = '' @ quoted i, ''command = '' @ quoted command,
      if args = [] then ''args = []'' else ''args = ['' @ join_with '', '' (map quoted args) @ '']'', []])"

definition generate_init_template :: "(path \<Rightarrow> bool) \<Rightarrow> path \<Rightarrow> string" where
  "generate_init_template path_exists project_root =
     (let lsps = detected_lsps path_exists project_root
      in concat (map (\<lambda>l. l @ [LF])
           (init_header @ (if lsps = [] then init_hint else concat (map init_entry lsps)) @ init_settings)))"

definition run_init :: "edit_env \<Rightarrow> path option \<Rightarrow> bool \<Rightarrow> edit" where
  "run_init ed root force =
     (case canonical_root ed root of
        Inl e \<Rightarrow> fail_edit e
      | Inr project_root \<Rightarrow>
          (let p = config_file_path project_root
           in if ed_exists ed p \<and> \<not> force
              then fail_edit (''lspee.toml already exists at '' @ path_display p @
                     ''. Use --force to overwrite.'')
              else if ed_write_ok ed
              then (Done (path_display p), Some (generate_init_template (ed_exists ed) project_root))
              else fail_edit ''cannot write the file''))"

subsection \<open>What the reader makes of a document\<close>

text \<open>The items of an entry as the values \<open>PartialLspConfig\<close> is read from.\<close>

fun titem_toml :: "titem \<Rightarrow> toml option" where
  "titem_toml INone = None"
| "titem_toml (IValue v) = Some v"
| "titem_toml (ITable t) =
     Some (TTable (concat (map (\<lambda>(k, i). case titem_toml i of None \<Rightarrow> [] | Some v \<Rightarrow> [(k, v)]) t)))"
| "titem_toml (IArrayOfTables ts) =
     Some (TArray (map (\<lambda>t.
       TTable (concat (map (\<lambda>(k, i). case titem_toml i of None \<Rightarrow> [] | Some v \<Rightarrow> [(k, v)]) t))) ts))"

fun toml_strings :: "toml \<Rightarrow> string list option" where
  "toml_strings (TArray vs) = those (map (\<lambda>v. case v of TString s \<Rightarrow> Some s | _ \<Rightarrow> None) vs)"
| "toml_strings _ = None"

fun toml_table :: "toml \<Rightarrow> (string \<times> toml) list option" where
  "toml_table (TTable t) = Some t"
| "toml_table _ = None"

definition toml_string_table :: "toml \<Rightarrow> (string \<times> string) list option" where
  "toml_string_table v = Option.bind (toml_table v) (\<lambda>t.
     those (map (\<lambda>(k, x). case x of TString s \<Rightarrow> Some (k, s) | _ \<Rightarrow> None) t))"

definition entry_partial :: "ttable \<Rightarrow> partial_lsp_config" where
  "entry_partial t =
     (let get = (\<lambda>k. Option.bind (tget t k) titem_toml)
      in \<lparr>pl_id = entry_id t,
          pl_command = Option.bind (tget t ''command'') item_str,
          pl_args = Option.bind (get ''args'') toml_strings,
          pl_env = Option.bind (get ''env'') toml_string_table,
          pl_initialization_options = Option.bind (get ''initialization_options'') toml_table\<rparr>)"

lemma tget_tinsert [simp]:
  "i \<noteq> INone \<Longrightarrow> tget (tinsert t k i) k' = (if k' = k then Some i else tget t k')"
  by (cases i) (auto simp: tget_def tinsert_def update_conv')

lemma those_strings [simp]:
  "those (map (\<lambda>v. case v of TString s \<Rightarrow> Some s | _ \<Rightarrow> None) (map TString xs)) = Some xs"
  by (induction xs) auto

lemma toml_strings_array [simp]: "toml_strings (to_toml_array xs) = Some xs"
  by (simp add: to_toml_array_def del: map_map)

lemma entry_id_set_command [simp]: "entry_id (set_command c args e) = entry_id e"
  by (cases args) (simp_all add: set_command_def entry_id_def)

lemma entry_partial_set_command:
  "entry_partial (set_command c args e) =
     (entry_partial e)\<lparr>pl_command := Some c,
       pl_args := opt_or args (pl_args (entry_partial e))\<rparr>"
  by (cases args) (simp_all add: set_command_def entry_partial_def entry_id_def opt_or_def)

lemma entry_partial_new_entry:
  "entry_partial (new_entry i c args) =
     \<lparr>pl_id = Some i, pl_command = Some c, pl_args = Some (unwrap_or args []), pl_env = None,
      pl_initialization_options = None\<rparr>"
  by (simp add: new_entry_def entry_partial_def entry_id_def) (simp add: tinsert_def tget_def)

lemma fst_update_entry [simp]: "fst (update_entry i f es) \<longleftrightarrow> (\<exists>e \<in> set es. entry_id e = Some i)"
  by (induction es) (auto simp: case_prod_beta)

lemma update_entry_other:
  assumes "\<And>e. entry_id (f e) = entry_id e" and "j \<noteq> i"
  shows "filter (\<lambda>e. entry_id e \<noteq> Some i) (snd (update_entry i f es)) =
    filter (\<lambda>e. entry_id e \<noteq> Some i) es"
  by (induction es) (auto simp: assms case_prod_beta)

text \<open>The entries of a document; \<open>None\<close> when its \<open>lsp\<close> is something else.\<close>

definition doc_entries :: "ttable \<Rightarrow> ttable list option" where
  "doc_entries doc =
     (case tget doc ''lsp'' of
        None \<Rightarrow> Some [] | Some (IArrayOfTables es) \<Rightarrow> Some es | Some _ \<Rightarrow> None)"

text \<open>The entries after the first one with the identifier.\<close>

definition later_entries :: "string \<Rightarrow> ttable list \<Rightarrow> ttable list" where
  "later_entries i es = tl (dropWhile (\<lambda>e. entry_id e \<noteq> Some i) es)"

lemma ensure_lsp_array_entries:
  "ensure_lsp_array doc =
     (case doc_entries doc of
        None \<Rightarrow> None
      | Some es \<Rightarrow> Some (if tget doc ''lsp'' = None then tinsert doc ''lsp'' (IArrayOfTables []) else doc, es))"
  by (auto simp: ensure_lsp_array_def doc_entries_def Let_def split: option.splits titem.splits)

lemma opt_or_assoc: "opt_or (opt_or a b) c = opt_or a (opt_or b c)"
  by (simp add: opt_or_def split: option.splits)

lemma opt_or_Nil [simp]: "opt_or a None = a"
  by (simp add: opt_or_def split: option.splits)

lemma lsp_part_Cons:
  "lsp_part f i (p # ps) =
     opt_or (lsp_part f i ps) (if partial_lsp_id p = i then f p else None)"
proof -
  have "foldl (\<lambda>v p. if partial_lsp_id p = i then opt_or (f p) v else v) v ps =
      opt_or (foldl (\<lambda>v p. if partial_lsp_id p = i then opt_or (f p) v else v) None ps) v" for v
  proof (induction ps rule: rev_induct)
    case (snoc q qs)
    then show ?case by (auto simp: opt_or_def split: option.splits)
  qed (simp add: opt_or_def)
  from this [of "if partial_lsp_id p = i then f p else None"] show ?thesis
    by (cases "partial_lsp_id p = i") (simp_all add: lsp_part_def opt_or_Nil)
qed

lemma lsp_part_Nil [simp]: "lsp_part f i [] = None"
  by (simp add: lsp_part_def)

lemma partial_id_entry [simp]: "partial_lsp_id (entry_partial e) = unwrap_or (entry_id e) ''default''"
  by (simp add: partial_lsp_id_def entry_partial_def Let_def)

lemma entry_id_new_entry [simp]: "entry_id (new_entry i c args) = Some i"
  using entry_partial_new_entry [of i c args] by (simp add: entry_partial_def Let_def)

lemma command_entries [simp]:
  "pl_command (entry_partial (set_command c args e)) = Some c"
  "pl_command (entry_partial (new_entry i c args)) = Some c"
  by (simp_all add: entry_partial_set_command entry_partial_new_entry)

lemma add_entry_Cons:
  "add_entry i c args (e # es) =
     (if entry_id e = Some i then (True, set_command c args e # es)
      else (fst (add_entry i c args es), e # snd (add_entry i c args es)))"
  by (simp add: add_entry_def case_prod_beta)

lemma add_entry_Nil: "add_entry i c args [] = (False, [new_entry i c args])"
  by (simp add: add_entry_def)

lemma fst_add_entry [simp]: "fst (add_entry i c args es) \<longleftrightarrow> (\<exists>e \<in> set es. entry_id e = Some i)"
  by (simp add: add_entry_def case_prod_beta)

lemma add_entry_command:
  "lsp_part pl_command i (map entry_partial (snd (add_entry i c args es))) =
     opt_or (lsp_part pl_command i (map entry_partial (later_entries i es))) (Some c)"
  by (induction es) (auto simp: add_entry_Nil add_entry_Cons later_entries_def lsp_part_Cons opt_or_assoc)

lemma add_entry_other:
  assumes "j \<noteq> i"
  shows "lsp_part f j (map entry_partial (snd (add_entry i c args es))) =
    lsp_part f j (map entry_partial es)"
  using assms by (induction es) (auto simp: add_entry_Nil add_entry_Cons lsp_part_Cons)

lemma add_lsp_panics:
  assumes "canonical_root ed root = Inr r"
    and "load_or_create_doc ed (config_file_path r) = Inr doc" and "doc_entries doc = None"
  shows "run_add_lsp ed root i c args = (Panicked ''lsp should be an array of tables'', None)"
  using assms by (simp add: run_add_lsp_def with_root_doc_def ensure_lsp_array_entries Let_def)


definition demo_entry :: "string \<Rightarrow> ttable" where
  "demo_entry c = new_entry ''taplo'' c None"

definition demo_edit_env :: "ttable \<Rightarrow> edit_env" where
  "demo_edit_env doc =
     \<lparr>ed_canonicalize = (\<lambda>p. Some (unwrap_or p (path_of ''/w''))), ed_file = (\<lambda>_. Contents ''x''),
      ed_exists = (\<lambda>_. True), ed_parse = (\<lambda>_. Some doc),
      ed_print = (\<lambda>doc. unwrap_or (Option.bind (lsp_part pl_command ''taplo''
         (map entry_partial (unwrap_or (doc_entries doc) []))) Some) []), ed_write_ok = True\<rparr>"

lemma demo_edit_env_loads:
  "canonical_root (demo_edit_env doc) None = Inr (path_of ''/w'')"
  "load_or_create_doc (demo_edit_env doc) p = Inr doc"
  "ed_write_ok (demo_edit_env doc)"
  by (simp_all add: demo_edit_env_def canonical_root_def load_or_create_doc_def load_doc_def)


subsection \<open>Removing and setting\<close>

lemma remove_entries_from:
  assumes "idx \<le> length es"
  shows "remove_entries i idx es = take idx es @ filter (\<lambda>e. entry_id e \<noteq> Some i) (drop idx es)"
  using assms
proof (induction i idx es rule: remove_entries.induct)
  case (1 i idx es)
  show ?case
  proof (cases "idx < length es")
    case False
    with 1 show ?thesis by (simp add: remove_entries.simps)
  next
    case True
    then have split: "drop idx es = es ! idx # drop (Suc idx) es"
      by (simp add: Cons_nth_drop_Suc)
    show ?thesis
    proof (cases "entry_id (es ! idx) = Some i")
      case eq: True
      with 1 True show ?thesis
        by (subst remove_entries.simps) (simp add: split)
    next
      case neq: False
      with 1 True show ?thesis
        by (subst remove_entries.simps) (simp add: split take_Suc_conv_app_nth)
    qed
  qed
qed

lemma remove_entries_filter: "remove_entries i 0 es = filter (\<lambda>e. entry_id e \<noteq> Some i) es"
  by (simp add: remove_entries_from)

lemma lsp_part_filter:
  assumes "j \<noteq> i"
  shows "lsp_part f j (map entry_partial (filter (\<lambda>e. entry_id e \<noteq> Some i) es)) =
    lsp_part f j (map entry_partial es)"
  using assms by (induction es) (auto simp: lsp_part_Cons)

lemma lsp_part_filter_gone:
  assumes "i \<noteq> ''default''"
  shows "lsp_part f i (map entry_partial (filter (\<lambda>e. entry_id e \<noteq> Some i) es)) = None"
  using assms by (induction es) (auto simp: lsp_part_Cons unwrap_or_def split: option.splits)

text \<open>\<open>lspee config remove-lsp\<close> keeps, in order, exactly the entries with another identifier, and
  writes only when there was one to remove: afterwards the file gives the reader nothing for that
  identifier, and the same as before for every other.\<close>

theorem remove_lsp_contract:
  assumes "canonical_root ed root = Inr r"
    and "load_doc ed (config_file_path r) = Inr doc"
    and "ed_exists ed (config_file_path r)" and "ed_write_ok ed"
    and "tget doc ''lsp'' = Some (IArrayOfTables es)"
  shows "if \<exists>e \<in> set es. entry_id e = Some i
    then \<exists>doc' es'. run_remove_lsp ed root i = (Done ''removed'', Some (ed_print ed doc')) \<and>
      es' = filter (\<lambda>e. entry_id e \<noteq> Some i) es \<and>
      tget doc' = (tget doc)(''lsp'' \<mapsto> IArrayOfTables es') \<and>
      (\<forall>j. j \<noteq> i \<longrightarrow> lsp_part pl_command j (map entry_partial es') =
        lsp_part pl_command j (map entry_partial es)) \<and>
      (i \<noteq> ''default'' \<longrightarrow> lsp_part pl_command i (map entry_partial es') = None)
    else snd (run_remove_lsp ed root i) = None \<and> (\<exists>e. fst (run_remove_lsp ed root i) = EditFailed e)"
proof (cases "\<exists>e \<in> set es. entry_id e = Some i")
  case True
  let ?es = "filter (\<lambda>e. entry_id e \<noteq> Some i) es"
  have "length ?es \<noteq> length es"
    using True by (metis (mono_tags, lifting) length_filter_less nat_less_le)
  then have "run_remove_lsp ed root i =
      (Done ''removed'', Some (ed_print ed (tinsert doc ''lsp'' (IArrayOfTables ?es))))"
    using assms
    by (simp add: run_remove_lsp_def with_root_doc_def Let_def remove_entries_filter save_doc_def)
  with True show ?thesis
    by (auto intro!: exI [of _ "tinsert doc ''lsp'' (IArrayOfTables ?es)"]
      simp: lsp_part_filter lsp_part_filter_gone fun_eq_iff)
next
  case False
  then have "filter (\<lambda>e. entry_id e \<noteq> Some i) es = es" by (auto simp: filter_id_conv)
  then have "run_remove_lsp ed root i = fail_edit
      (''no [[lsp]] entry with id '' @ [CHR 0x27] @ i @ [CHR 0x27] @ '' found'')"
    using assms by (simp add: run_remove_lsp_def with_root_doc_def Let_def remove_entries_filter)
  with False show ?thesis by (simp add: fail_edit_def)
qed

theorem remove_lsp_contract_witness:
  "\<exists>doc'. run_remove_lsp (demo_edit_env [(''lsp'', IArrayOfTables [demo_entry ''a'', demo_entry ''b''])])
        None ''taplo'' =
      (Done ''removed'', Some (ed_print (demo_edit_env
        [(''lsp'', IArrayOfTables [demo_entry ''a'', demo_entry ''b''])]) doc')) \<and>
    tget doc' ''lsp'' = Some (IArrayOfTables [])"
proof -
  let ?es = "[demo_entry ''a'', demo_entry ''b'']"
  let ?ed = "demo_edit_env [(''lsp'', IArrayOfTables ?es)]"
  have "load_doc ?ed (config_file_path (path_of ''/w'')) = Inr [(''lsp'', IArrayOfTables ?es)]"
    by (simp add: load_doc_def demo_edit_env_def)
  moreover have "ed_exists ?ed (config_file_path (path_of ''/w''))" by (simp add: demo_edit_env_def)
  moreover have "tget [(''lsp'', IArrayOfTables ?es)] ''lsp'' = Some (IArrayOfTables ?es)"
    by (simp add: tget_def)
  ultimately show ?thesis
    using remove_lsp_contract [OF demo_edit_env_loads(1), of "[(''lsp'', IArrayOfTables ?es)]"
        "[(''lsp'', IArrayOfTables ?es)]" ?es "''taplo''"] demo_edit_env_loads(3)
    by (fastforce simp: demo_entry_def)
qed

text \<open>The item at a key path.\<close>

fun doc_get :: "ttable \<Rightarrow> string list \<Rightarrow> titem option" where
  "doc_get doc [k] = tget doc k"
| "doc_get doc [s, k] = (case tget doc s of Some (ITable t) \<Rightarrow> tget t k | _ \<Rightarrow> None)"
| "doc_get doc _ = None"

definition settable :: "ttable \<Rightarrow> string list \<Rightarrow> bool" where
  "settable doc ks =
     (case ks of
        [k] \<Rightarrow> True
      | [s, k] \<Rightarrow> (case tget doc s of None \<Rightarrow> True | Some i \<Rightarrow> (\<exists>t. i = ITable t))
      | _ \<Rightarrow> False)"

lemma tget_Nil [simp]: "tget [] k = None"
  by (simp add: tget_def)

lemma tget_map_of: "unwrap_or (map_of t k) INone = unwrap_or (tget t k) INone"
  by (auto simp: tget_def split: option.splits titem.splits)

lemma tget_not_none [simp]: "tget t k \<noteq> Some INone"
  by (auto simp: tget_def split: option.splits titem.splits)

lemma set_in_section_cases:
  "set_in_section s k v doc =
     (case tget doc s of
        None \<Rightarrow> Inr (tinsert doc s (ITable (tinsert [] k (IValue v))))
      | Some (ITable t) \<Rightarrow> Inr (tinsert doc s (ITable (tinsert t k (IValue v))))
      | Some _ \<Rightarrow> Inl ([CHR 0x27] @ s @ [CHR 0x27] @ '' is not a table in lspee.toml''))"
  by (auto simp: set_in_section_def tget_map_of Let_def split: option.splits titem.splits)

text \<open>C36: \<open>set key value\<close> succeeds exactly for a key of one part, or of two parts the first of which is
  a table or missing; then the key has the value, every other key of that table and every other
  item of the file is unchanged.\<close>

theorem set_key_contract:
  "case set_key key v doc of
     Inl e \<Rightarrow> \<not> settable doc (split_on (CHR ''.'') key)
   | Inr doc' \<Rightarrow> settable doc (split_on (CHR ''.'') key) \<and>
       doc_get doc' (split_on (CHR ''.'') key) = Some (IValue v) \<and>
       (\<forall>k. k \<noteq> hd (split_on (CHR ''.'') key) \<longrightarrow> tget doc' k = tget doc k) \<and>
       (\<forall>s k k'. split_on (CHR ''.'') key = [s, k] \<and> k' \<noteq> k \<longrightarrow>
          doc_get doc' [s, k'] = doc_get doc [s, k'])"
proof (cases "split_on (CHR ''.'') key")
  case (Cons a ks)
  show ?thesis
  proof (cases ks)
    case Nil
    with Cons show ?thesis by (simp add: set_key_def settable_def)
  next
    case (Cons b ks')
    with \<open>split_on _ _ = _\<close> show ?thesis
      by (cases ks')
        (auto simp: set_key_def settable_def set_in_section_cases split: option.splits titem.splits)
  qed
qed simp

theorem set_key_contract_witness:
  "doc_get [(''session'', ITable [(''idle_ttl_secs'', IValue (TInteger 60))])]
     [''session'', ''idle_ttl_secs''] = Some (IValue (parse_toml_value ''60'')) \<and>
   set_key ''session.idle_ttl_secs'' (parse_toml_value ''60'') [] =
     Inr [(''session'', ITable [(''idle_ttl_secs'', IValue (TInteger 60))])]"
proof -
  have r: "set_key ''session.idle_ttl_secs'' (parse_toml_value ''60'') [] =
     Inr [(''session'', ITable [(''idle_ttl_secs'', IValue (TInteger 60))])]" by code_simp
  have "split_on (CHR ''.'') ''session.idle_ttl_secs'' = [''session'', ''idle_ttl_secs'']" by code_simp
  with r set_key_contract [where key = "''session.idle_ttl_secs''" and v = "parse_toml_value ''60''" and doc = "[]"]
  show ?thesis by simp
qed

text \<open>The file system after a command has written the project's file.\<close>

definition after_write :: "edit_env \<Rightarrow> path \<Rightarrow> string \<Rightarrow> edit_env" where
  "after_write ed p out =
     ed\<lparr>ed_file := (ed_file ed)(p := Contents out), ed_exists := (ed_exists ed)(p := True)\<rparr>"

text \<open>A key of one part overwrites whatever is there: \<open>lspee config set lsp v\<close> succeeds, and adding a
  server to the file it leaves panics, whatever the file held.\<close>

theorem set_lsp_breaks_add:
  assumes "canonical_root ed root = Inr r"
    and "load_or_create_doc ed (config_file_path r) = Inr doc"
    and "ed_write_ok ed"
    and d: "d = tinsert doc ''lsp'' (IValue (parse_toml_value v))"
    and "ed_parse ed (ed_print ed d) = Some d" and "utf8_valid (ed_print ed d)"
  shows "run_set ed root ''lsp'' v = (Done (''set lsp='' @ v), Some (ed_print ed d)) \<and>
    run_add_lsp (after_write ed (config_file_path r) (ed_print ed d)) root i c args =
      (Panicked ''lsp should be an array of tables'', None)"
proof (rule conjI)
  let ?ed = "after_write ed (config_file_path r) (ed_print ed d)"
  have k: "split_on (CHR ''.'') ''lsp'' = [''lsp'']" by code_simp
  show "run_set ed root ''lsp'' v = (Done (''set lsp='' @ v), Some (ed_print ed d))"
    using assms by (simp add: run_set_def with_root_doc_def set_key_def k save_doc_def Let_def)
  have "canonical_root ?ed root = Inr r"
    using assms(1) by (simp add: canonical_root_def after_write_def)
  moreover have "load_or_create_doc ?ed (config_file_path r) = Inr d"
    using assms(5,6) by (simp add: load_or_create_doc_def load_doc_def after_write_def)
  moreover have "doc_entries d = None" by (simp add: doc_entries_def d)
  ultimately show "run_add_lsp ?ed root i c args =
      (Panicked ''lsp should be an array of tables'', None)"
    by (rule add_lsp_panics)
qed

definition demo_new_env :: edit_env where
  "demo_new_env = (demo_edit_env [(''lsp'', IValue (TString ''taplo''))])\<lparr>ed_exists := (\<lambda>_. False),
     ed_print := (\<lambda>_. ''out'')\<rparr>"

theorem set_lsp_breaks_add_witness:
  "run_set demo_new_env None ''lsp'' ''taplo'' = (Done ''set lsp=taplo'', Some ''out'') \<and>
   run_add_lsp (after_write demo_new_env (config_file_path (path_of ''/w'')) ''out'') None ''taplo''
     ''taplo'' None = (Panicked ''lsp should be an array of tables'', None)"
proof -
  have "canonical_root demo_new_env None = Inr (path_of ''/w'')"
    by (simp add: demo_new_env_def demo_edit_env_def canonical_root_def)
  moreover have "load_or_create_doc demo_new_env (config_file_path (path_of ''/w'')) = Inr []"
    by (simp add: load_or_create_doc_def demo_new_env_def)
  moreover have "ed_write_ok demo_new_env" by (simp add: demo_new_env_def demo_edit_env_def)
  moreover have v: "parse_toml_value ''taplo'' = TString ''taplo''" by code_simp
  have "[(''lsp'', IValue (TString ''taplo''))] = tinsert [] ''lsp'' (IValue (parse_toml_value ''taplo''))"
    by (simp add: tinsert_def v)
  moreover have "ed_parse demo_new_env (ed_print demo_new_env [(''lsp'', IValue (TString ''taplo''))]) =
      Some [(''lsp'', IValue (TString ''taplo''))]" "ed_print demo_new_env = (\<lambda>_. ''out'')"
    by (simp_all add: demo_new_env_def demo_edit_env_def)
  moreover have "utf8_valid ''out''" by code_simp
  ultimately show ?thesis
    using set_lsp_breaks_add [where ed = demo_new_env and root = None and r = "path_of ''/w''" and
        doc = "[]" and v = "''taplo''" and d = "[(''lsp'', IValue (TString ''taplo''))]" and
        i = "''taplo''" and c = "''taplo''" and args = None]
    by simp
qed

text \<open>A value that reads as a number or a truth value is not written as a string: \<open>workspace_mode\<close> set
  to \<open>1\<close> is written as a number, which the reader of the file, expecting a string, refuses.\<close>

lemma parse_toml_value_exact:
  "parse_toml_value s = TString s' \<longleftrightarrow>
     s' = s \<and> parse_i64 s = None \<and> s \<noteq> ''true'' \<and> s \<noteq> ''false''"
  by (auto simp: parse_toml_value_def split: option.splits)

end
