(* ===== verification/Lspee_Stream.thy ===== *)
theory Lspee_Stream
  imports Lspee_Registry Lspee_Lsp
begin

section \<open>Dedicated streams\<close>

text \<open>
  \<open>crates/lspee_daemon/src/stream.rs\<close>: the socket of one lease. Two tasks produce outbound
  frames, from what the language server publishes and from the notice of an eviction; the
  connection itself forwards inbound frames and gives the lease back when its input ends. The
  events of the two receivers, the inbound bytes and the system calls are parameters.
\<close>

subsection \<open>The endpoint\<close>

definition stream_dir :: "path \<Rightarrow> path" where
  "stream_dir project_root = path_join (path_join project_root ''.lspee'') ''streams''"

definition stream_endpoint :: "path \<Rightarrow> string \<Rightarrow> path" where
  "stream_endpoint project_root lease_id = path_join (stream_dir project_root) (lease_id @ ''.sock'')"

text \<open>
  A leftover socket file is removed first; the second component says whether it was.
\<close>

definition spawn_dedicated_stream_endpoint ::
  "(path \<Rightarrow> bool) \<Rightarrow> (path \<Rightarrow> bool) \<Rightarrow> (path \<Rightarrow> bool) \<Rightarrow> path \<Rightarrow> string \<Rightarrow> path result \<times> path list" where
  "spawn_dedicated_stream_endpoint create_dir_all path_exists bind_socket project_root lease_id =
     (let endpoint = stream_endpoint project_root lease_id
      in if \<not> create_dir_all (stream_dir project_root) then
           (Inl ''failed to create stream socket directory'', [])
         else
           (if bind_socket endpoint then Inr endpoint
            else Inl (''failed to bind dedicated stream socket '' @ path_display endpoint),
            if path_exists endpoint then [endpoint] else []))"

subsection \<open>Outbound frames\<close>

definition saturating_add :: "u64 \<Rightarrow> u64 \<Rightarrow> u64" where
  "saturating_add a b = (if unat a + unat b < 2 ^ 64 then a + b else - 1)"

definition lsp_out_frame :: "string \<Rightarrow> u64 \<Rightarrow> json \<Rightarrow> stream_frame" where
  "lsp_out_frame lease_id seq payload =
     \<lparr>sf_v = PROTOCOL_VERSION, sf_frame_type = LspOut, sf_lease_id = lease_id, sf_seq = seq,
      sf_payload = payload\<rparr>"

text \<open>
  The task behind the language server's messages, from the sequence number it has reached. Each
  event comes with whether the outbound channel takes the frame; the task ends when it does not.
\<close>

fun runtime_task :: "string \<Rightarrow> u64 \<Rightarrow> (bus_event \<times> bool) list \<Rightarrow> stream_frame list" where
  "runtime_task lease_id seq [] = []"
| "runtime_task lease_id seq ((BusMessage message, queued) # es) =
     (if queued
      then lsp_out_frame lease_id seq (lm_payload message) #
             runtime_task lease_id (saturating_add seq 1) es
      else [])"
| "runtime_task lease_id seq ((BusLagged _, _) # es) = runtime_task lease_id seq es"
| "runtime_task lease_id seq ((BusClosed, _) # es) = []"

text \<open>The task behind the session's events sends the first one and ends.\<close>

datatype event_receipt = EventPayload json | EventLagged | EventClosed

fun event_task :: "string \<Rightarrow> (event_receipt \<times> bool) list \<Rightarrow> stream_frame list" where
  "event_task lease_id [] = []"
| "event_task lease_id ((EventPayload payload, queued) # es) =
     (if queued
      then [\<lparr>sf_v = PROTOCOL_VERSION, sf_frame_type = StreamError, sf_lease_id = lease_id,
             sf_seq = 1, sf_payload = payload\<rparr>]
      else [])"
| "event_task lease_id ((EventLagged, _) # es) = event_task lease_id es"
| "event_task lease_id ((EventClosed, _) # es) = []"

text \<open>The writer task: the queued frames as lines, up to the first write that fails.\<close>

fun stream_writer :: "(json \<Rightarrow> string) \<Rightarrow> bool list \<Rightarrow> stream_frame list \<Rightarrow> string" where
  "stream_writer ser _ [] = []"
| "stream_writer ser [] (f # fs) = []"
| "stream_writer ser (write_ok # oks) (f # fs) =
     (if write_ok then line_frame ser (to_value_stream_frame f) @ stream_writer ser oks fs else [])"

subsection \<open>Inbound frames\<close>

text \<open>
  The read loop: the payloads handed to the language server, and how the loop ends. \<open>send\<close> is the
  runtime's queue.
\<close>

function inbound_loop ::
  "(string \<Rightarrow> json option) \<Rightarrow> (json \<Rightarrow> unit result) \<Rightarrow> string \<Rightarrow> string \<Rightarrow> json list \<times> unit result" where
  "inbound_loop par send lease_id input =
     (case next_line input of
        Inl e \<Rightarrow> ([], Inl e)
      | Inr None \<Rightarrow> ([], Inr ())
      | Inr (Some (line, rest)) \<Rightarrow>
     (case Option.bind (par line) from_value_stream_frame of
        None \<Rightarrow> ([], Inl ''failed to decode inbound dedicated stream frame'')
      | Some frame \<Rightarrow>
          (if sf_lease_id frame \<noteq> lease_id \<or> sf_frame_type frame \<noteq> LspIn
           then inbound_loop par send lease_id rest
           else (case send (sf_payload frame) of
                   Inl e \<Rightarrow> ([], Inl e)
                 | Inr _ \<Rightarrow>
                     (let (sent, fin) = inbound_loop par send lease_id rest
                      in (sf_payload frame # sent, fin))))))"
  by pat_completeness auto

termination
  by (relation "measure (\<lambda>(_, _, _, input). length input)") (auto dest: next_line_shorter)

declare inbound_loop.simps [simp del]

text \<open>An error leaves by \<open>?\<close>: the lease is given back only behind the loop's normal end.\<close>

definition run_stream_connection ::
  "(string \<Rightarrow> json option) \<Rightarrow> (json \<Rightarrow> unit result) \<Rightarrow> instant \<Rightarrow> string \<Rightarrow> string \<Rightarrow> registry
     \<Rightarrow> (json list \<times> unit result) \<times> registry" where
  "run_stream_connection par send now lease_id input r =
     (case inbound_loop par send lease_id input of
        (sent, Inl e) \<Rightarrow> ((sent, Inl e), r)
      | (sent, Inr u) \<Rightarrow> ((sent, Inr u), snd (release_by_lease_id now lease_id r)))"

subsection \<open>Properties\<close>

lemma unat_saturating_add: "unat (saturating_add a b) = min (unat a + unat b) (2 ^ 64 - 1)"
proof (cases "unat a + unat b < 2 ^ 64")
  case True
  then have "unat (a + b) = unat a + unat b" by (simp add: unat_word_ariths(1))
  with True show ?thesis by (simp add: saturating_add_def)
next
  case False
  then show ?thesis
    by (simp add: saturating_add_def unsigned_minus_1_eq_mask mask_eq_exp_minus_1)
qed

text \<open>The messages the task sends: those before the close or the first refusal.\<close>

fun accepted_messages :: "(bus_event \<times> bool) list \<Rightarrow> lsp_message list" where
  "accepted_messages [] = []"
| "accepted_messages ((BusMessage m, queued) # es) = (if queued then m # accepted_messages es else [])"
| "accepted_messages ((BusLagged _, _) # es) = accepted_messages es"
| "accepted_messages ((BusClosed, _) # es) = []"

lemma runtime_task_frames:
  "map sf_payload (runtime_task lease_id seq es) = map lm_payload (accepted_messages es)"
  "list_all (\<lambda>f. sf_frame_type f = LspOut \<and> sf_lease_id f = lease_id \<and> sf_v f = PROTOCOL_VERSION)
     (runtime_task lease_id seq es)"
  by (induction lease_id seq es rule: runtime_task.induct) (simp_all add: lsp_out_frame_def)

lemma runtime_task_seq:
  "map (unat \<circ> sf_seq) (runtime_task lease_id seq es) =
     map (\<lambda>i. min (unat seq + i) (2 ^ 64 - 1)) [0..<length (accepted_messages es)]"
proof (induction lease_id seq es rule: runtime_task.induct)
  case (2 lease_id seq message queued es)
  have "(\<lambda>i. min (min (unat seq + 1) (2 ^ 64 - 1) + i) (2 ^ 64 - 1)) =
      (\<lambda>i. min (unat seq + Suc i) (2 ^ 64 - 1 :: nat))" by auto
  moreover have "unat seq < 2 ^ 64" using unsigned_less [of seq, where ?'a = nat] by simp
  ultimately show ?case
    using 2 by (simp add: lsp_out_frame_def unat_saturating_add map_upt_Suc del: upt_Suc)
qed simp_all

text \<open>C31: a dedicated stream carries the messages of the language server in their order, each in a
  frame of the lease; the frames are numbered 1, 2, 3 and so on, until the counter stays at
  \<open>2 ^ 64 - 1\<close>. A lagging receiver leaves no gap in the numbers. The notice of an eviction is at
  most one frame, always with number 1.\<close>

theorem stream_numbering:
  "map sf_payload (runtime_task lease_id 1 es) = map lm_payload (accepted_messages es) \<and>
   list_all (\<lambda>f. sf_frame_type f = LspOut \<and> sf_lease_id f = lease_id) (runtime_task lease_id 1 es) \<and>
   map (unat \<circ> sf_seq) (runtime_task lease_id 1 es) =
     map (\<lambda>i. min (i + 1) (2 ^ 64 - 1)) [0..<length (accepted_messages es)] \<and>
   length (event_task lease_id ns) \<le> 1 \<and>
   list_all (\<lambda>f. sf_frame_type f = StreamError \<and> sf_seq f = 1) (event_task lease_id ns)"
proof -
  have "length (event_task lease_id ns) \<le> 1 \<and>
      list_all (\<lambda>f. sf_frame_type f = StreamError \<and> sf_seq f = 1) (event_task lease_id ns)"
    by (induction lease_id ns rule: event_task.induct) simp_all
  moreover have "list_all (\<lambda>f. sf_frame_type f = LspOut \<and> sf_lease_id f = lease_id)
      (runtime_task lease_id 1 es)"
    using runtime_task_frames(2) [of lease_id 1 es] by (simp add: list_all_iff)
  ultimately show ?thesis
    using runtime_task_frames(1) [of lease_id 1 es] runtime_task_seq [of lease_id 1 es]
    by (simp add: add.commute)
qed

text \<open>The frames of an input that the loop accepts, and the payloads it forwards from them.\<close>

definition forwarded :: "string \<Rightarrow> stream_frame list \<Rightarrow> json list" where
  "forwarded lease_id fs =
     map sf_payload (filter (\<lambda>f. sf_lease_id f = lease_id \<and> sf_frame_type f = LspIn) fs)"

lemma inbound_loop_frame:
  assumes "json_text_ok ser par (to_value_stream_frame f)"
  shows "inbound_loop par send lease_id (line_frame ser (to_value_stream_frame f) @ rest) =
    (if sf_lease_id f \<noteq> lease_id \<or> sf_frame_type f \<noteq> LspIn then inbound_loop par send lease_id rest
     else (case send (sf_payload f) of
             Inl e \<Rightarrow> ([], Inl e)
           | Inr _ \<Rightarrow> (let (sent, fin) = inbound_loop par send lease_id rest
                       in (sf_payload f # sent, fin))))"
  using json_text_okD [OF assms]
  by (subst inbound_loop.simps) (simp add: line_frame_def next_line_text)

lemma inbound_loop_frames:
  assumes "list_all (\<lambda>f. json_text_ok ser par (to_value_stream_frame f)) fs"
    and "\<And>m. m \<in> set (forwarded lease_id fs) \<Longrightarrow> is_ok (send m)"
  shows "inbound_loop par send lease_id
      (concat (map (\<lambda>f. line_frame ser (to_value_stream_frame f)) fs) @ rest) =
    (let (sent, fin) = inbound_loop par send lease_id rest in (forwarded lease_id fs @ sent, fin))"
  using assms
proof (induction fs)
  case Nil
  then show ?case by (simp add: forwarded_def split: prod.splits)
next
  case (Cons f fs)
  have rest: "inbound_loop par send lease_id
      (concat (map (\<lambda>f. line_frame ser (to_value_stream_frame f)) fs) @ rest) =
    (let (sent, fin) = inbound_loop par send lease_id rest in (forwarded lease_id fs @ sent, fin))"
    by (rule Cons.IH) (use Cons.prems in \<open>auto simp: forwarded_def\<close>)
  show ?case
  proof (cases "sf_lease_id f \<noteq> lease_id \<or> sf_frame_type f \<noteq> LspIn")
    case True
    then have "forwarded lease_id (f # fs) = forwarded lease_id fs" by (auto simp: forwarded_def)
    with Cons.prems(1) rest True show ?thesis by (simp add: inbound_loop_frame)
  next
    case False
    with Cons.prems(2) [of "sf_payload f"] have "is_ok (send (sf_payload f))"
      by (simp add: forwarded_def)
    then obtain u where "send (sf_payload f) = Inr u" by (cases "send (sf_payload f)") simp_all
    with Cons.prems(1) rest False show ?thesis
      by (simp add: inbound_loop_frame forwarded_def split_def Let_def)
  qed
qed

text \<open>C30: a dedicated stream whose client sends well-formed frames forwards exactly the payloads of
  the \<open>LspIn\<close> frames that name its lease, in order, and gives the lease back when the client
  closes. If bytes follow that are no frame, the same payloads are forwarded but the connection
  ends in an error and the registry still holds the lease.\<close>

theorem stream_connection_release:
  assumes frames: "list_all (\<lambda>f. json_text_ok ser par (to_value_stream_frame f)) fs"
    and sends: "list_all (\<lambda>m. is_ok (send m)) (forwarded lease_id fs)"
    and junk: "LF \<notin> set junk" "CR \<notin> set junk" "utf8_valid junk"
      "Option.bind (par junk) from_value_stream_frame = None"
    and inv: "registry_inv r" and owner: "lease_owner r lease_id = Some key"
  shows "(\<exists>r'. run_stream_connection par send now lease_id
        (concat (map (\<lambda>f. line_frame ser (to_value_stream_frame f)) fs)) r =
          ((forwarded lease_id fs, Inr ()), r') \<and> lease_owner r' lease_id = None \<and>
        abs_registry r' = spec_release lease_id (abs_registry r)) \<and>
    run_stream_connection par send now lease_id
        (concat (map (\<lambda>f. line_frame ser (to_value_stream_frame f)) fs) @ junk @ [LF]) r =
      ((forwarded lease_id fs, Inl ''failed to decode inbound dedicated stream frame''), r)"
proof -
  from sends have snd_ok: "\<And>m. m \<in> set (forwarded lease_id fs) \<Longrightarrow> is_ok (send m)"
    by (simp add: list_all_iff)
  have "inbound_loop par send lease_id [] = ([], Inr ())"
    by (subst inbound_loop.simps) (simp add: next_line_def)
  with inbound_loop_frames [OF frames snd_ok, where rest = "[]"]
  have fine: "inbound_loop par send lease_id
      (concat (map (\<lambda>f. line_frame ser (to_value_stream_frame f)) fs)) = (forwarded lease_id fs, Inr ())"
    by simp
  have "inbound_loop par send lease_id (junk @ [LF]) =
      ([], Inl ''failed to decode inbound dedicated stream frame'')"
    using junk by (subst inbound_loop.simps) (simp add: next_line_text)
  with inbound_loop_frames [OF frames snd_ok, where rest = "junk @ [LF]"]
  have bad: "inbound_loop par send lease_id
      (concat (map (\<lambda>f. line_frame ser (to_value_stream_frame f)) fs) @ junk @ [LF]) =
      (forwarded lease_id fs, Inl ''failed to decode inbound dedicated stream frame'')"
    by simp
  have "lease_owner (snd (release_by_lease_id now lease_id r)) lease_id = None"
    using reg.release_owner [OF inv] by simp
  moreover have "abs_registry (snd (release_by_lease_id now lease_id r)) =
      spec_release lease_id (abs_registry r)"
    using inv by (rule abs_release)
  ultimately show ?thesis by (simp add: run_stream_connection_def fine bad)
qed

definition demo_frame :: stream_frame where
  "demo_frame = \<lparr>sf_v = PROTOCOL_VERSION, sf_frame_type = LspIn, sf_lease_id = lease_name 2, sf_seq = 1,
     sf_payload = demo_json\<rparr>"

definition demo_frame_par :: "string \<Rightarrow> json option" where
  "demo_frame_par s = (if s = ''{}'' then Some (to_value_stream_frame demo_frame) else None)"

lemma demo_frame_text: "json_text_ok demo_ser demo_frame_par (to_value_stream_frame demo_frame)"
  by (simp add: json_text_ok_def demo_ser_def demo_frame_par_def)

lemma demo_frame_owner: "lease_owner demo_registry (lease_name 2) = Some demo_key"
  by code_simp

theorem stream_connection_release_witness:
  "(\<exists>r'. run_stream_connection demo_frame_par (\<lambda>_. Inr ()) 9 (lease_name 2)
        (concat (map (\<lambda>f. line_frame demo_ser (to_value_stream_frame f)) [demo_frame])) demo_registry =
          (([demo_json], Inr ()), r') \<and> lease_owner r' (lease_name 2) = None) \<and>
    run_stream_connection demo_frame_par (\<lambda>_. Inr ()) 9 (lease_name 2)
        (concat (map (\<lambda>f. line_frame demo_ser (to_value_stream_frame f)) [demo_frame]) @ ''x'' @ [LF])
        demo_registry =
      (([demo_json], Inl ''failed to decode inbound dedicated stream frame''), demo_registry)"
proof -
  have fw: "forwarded (lease_name 2) [demo_frame] = [demo_json]"
    by (simp add: forwarded_def demo_frame_def)
  have "list_all (\<lambda>f. json_text_ok demo_ser demo_frame_par (to_value_stream_frame f)) [demo_frame]"
    by (simp add: demo_frame_text)
  from stream_connection_release [OF this _ _ _ _ _ demo_registry_inv demo_frame_owner,
      of "\<lambda>_. Inr ()" "''x''" 9]
  show ?thesis by (simp add: fw) (auto simp: demo_frame_par_def)
qed

end
