(* ===== verification/Lspee_Text.thy ===== *)
theory Lspee_Text
  imports Lspee_Json
begin

section \<open>A text codec that meets the contract of \<open>serde_json\<close>\<close>

text \<open>
  The definitions of the other theories take the printer and the parser of JSON text as
  parameters, and their properties assume of them what \<open>json_text_ok\<close> says. Here is one pair of
  functions that has it for every value: values are printed in prefix form, with counted strings,
  arrays and objects. Properties that need the contract for values not fixed in advance are
  instantiated with this pair.
\<close>

definition number_text :: "nat \<Rightarrow> string" where
  "number_text n = nat_str n @ ''.''"

text \<open>A character is written as its eight bits.\<close>

definition char_text :: "char \<Rightarrow> string" where
  "char_text c =
     (case c of Char b0 b1 b2 b3 b4 b5 b6 b7 \<Rightarrow>
        map (\<lambda>b. if b then CHR ''1'' else CHR ''0'') [b0, b1, b2, b3, b4, b5, b6, b7])"

definition string_text :: "string \<Rightarrow> string" where
  "string_text s = number_text (length s) @ concat (map char_text s)"

definition fields_text :: "(string, string) fmap \<Rightarrow> string" where
  "fields_text m =
     (let l = sorted_list_of_fmap m
      in number_text (length l) @ concat (map (\<lambda>(k, t). string_text k @ t) l))"

primrec text_of :: "json \<Rightarrow> string" where
  "text_of JNull = ''n''"
| "text_of (JBool b) = (if b then ''t'' else ''f'')"
| "text_of (JInt i) = (if i < 0 then ''m'' else ''i'') @ number_text (nat \<bar>i\<bar>)"
| "text_of (JFloat w) = ''d'' @ number_text (unat w)"
| "text_of (JStr s) = ''s'' @ string_text s"
| "text_of (JArr xs) = ''a'' @ number_text (length xs) @ concat (map text_of xs)"
| "text_of (JObj m) = ''o'' @ fields_text (fmmap text_of m)"

type_synonym 'a parser = "string \<Rightarrow> ('a \<times> string) option"

definition parse_number :: "nat parser" where
  "parse_number s =
     (case dropWhile is_digit s of
        [] \<Rightarrow> None
      | c # r \<Rightarrow> if c = CHR ''.'' then map_option (\<lambda>n. (n, r)) (digits_val 0 (takeWhile is_digit s)) else None)"

primrec parse_many :: "'a parser \<Rightarrow> nat \<Rightarrow> 'a list parser" where
  "parse_many p 0 s = Some ([], s)"
| "parse_many p (Suc n) s =
     Option.bind (p s) (\<lambda>(x, r). map_option (map_prod (Cons x) id) (parse_many p n r))"

definition parse_counted :: "'a parser \<Rightarrow> 'a list parser" where
  "parse_counted p s = Option.bind (parse_number s) (\<lambda>(n, r). parse_many p n r)"

definition parse_char :: "char parser" where
  "parse_char s =
     (case s of
        b0 # b1 # b2 # b3 # b4 # b5 # b6 # b7 # r \<Rightarrow>
          Some (Char (b0 = CHR ''1'') (b1 = CHR ''1'') (b2 = CHR ''1'') (b3 = CHR ''1'')
            (b4 = CHR ''1'') (b5 = CHR ''1'') (b6 = CHR ''1'') (b7 = CHR ''1''), r)
      | _ \<Rightarrow> None)"

definition parse_string :: "string parser" where
  "parse_string = parse_counted parse_char"

definition parse_field :: "json parser \<Rightarrow> (string \<times> json) parser" where
  "parse_field p s =
     Option.bind (parse_string s) (\<lambda>(k, r). map_option (map_prod (Pair k) id) (p r))"

text \<open>The first argument bounds the nesting; the length of the text is enough.\<close>

primrec parse_value :: "nat \<Rightarrow> json parser" where
  "parse_value 0 s = None"
| "parse_value (Suc n) s =
     (case s of
        [] \<Rightarrow> None
      | c # r \<Rightarrow>
          if c = CHR ''n'' then Some (JNull, r)
          else if c = CHR ''t'' then Some (JBool True, r)
          else if c = CHR ''f'' then Some (JBool False, r)
          else if c = CHR ''i'' then map_option (map_prod (\<lambda>k. JInt (int k)) id) (parse_number r)
          else if c = CHR ''m'' then map_option (map_prod (\<lambda>k. JInt (- int k)) id) (parse_number r)
          else if c = CHR ''d'' then map_option (map_prod (\<lambda>k. JFloat (of_nat k)) id) (parse_number r)
          else if c = CHR ''s'' then map_option (map_prod JStr id) (parse_string r)
          else if c = CHR ''a'' then map_option (map_prod JArr id) (parse_counted (parse_value n) r)
          else if c = CHR ''o''
          then map_option (map_prod (\<lambda>l. JObj (fmap_of_list l)) id) (parse_counted (parse_field (parse_value n)) r)
          else None)"

definition parse_text :: "string \<Rightarrow> json option" where
  "parse_text s =
     (case parse_value (length s) s of Some (v, []) \<Rightarrow> Some v | _ \<Rightarrow> None)"

subsection \<open>Parsing what was printed\<close>

lemma parse_number_text [simp]: "parse_number (number_text n @ r) = Some (n, r)"
proof -
  have "takeWhile is_digit (nat_str n @ CHR ''.'' # r) = nat_str n"
    "dropWhile is_digit (nat_str n @ CHR ''.'' # r) = CHR ''.'' # r"
    using nat_str_digits [of _ n]
    by (simp_all add: takeWhile_append dropWhile_append is_digit_def less_eq_char_def)
  then show ?thesis by (simp add: parse_number_def number_text_def)
qed

lemma parse_many_text:
  assumes "\<And>x r. x \<in> set xs \<Longrightarrow> p (f x @ r) = Some (g x, r)"
  shows "parse_many p (length xs) (concat (map f xs) @ r) = Some (map g xs, r)"
  using assms by (induction xs) simp_all

lemma parse_counted_text:
  assumes "\<And>x r. x \<in> set xs \<Longrightarrow> p (f x @ r) = Some (g x, r)"
  shows "parse_counted p (number_text (length xs) @ concat (map f xs) @ r) = Some (map g xs, r)"
  using parse_many_text [of xs p f g r] assms by (simp add: parse_counted_def)

lemma parse_char_text [simp]: "parse_char (char_text c @ r) = Some (c, r)"
  by (cases c) (simp add: parse_char_def char_text_def)

lemma parse_string_text [simp]: "parse_string (string_text s @ r) = Some (s, r)"
  using parse_counted_text [of s parse_char char_text id r]
  by (simp add: parse_string_def string_text_def)

lemma sorted_list_of_fmap_fmmap:
  "sorted_list_of_fmap (fmmap f m) = map (\<lambda>(k, v). (k, f v)) (sorted_list_of_fmap m)"
  by (auto simp: sorted_list_of_fmap_def fmlookup_dom_iff)

lemma sorted_list_of_fmap_fmran: "(k, v) \<in> set (sorted_list_of_fmap m) \<Longrightarrow> v \<in> fmran' m"
  by (auto simp: sorted_list_of_fmap_def fmlookup_dom_iff fmran'I)

lemma fmap_of_sorted_list [simp]: "fmap_of_list (sorted_list_of_fmap m) = m"
  by (rule fmap_ext) (simp add: fmlookup_of_list)

lemma length_concat_member: "x \<in> set xs \<Longrightarrow> length (f x) \<le> length (concat (map f xs))"
  by (induction xs) auto

lemma parse_value_text: "length (text_of v) \<le> n \<Longrightarrow> parse_value n (text_of v @ r) = Some (v, r)"
proof (induction v arbitrary: n r)
  case (JArr xs)
  then obtain m where n: "n = Suc m" by (cases n) simp_all
  have "parse_value m (text_of x @ r') = Some (x, r')" if "x \<in> set xs" for x r'
    using JArr n that length_concat_member [OF that, of text_of] by simp
  then show ?case
    using parse_counted_text [of xs "parse_value m" text_of id r] by (simp add: n)
next
  case (JObj m)
  let ?l = "sorted_list_of_fmap m"
  obtain k where n: "n = Suc k" using JObj.prems by (cases n) simp_all
  have "parse_field (parse_value k) ((case p of (k', v) \<Rightarrow> string_text k' @ text_of v) @ r') = Some (p, r')"
    if p: "p \<in> set ?l" for p r'
  proof (cases p)
    case (Pair k' v)
    have "v \<in> fmran' m" using p Pair by (auto intro: sorted_list_of_fmap_fmran)
    moreover have "length (text_of v) \<le> k"
      using JObj.prems n length_concat_member [OF p, of "\<lambda>(k', v). string_text k' @ text_of v"] Pair
      by (simp add: fields_text_def sorted_list_of_fmap_fmmap comp_def split_def)
    ultimately show ?thesis using JObj.IH Pair by (simp add: parse_field_def)
  qed
  with parse_counted_text [of ?l "parse_field (parse_value k)"
      "\<lambda>(k', v). string_text k' @ text_of v" "\<lambda>p. p" r] show ?case
    by (simp add: n fields_text_def sorted_list_of_fmap_fmmap comp_def split_def)
qed (auto simp: Suc_le_eq gr0_conv_Suc elim!: less_natE split: if_splits)

lemma number_text_chars: "c \<in> set (number_text n) \<Longrightarrow> CHR '' '' \<le> c \<and> c \<le> CHR 0x7E"
  using nat_str_digits [of c n]
  by (auto simp: number_text_def is_digit_def less_eq_char_def)

lemma char_text_chars: "c' \<in> set (char_text c) \<Longrightarrow> c' = CHR ''1'' \<or> c' = CHR ''0''"
  by (cases c) (auto simp: char_text_def split: if_splits)

lemma string_text_chars: "c \<in> set (string_text s) \<Longrightarrow> CHR '' '' \<le> c \<and> c \<le> CHR 0x7E"
  by (auto simp only: string_text_def set_append set_concat set_map Un_iff UN_iff image_iff
      dest!: number_text_chars char_text_chars) (simp_all add: less_eq_char_def)

lemma text_of_chars: "c \<in> set (text_of v) \<Longrightarrow> CHR '' '' \<le> c \<and> c \<le> CHR 0x7E"
proof (induction v)
  case (JObj m)
  then show ?case
    by (fastforce simp: fields_text_def sorted_list_of_fmap_fmmap Let_def less_eq_char_def
        dest: number_text_chars string_text_chars sorted_list_of_fmap_fmran split: prod.splits)
qed (auto simp: less_eq_char_def dest: number_text_chars string_text_chars split: if_splits)

lemma text_of_ok [simp]: "json_text_ok text_of parse_text v"
proof -
  have "parse_text (text_of v) = Some v"
    using parse_value_text [OF order_refl, of v "[]"] by (simp add: parse_text_def)
  moreover have "text_of v \<noteq> []" by (cases v) auto
  moreover have "LF \<notin> set (text_of v)" "CR \<notin> set (text_of v)"
    using text_of_chars [of LF v] text_of_chars [of CR v] by (auto simp: less_eq_char_def)
  moreover have "utf8_valid (text_of v)"
    using text_of_chars [of _ v] by (intro utf8_valid_ascii) (force simp: less_eq_char_def)
  ultimately show ?thesis by (simp add: json_text_ok_def)
qed

end
