(* ===== verification/Lspee_Proxy.thy ===== *)
theory Lspee_Proxy
  imports Lspee_Stream Lspee_Client Lspee_Text "HOL-Library.Sublist"
begin

section \<open>The editor's proxy\<close>

text \<open>
  \<open>crates/lspee_cli/src/commands/proxy.rs\<close>: the process an editor starts in place of a language
  server. It attaches with a dedicated stream, answers \<open>initialize\<close> and \<open>shutdown\<close> itself,
  forwards everything else as frames of the stream, and writes the stream's messages to the
  editor. The loop picks whichever input is ready: the order in which they are is a parameter.
\<close>

subsection \<open>Attaching\<close>

record proxy_session =
  px_lease_id :: string
  px_initialize_result :: json
  px_endpoint :: string

definition proxy_endpoint :: "json \<Rightarrow> string result" where
  "proxy_endpoint payload =
     (case Option.bind (jget payload ''stream'') (\<lambda>stream. jget_str stream ''endpoint'') of
        None \<Rightarrow> Inl ''AttachOk missing stream endpoint''
      | Some endpoint \<Rightarrow>
          (case strip_prefix ''unix://'' endpoint of
             None \<Rightarrow> Inl (''unsupported stream endpoint: '' @ endpoint)
           | Some p \<Rightarrow> Inr p))"

definition proxy_attached :: "json \<Rightarrow> proxy_session result" where
  "proxy_attached payload =
     bind_res (attach_lease_id payload) (\<lambda>lease_id.
     bind_res (proxy_endpoint payload) (\<lambda>endpoint.
       Inr \<lparr>px_lease_id = lease_id,
            px_initialize_result = unwrap_or (jget payload ''initialize_result'') JNull,
            px_endpoint = endpoint\<rparr>))"

definition proxy_attach ::
  "'s wire \<Rightarrow> client_ident \<Rightarrow> resolved_config \<Rightarrow> string \<Rightarrow> ('s, proxy_session) client" where
  "proxy_attach w ident resolved lsp =
     bind_client (request_ok w ''attach'' TYPE_ATTACH
        (to_value_attach (attach_payload ident Editor Dedicated resolved lsp)) TYPE_ATTACH_OK ''Attach'')
       (\<lambda>payload. lift_res (proxy_attached payload))"

subsection \<open>Messages\<close>

definition initialize_response_for_editor :: "json \<Rightarrow> json \<Rightarrow> json" where
  "initialize_response_for_editor i initialize_result = jobj
     [(''jsonrpc'', JStr ''2.0''), (''id'', i),
      (''result'', unwrap_or (jget initialize_result ''result'') initialize_result)]"

definition shutdown_response_for_editor :: "json \<Rightarrow> json" where
  "shutdown_response_for_editor i = jobj
     [(''jsonrpc'', JStr ''2.0''), (''id'', i), (''result'', JNull)]"

definition stream_error_to_editor_warning :: "stream_error_payload \<Rightarrow> json" where
  "stream_error_to_editor_warning payload =
     (let resume_hint = unwrap_or (Option.bind (sep_details payload) (\<lambda>d. jget_str d ''resume_hint''))
            ''Retry attaching to the daemon session.''
      in jobj [(''jsonrpc'', JStr ''2.0''), (''method'', JStr ''window/showMessage''),
           (''params'', jobj [(''type'', JInt 2),
              (''message'', JStr (''lspee warning: '' @ sep_message payload @ '' '' @ resume_hint))])])"

subsection \<open>The loop\<close>

text \<open>
  The bytes the editor and the daemon will send that are not read yet, the next sequence number,
  and the bytes written to either side.
\<close>

record proxy_state =
  px_stdin :: string
  px_stream :: string
  px_seq :: u64
  px_stdout :: string
  px_sent :: string

definition write_lsp_message :: "(json \<Rightarrow> string) \<Rightarrow> json \<Rightarrow> bool \<Rightarrow> proxy_state \<Rightarrow> unit result \<times> proxy_state" where
  "write_lsp_message ser message write_ok st =
     (if write_ok then (Inr (), st\<lparr>px_stdout := px_stdout st @ encode_lsp_frame ser message\<rparr>)
      else (Inl ''write failed'', st))"

definition lsp_in_frame :: "string \<Rightarrow> u64 \<Rightarrow> json \<Rightarrow> stream_frame" where
  "lsp_in_frame lease_id seq payload =
     \<lparr>sf_v = PROTOCOL_VERSION, sf_frame_type = LspIn, sf_lease_id = lease_id, sf_seq = seq,
      sf_payload = payload\<rparr>"

text \<open>What is done with a message of the editor.\<close>

datatype editor_action = Answer json | Ignore | Exit | Forward

definition editor_action :: "proxy_session \<Rightarrow> json \<Rightarrow> editor_action" where
  "editor_action px message =
     (let method = jget_str message ''method''
      in case jget message ''id'' of
           Some i \<Rightarrow>
             (if method = Some ''initialize''
              then Answer (initialize_response_for_editor i (px_initialize_result px))
              else if method = Some ''shutdown'' then Answer (shutdown_response_for_editor i)
              else Forward)
         | None \<Rightarrow>
             (if method = Some ''initialized'' then Ignore
              else if method = Some ''exit'' then Exit
              else Forward))"

text \<open>What a turn of the loop ends with: an error, or whether the loop breaks.\<close>

definition handle_editor_message ::
  "(json \<Rightarrow> string) \<Rightarrow> proxy_session \<Rightarrow> json \<Rightarrow> bool \<Rightarrow> proxy_state \<Rightarrow> bool result \<times> proxy_state" where
  "handle_editor_message ser px message write_ok st =
     (case editor_action px message of
        Answer response \<Rightarrow>
          map_prod (\<lambda>r. bind_res r (\<lambda>_. Inr False)) id (write_lsp_message ser response write_ok st)
      | Ignore \<Rightarrow> (Inr False, st)
      | Exit \<Rightarrow> (Inr True, st)
      | Forward \<Rightarrow>
          (let frame = lsp_in_frame (px_lease_id px) (px_seq st) message;
               st1 = st\<lparr>px_seq := saturating_add (px_seq st) 1\<rparr>
           in if write_ok
              then (Inr False, st1\<lparr>px_sent := px_sent st1 @ line_frame ser (to_value_stream_frame frame)\<rparr>)
              else (Inl ''write failed'', st1)))"

text \<open>
  One turn of \<open>select!\<close>. Either the editor's next frame, or its end, has been read; or a line of
  the stream has, and the unfinished read of the editor's frame is dropped together with the
  bytes it had already taken. The flag is whether the write of the turn succeeds.
\<close>

datatype proxy_event = EditorReady bool | StreamReady nat bool

definition handle_stream_frame ::
  "(json \<Rightarrow> string) \<Rightarrow> stream_frame \<Rightarrow> bool \<Rightarrow> proxy_state \<Rightarrow> bool result \<times> proxy_state" where
  "handle_stream_frame ser frame write_ok st =
     (case sf_frame_type frame of
        LspOut \<Rightarrow>
          map_prod (\<lambda>r. bind_res r (\<lambda>_. Inr False)) id
            (write_lsp_message ser (sf_payload frame) write_ok st)
      | StreamError \<Rightarrow>
          (case from_value_stream_error_payload (sf_payload frame) of
             None \<Rightarrow> (Inl ''invalid stream error payload'', st)
           | Some payload \<Rightarrow>
               map_prod (\<lambda>r. bind_res r (\<lambda>_. Inr True)) id
                 (write_lsp_message ser (stream_error_to_editor_warning payload) write_ok st))
      | LspIn \<Rightarrow> (Inr False, st))"

fun proxy_step ::
  "(string \<Rightarrow> json option) \<Rightarrow> (json \<Rightarrow> string) \<Rightarrow> proxy_session \<Rightarrow> proxy_event \<Rightarrow> proxy_state
     \<Rightarrow> bool result \<times> proxy_state" where
  "proxy_step par ser px (EditorReady write_ok) st =
     (case read_lsp_frame par (px_stdin st) of
        LspFrame message rest \<Rightarrow> handle_editor_message ser px message write_ok (st\<lparr>px_stdin := rest\<rparr>)
      | LspEof \<Rightarrow> (Inr True, st)
      | LspError e \<Rightarrow> (Inl e, st)
      | LspPanic \<Rightarrow> (Inl ''capacity overflow'', st))"
| "proxy_step par ser px (StreamReady dropped write_ok) st =
     (let st1 = st\<lparr>px_stdin := drop dropped (px_stdin st)\<rparr>
      in case next_line (px_stream st1) of
           Inl e \<Rightarrow> (Inl e, st1)
         | Inr None \<Rightarrow> (Inr True, st1)
         | Inr (Some (line, rest)) \<Rightarrow>
             (let st2 = st1\<lparr>px_stream := rest\<rparr>
              in case Option.bind (par line) from_value_stream_frame of
                   None \<Rightarrow> (Inl ''invalid stream frame from daemon'', st2)
                 | Some frame \<Rightarrow> handle_stream_frame ser frame write_ok st2))"

text \<open>The loop on a sequence of turns; \<open>None\<close> while it goes on.\<close>

fun proxy_run ::
  "(string \<Rightarrow> json option) \<Rightarrow> (json \<Rightarrow> string) \<Rightarrow> proxy_session \<Rightarrow> proxy_event list \<Rightarrow> proxy_state
     \<Rightarrow> unit result option \<times> proxy_state" where
  "proxy_run par ser px [] st = (None, st)"
| "proxy_run par ser px (ev # evs) st =
     (case proxy_step par ser px ev st of
        (Inl e, st1) \<Rightarrow> (Some (Inl e), st1)
      | (Inr True, st1) \<Rightarrow> (Some (Inr ()), st1)
      | (Inr False, st1) \<Rightarrow> proxy_run par ser px evs st1)"

definition proxy_start :: "string \<Rightarrow> string \<Rightarrow> proxy_state" where
  "proxy_start stdin stream =
     \<lparr>px_stdin = stdin, px_stream = stream, px_seq = 1, px_stdout = [], px_sent = []\<rparr>"

text \<open>
  The command. \<open>dial\<close> gives the bytes a dedicated socket will send, if it can be connected to.
  The control connection is closed before the loop; its last state is the third component.
\<close>

definition run_proxy ::
  "'s cli_env \<Rightarrow> (string \<Rightarrow> string option) \<Rightarrow> string \<Rightarrow> proxy_event list \<Rightarrow> string \<Rightarrow> path option \<Rightarrow> bool
     \<Rightarrow> unit result option \<times> proxy_state option \<times> 's conn option" where
  "run_proxy e dial stdin evs lsp root no_start_daemon =
     (case bind_res (resolve_root e root) (\<lambda>resolved.
           bind_res (cl_connect e (rv_project_root resolved) (\<not> no_start_daemon)) (\<lambda>c.
             Inr (resolved, c))) of
        Inl error \<Rightarrow> (Some (Inl error), None, None)
      | Inr (resolved, c) \<Rightarrow>
          (case proxy_attach (cl_wire e) (cl_ident e) resolved lsp c of
             (Inl error, c1) \<Rightarrow> (Some (Inl error), None, Some c1)
           | (Inr px, c1) \<Rightarrow>
               (case dial (px_endpoint px) of
                  None \<Rightarrow>
                    (Some (Inl (''failed to connect to dedicated stream endpoint '' @ px_endpoint px)),
                     None, Some c1)
                | Some stream \<Rightarrow>
                    (let (r, st) = proxy_run (wi_par (cl_wire e)) (wi_ser (cl_wire e)) px evs
                           (proxy_start stdin stream)
                     in (r, Some st, Some c1)))))"

subsection \<open>What passes through\<close>

definition editor_answers :: "proxy_session \<Rightarrow> json \<Rightarrow> json list" where
  "editor_answers px m = (case editor_action px m of Answer v \<Rightarrow> [v] | _ \<Rightarrow> [])"

definition forwards :: "proxy_session \<Rightarrow> json \<Rightarrow> bool" where
  "forwards px m = (editor_action px m = Forward)"

definition shown_frame :: "stream_frame \<Rightarrow> json list" where
  "shown_frame f =
     (case sf_frame_type f of
        LspOut \<Rightarrow> [sf_payload f]
      | StreamError \<Rightarrow> (case from_value_stream_error_payload (sf_payload f) of
          None \<Rightarrow> [] | Some p \<Rightarrow> [stream_error_to_editor_warning p])
      | LspIn \<Rightarrow> [])"

fun lsp_in_frames :: "string \<Rightarrow> u64 \<Rightarrow> json list \<Rightarrow> stream_frame list" where
  "lsp_in_frames lease_id seq [] = []"
| "lsp_in_frames lease_id seq (m # ms) =
     lsp_in_frame lease_id seq m # lsp_in_frames lease_id (saturating_add seq 1) ms"

abbreviation editor_bytes :: "(json \<Rightarrow> string) \<Rightarrow> json list \<Rightarrow> string" where
  "editor_bytes ser ms \<equiv> concat (map (encode_lsp_frame ser) ms)"

abbreviation stream_bytes :: "(json \<Rightarrow> string) \<Rightarrow> stream_frame list \<Rightarrow> string" where
  "stream_bytes ser fs \<equiv> concat (map (\<lambda>f. line_frame ser (to_value_stream_frame f)) fs)"

fun lossless :: "proxy_event \<Rightarrow> bool" where
  "lossless (EditorReady write_ok) = write_ok"
| "lossless (StreamReady dropped write_ok) = (dropped = 0 \<and> write_ok)"

lemma forwarded_lsp_in_frames: "forwarded i (lsp_in_frames i s ms) = ms"
  by (induction ms arbitrary: s) (simp_all add: forwarded_def lsp_in_frame_def)

text \<open>
  The relation between what was consumed and what was written, from a state on: \<open>ms\<close> messages of
  the editor and \<open>fs\<close> frames of the daemon have been taken.
\<close>

definition relayed ::
  "(json \<Rightarrow> string) \<Rightarrow> proxy_session \<Rightarrow> json list \<Rightarrow> stream_frame list \<Rightarrow> proxy_state \<Rightarrow> proxy_state \<Rightarrow> bool" where
  "relayed ser px ms fs st st' =
     (px_sent st' = px_sent st @ stream_bytes ser
        (lsp_in_frames (px_lease_id px) (px_seq st) (filter (forwards px) ms)) \<and>
      (\<exists>outs \<in> shuffles (concat (map (editor_answers px) ms)) (concat (map shown_frame fs)).
         px_stdout st' = px_stdout st @ editor_bytes ser outs))"

lemma relayed_Nil [simp]:
  "px_sent st' = px_sent st \<Longrightarrow> px_stdout st' = px_stdout st \<Longrightarrow> relayed ser px [] [] st st'"
  by (simp add: relayed_def)

lemma relayed_editor:
  assumes "relayed ser px ms fs st1 st'"
    and "editor_answers px m = [] \<Longrightarrow> px_stdout st1 = px_stdout st"
    and "\<And>v. editor_answers px m = [v] \<Longrightarrow> px_stdout st1 = px_stdout st @ encode_lsp_frame ser v"
    and "forwards px m \<Longrightarrow> px_seq st1 = saturating_add (px_seq st) 1 \<and>
      px_sent st1 = px_sent st @
        line_frame ser (to_value_stream_frame (lsp_in_frame (px_lease_id px) (px_seq st) m))"
    and "\<not> forwards px m \<Longrightarrow> px_seq st1 = px_seq st \<and> px_sent st1 = px_sent st"
  shows "relayed ser px (m # ms) fs st st'"
proof -
  obtain outs where o: "outs \<in> shuffles (concat (map (editor_answers px) ms)) (concat (map shown_frame fs))"
    "px_stdout st' = px_stdout st1 @ editor_bytes ser outs"
    using assms(1) by (auto simp: relayed_def)
  have "editor_answers px m = [] \<or> (\<exists>v. editor_answers px m = [v])"
    by (simp add: editor_answers_def split: editor_action.splits)
  then have "\<exists>outs \<in> shuffles (concat (map (editor_answers px) (m # ms))) (concat (map shown_frame fs)).
      px_stdout st' = px_stdout st @ editor_bytes ser outs"
  proof (elim disjE exE)
    fix v assume "editor_answers px m = [v]"
    with o assms(3) show ?thesis
      by (intro bexI [of _ "v # outs"]) (auto intro: Cons_in_shuffles_leftI)
  qed (use o assms(2) in auto)
  with assms(1,4,5) show ?thesis by (auto simp: relayed_def)
qed

lemma relayed_frame:
  assumes "relayed ser px ms fs st1 st'"
    and "px_stdout st1 = px_stdout st @ editor_bytes ser (shown_frame f)"
    and "px_seq st1 = px_seq st" "px_sent st1 = px_sent st"
  shows "relayed ser px ms (f # fs) st st'"
proof -
  obtain outs where o: "outs \<in> shuffles (concat (map (editor_answers px) ms)) (concat (map shown_frame fs))"
    "px_stdout st' = px_stdout st1 @ editor_bytes ser outs"
    using assms(1) by (auto simp: relayed_def)
  have "shown_frame f = [] \<or> (\<exists>v. shown_frame f = [v])"
    by (simp add: shown_frame_def split: stream_frame_type.splits option.splits)
  then have "\<exists>outs \<in> shuffles (concat (map (editor_answers px) ms)) (concat (map shown_frame (f # fs))).
      px_stdout st' = px_stdout st @ editor_bytes ser outs"
  proof (elim disjE exE)
    fix v assume "shown_frame f = [v]"
    with o assms(2) show ?thesis
      by (intro bexI [of _ "v # outs"]) (auto intro: Cons_in_shuffles_rightI)
  qed (use o assms(2) in auto)
  with assms(1,3,4) show ?thesis by (auto simp: relayed_def)
qed

lemma next_line_Nil [simp]: "next_line [] = Inr None"
  by (simp add: next_line_def)

lemma read_lsp_frame_Nil [simp]: "read_lsp_frame par [] = LspEof"
  by (simp add: read_lsp_frame_def read_headers.simps)

lemma relayed_update [simp]:
  "relayed ser px ms fs (st\<lparr>px_stdin := x\<rparr>) st' = relayed ser px ms fs st st'"
  "relayed ser px ms fs (st\<lparr>px_stream := x\<rparr>) st' = relayed ser px ms fs st st'"
  by (simp_all add: relayed_def)

lemma handle_editor_message_ok:
  obtains st1 where
    "handle_editor_message ser px m True st = (Inr (editor_action px m = Exit), st1)"
    "px_stdin st1 = px_stdin st" "px_stream st1 = px_stream st"
    "\<And>ms fs st'. relayed ser px ms fs st1 st' \<Longrightarrow> relayed ser px (m # ms) fs st st'"
proof (cases "handle_editor_message ser px m True st")
  case (Pair r st1)
  have "r = Inr (editor_action px m = Exit) \<and> px_stdin st1 = px_stdin st \<and> px_stream st1 = px_stream st"
    using Pair by (auto simp: handle_editor_message_def write_lsp_message_def Let_def split: editor_action.splits)
  moreover have "relayed ser px (m # ms) fs st st'" if "relayed ser px ms fs st1 st'" for ms fs st'
    by (rule relayed_editor [OF that])
      (use Pair in \<open>auto simp: handle_editor_message_def write_lsp_message_def Let_def editor_answers_def
        forwards_def split: editor_action.splits\<close>)
  ultimately show ?thesis using Pair that by blast
qed

lemma handle_stream_frame_ok:
  obtains st1 r where "handle_stream_frame ser f True st = (r, st1)"
    "r = Inr False \<or> (sf_frame_type f = StreamError \<and> r \<noteq> Inr False)"
    "px_stdin st1 = px_stdin st" "px_stream st1 = px_stream st"
    "\<And>ms fs st'. relayed ser px ms fs st1 st' \<Longrightarrow> relayed ser px ms (f # fs) st st'"
proof (cases "handle_stream_frame ser f True st")
  case (Pair r st1)
  have "(r = Inr False \<or> (sf_frame_type f = StreamError \<and> r \<noteq> Inr False)) \<and>
      px_stdin st1 = px_stdin st \<and> px_stream st1 = px_stream st"
    using Pair by (auto simp: handle_stream_frame_def write_lsp_message_def split: stream_frame_type.splits option.splits)
  moreover have "relayed ser px ms (f # fs) st st'" if "relayed ser px ms fs st1 st'" for ms fs st'
    by (rule relayed_frame [OF that])
      (use Pair in \<open>auto simp: handle_stream_frame_def write_lsp_message_def shown_frame_def
        split: stream_frame_type.splits option.splits\<close>)
  ultimately show ?thesis using Pair that by blast
qed

lemma editor_turn:
  assumes "json_text_ok ser par m" "length (ser m) < 2 ^ 63"
    and "px_stdin st = encode_lsp_frame ser m @ rest"
  obtains st1 where
    "proxy_step par ser px (EditorReady True) st = (Inr (editor_action px m = Exit), st1)"
    "px_stdin st1 = rest" "px_stream st1 = px_stream st"
    "\<And>ms fs st'. relayed ser px ms fs st1 st' \<Longrightarrow> relayed ser px (m # ms) fs st st'"
proof -
  have "proxy_step par ser px (EditorReady True) st =
      handle_editor_message ser px m True (st\<lparr>px_stdin := rest\<rparr>)"
    using assms by (simp add: read_encode)
  moreover obtain st1 where
    "handle_editor_message ser px m True (st\<lparr>px_stdin := rest\<rparr>) = (Inr (editor_action px m = Exit), st1)"
    "px_stdin st1 = px_stdin (st\<lparr>px_stdin := rest\<rparr>)" "px_stream st1 = px_stream (st\<lparr>px_stdin := rest\<rparr>)"
    "\<And>ms fs st'. relayed ser px ms fs st1 st' \<Longrightarrow>
      relayed ser px (m # ms) fs (st\<lparr>px_stdin := rest\<rparr>) st'"
    by (rule handle_editor_message_ok [of ser px m "st\<lparr>px_stdin := rest\<rparr>"]) (rule that)
  ultimately show ?thesis by (intro that [of st1]) simp_all
qed

lemma stream_turn:
  assumes "json_text_ok ser par (to_value_stream_frame f)"
    and "px_stream st = line_frame ser (to_value_stream_frame f) @ rest"
  obtains st1 r where
    "proxy_step par ser px (StreamReady 0 True) st = (r, st1)"
    "r = Inr False \<or> (sf_frame_type f = StreamError \<and> r \<noteq> Inr False)"
    "px_stdin st1 = px_stdin st" "px_stream st1 = rest"
    "\<And>ms fs st'. relayed ser px ms fs st1 st' \<Longrightarrow> relayed ser px ms (f # fs) st st'"
proof -
  have "st\<lparr>px_stdin := px_stdin st\<rparr> = st" by simp
  then have "proxy_step par ser px (StreamReady 0 True) st =
      handle_stream_frame ser f True (st\<lparr>px_stream := rest\<rparr>)"
    using json_text_okD [OF assms(1)] assms(2) by (simp add: line_frame_def next_line_text)
  moreover obtain st1 r where
    "handle_stream_frame ser f True (st\<lparr>px_stream := rest\<rparr>) = (r, st1)"
    "r = Inr False \<or> (sf_frame_type f = StreamError \<and> r \<noteq> Inr False)"
    "px_stdin st1 = px_stdin (st\<lparr>px_stream := rest\<rparr>)" "px_stream st1 = px_stream (st\<lparr>px_stream := rest\<rparr>)"
    "\<And>ms fs st'. relayed ser px ms fs st1 st' \<Longrightarrow>
      relayed ser px ms (f # fs) (st\<lparr>px_stream := rest\<rparr>) st'"
    by (rule handle_stream_frame_ok [of ser f "st\<lparr>px_stream := rest\<rparr>" px]) (rule that)
  ultimately show ?thesis by (intro that [of r st1]) simp_all
qed

lemma proxy_run_step:
  "proxy_run par ser px (ev # evs) st =
     (case proxy_step par ser px ev st of
        (Inl e, st1) \<Rightarrow> (Some (Inl e), st1)
      | (Inr True, st1) \<Rightarrow> (Some (Inr ()), st1)
      | (Inr False, st1) \<Rightarrow> proxy_run par ser px evs st1)"
  by simp

lemma proxy_turn_Nil:
  "px_stdin st = [] \<Longrightarrow> proxy_step par ser px (EditorReady ok) st = (Inr True, st)"
  "px_stream st = [] \<Longrightarrow> proxy_step par ser px (StreamReady 0 ok) st = (Inr True, st)"
  by simp_all

declare proxy_step.simps [simp del] proxy_run.simps [simp del]

text \<open>What a run has relayed: some of the messages of each side, all turns of a run that still goes on.\<close>

definition relays ::
  "(json \<Rightarrow> string) \<Rightarrow> proxy_session \<Rightarrow> nat \<Rightarrow> json list \<Rightarrow> stream_frame list \<Rightarrow> proxy_state
     \<Rightarrow> unit result option \<Rightarrow> proxy_state \<Rightarrow> bool" where
  "relays ser px turns ms fs st r st' =
     (\<exists>k n. relayed ser px (take k ms) (take n fs) st st' \<and>
       (r = None \<longrightarrow> k + n = turns \<and> k \<le> length ms \<and> n \<le> length fs))"

lemma relays_done: "relayed ser px (take k ms) (take n fs) st st' \<Longrightarrow> r \<noteq> None \<Longrightarrow> relays ser px j ms fs st r st'"
  by (auto simp: relays_def)

lemma relays_editor:
  assumes "relays ser px j ms fs st1 r st'"
    and "\<And>ms fs. relayed ser px ms fs st1 st' \<Longrightarrow> relayed ser px (m # ms) fs st st'"
  shows "relays ser px (Suc j) (m # ms) fs st r st'"
proof -
  from assms(1) obtain k n where "relayed ser px (take k ms) (take n fs) st1 st'"
    "r = None \<longrightarrow> k + n = j \<and> k \<le> length ms \<and> n \<le> length fs" by (auto simp: relays_def)
  with assms(2) [of "take k ms" "take n fs"] show ?thesis
    unfolding relays_def by (intro exI [of _ "Suc k"] exI [of _ n]) simp
qed

lemma relays_stream:
  assumes "relays ser px j ms fs st1 r st'"
    and "\<And>ms fs. relayed ser px ms fs st1 st' \<Longrightarrow> relayed ser px ms (f # fs) st st'"
  shows "relays ser px (Suc j) ms (f # fs) st r st'"
proof -
  from assms(1) obtain k n where "relayed ser px (take k ms) (take n fs) st1 st'"
    "r = None \<longrightarrow> k + n = j \<and> k \<le> length ms \<and> n \<le> length fs" by (auto simp: relays_def)
  with assms(2) [of "take k ms" "take n fs"] show ?thesis
    unfolding relays_def by (intro exI [of _ k] exI [of _ "Suc n"]) simp
qed

text \<open>The run whose first turn is the editor's, and the one whose first turn is the stream's.\<close>

lemma run_editor_turn:
  assumes codec: "\<And>v. json_text_ok ser par v" and small: "list_all (\<lambda>m. length (ser m) < 2 ^ 63) ms"
    and stdin: "px_stdin st = editor_bytes ser ms"
    and run: "proxy_run par ser px (EditorReady True # evs) st = (r, st')"
    and rest: "\<And>ms st1. list_all (\<lambda>m. length (ser m) < 2 ^ 63) ms \<Longrightarrow> px_stdin st1 = editor_bytes ser ms \<Longrightarrow>
      px_stream st1 = px_stream st \<Longrightarrow> proxy_run par ser px evs st1 = (r, st') \<Longrightarrow>
      relays ser px (length evs) ms fs st1 r st'"
  shows "relays ser px (Suc (length evs)) ms fs st r st'"
proof (cases ms)
  case Nil
  with run stdin show ?thesis
    by (intro relays_done [of _ _ 0 _ 0]) (auto simp: proxy_run_step proxy_turn_Nil)
next
  case ms: (Cons m ms')
  have pre: "length (ser m) < 2 ^ 63" "px_stdin st = encode_lsp_frame ser m @ editor_bytes ser ms'"
    using small stdin ms by simp_all
  obtain st1 where h: "proxy_step par ser px (EditorReady True) st = (Inr (editor_action px m = Exit), st1)"
    "px_stdin st1 = editor_bytes ser ms'" "px_stream st1 = px_stream st"
    and add: "\<And>ms fs st'. relayed ser px ms fs st1 st' \<Longrightarrow> relayed ser px (m # ms) fs st st'"
    by (rule editor_turn [OF codec pre, where px = px]) (rule that)
  show ?thesis
  proof (cases "editor_action px m = Exit")
    case True
    with run h(1) have "r \<noteq> None" "st' = st1" by (auto simp: proxy_run_step)
    with add [of "[]" "[]" st'] ms show ?thesis by (intro relays_done [of _ _ 1 _ 0]) simp_all
  next
    case False
    with run h(1) have "proxy_run par ser px evs st1 = (r, st')" by (auto simp: proxy_run_step)
    with rest [of ms' st1] small h(2,3) ms have "relays ser px (length evs) ms' fs st1 r st'" by simp
    then show ?thesis unfolding ms by (rule relays_editor) (rule add)
  qed
qed

lemma run_stream_turn:
  assumes codec: "\<And>v. json_text_ok ser par v" and stream: "px_stream st = stream_bytes ser fs"
    and run: "proxy_run par ser px (StreamReady 0 True # evs) st = (r, st')"
    and rest: "\<And>fs st1. px_stdin st1 = px_stdin st \<Longrightarrow> px_stream st1 = stream_bytes ser fs \<Longrightarrow>
      proxy_run par ser px evs st1 = (r, st') \<Longrightarrow> relays ser px (length evs) ms fs st1 r st'"
  shows "relays ser px (Suc (length evs)) ms fs st r st'"
proof (cases fs)
  case Nil
  with run stream show ?thesis
    by (intro relays_done [of _ _ 0 _ 0]) (auto simp: proxy_run_step proxy_turn_Nil)
next
  case fs: (Cons f fs')
  have pre: "px_stream st = line_frame ser (to_value_stream_frame f) @ stream_bytes ser fs'"
    using stream fs by simp
  obtain st1 q where h: "proxy_step par ser px (StreamReady 0 True) st = (q, st1)"
    "q = Inr False \<or> (sf_frame_type f = StreamError \<and> q \<noteq> Inr False)"
    "px_stdin st1 = px_stdin st" "px_stream st1 = stream_bytes ser fs'"
    and add: "\<And>ms fs st'. relayed ser px ms fs st1 st' \<Longrightarrow> relayed ser px ms (f # fs) st st'"
    by (rule stream_turn [OF codec pre, where px = px]) (rule that)
  show ?thesis
  proof (cases "q = Inr False")
    case False
    with run h(1) have "r \<noteq> None" "st' = st1"
      by (auto simp: proxy_run_step split: sum.splits bool.splits)
    with add [of "[]" "[]" st'] fs show ?thesis by (intro relays_done [of _ _ 0 _ 1]) simp_all
  next
    case True
    with run h(1) have "proxy_run par ser px evs st1 = (r, st')" by (auto simp: proxy_run_step)
    with rest [of st1 fs'] h(3,4) have "relays ser px (length evs) ms fs' st1 r st'" by simp
    then show ?thesis unfolding fs by (rule relays_stream) (rule add)
  qed
qed

lemma proxy_run_relays:
  assumes codec: "\<And>v. json_text_ok ser par v"
    and "list_all (\<lambda>m. length (ser m) < 2 ^ 63) ms" and "list_all lossless evs"
    and "px_stdin st = editor_bytes ser ms" and "px_stream st = stream_bytes ser fs"
    and "proxy_run par ser px evs st = (r, st')"
  shows "relays ser px (length evs) ms fs st r st'"
  using assms(2-6)
proof (induction evs arbitrary: st ms fs)
  case Nil
  then show ?case unfolding relays_def by (intro exI [of _ 0]) (simp add: proxy_run.simps)
next
  case (Cons ev evs)
  show ?case
  proof (cases ev)
    case (EditorReady ok)
    with Cons.prems(2) have ev: "ev = EditorReady True" by simp
    show ?thesis
      using run_editor_turn [OF codec Cons.prems(1,3) Cons.prems(5) [unfolded ev]] Cons.IH Cons.prems(2,4)
      by (simp add: ev)
  next
    case (StreamReady d ok)
    with Cons.prems(2) have ev: "ev = StreamReady 0 True" by simp
    show ?thesis
      using run_stream_turn [OF codec Cons.prems(4) Cons.prems(5) [unfolded ev]] Cons.IH Cons.prems(1-3)
      by (simp add: ev)
  qed
qed

subsection \<open>Properties\<close>

lemma shown_lsp_out:
  assumes "list_all (\<lambda>f. sf_frame_type f = LspOut) fs"
  shows "concat (map shown_frame fs) = map sf_payload fs"
  using assms by (induction fs) (simp_all add: shown_frame_def)

lemma runtime_task_take_shown:
  "concat (map shown_frame (take n (runtime_task i s es))) = take n (map lm_payload (accepted_messages es))"
proof -
  have "list_all (\<lambda>f. sf_frame_type f = LspOut) (take n (runtime_task i s es))"
    using runtime_task_frames(2) [of i s es] by (auto simp: list_all_iff dest: in_set_takeD)
  then have "concat (map shown_frame (take n (runtime_task i s es))) =
      map sf_payload (take n (runtime_task i s es))" by (rule shown_lsp_out)
  also have "\<dots> = take n (map lm_payload (accepted_messages es))"
    by (simp only: runtime_task_frames(1) flip: take_map)
  finally show ?thesis .
qed

lemma inbound_loop_lsp_in:
  assumes "\<And>v. json_text_ok ser par v" and "\<And>m. m \<in> set ms \<Longrightarrow> is_ok (send m)"
  shows "inbound_loop par send i (stream_bytes ser (lsp_in_frames i s ms)) = (ms, Inr ())"
proof -
  have "inbound_loop par send i [] = ([], Inr ())"
    by (subst inbound_loop.simps) simp
  with inbound_loop_frames [of ser par "lsp_in_frames i s ms" i send "[]"] assms
  show ?thesis by (simp add: forwarded_lsp_in_frames list_all_iff)
qed

text \<open>The loop on the daemon's stream.\<close>

lemma proxy_run_streams:
  assumes "\<And>v. json_text_ok ser par v"
    and "list_all (\<lambda>m. length (ser m) < 2 ^ 63) ms" and "list_all lossless evs"
    and "proxy_run par ser px evs (proxy_start (editor_bytes ser ms)
        (stream_bytes ser (runtime_task (px_lease_id px) 1 es))) = (r, st')"
  obtains k n outs where
    "px_sent st' = stream_bytes ser (lsp_in_frames (px_lease_id px) 1 (filter (forwards px) (take k ms)))"
    "outs \<in> shuffles (concat (map (editor_answers px) (take k ms)))
      (take n (map lm_payload (accepted_messages es)))"
    "px_stdout st' = editor_bytes ser outs"
    "r = None \<longrightarrow> k + n = length evs \<and> k \<le> length ms \<and> n \<le> length (accepted_messages es)"
proof -
  let ?fs = "runtime_task (px_lease_id px) 1 es"
  have len: "length ?fs = length (accepted_messages es)"
    using arg_cong [OF runtime_task_frames(1), of length] by simp
  obtain k n where "relayed ser px (take k ms) (take n ?fs)
      (proxy_start (editor_bytes ser ms) (stream_bytes ser ?fs)) st'"
    "r = None \<longrightarrow> k + n = length evs \<and> k \<le> length ms \<and> n \<le> length ?fs"
    using proxy_run_relays [OF assms(1-3) _ _ assms(4), where fs = ?fs]
    by (auto simp: proxy_start_def relays_def)
  with that show ?thesis
    by (fastforce simp: relayed_def proxy_start_def runtime_task_take_shown len)
qed

text \<open>Between an editor and the daemon's stream of its lease, whatever the order in which the two
  sides become ready, and as long as no read is cancelled half way: the language server is sent
  exactly the editor's messages that are not the proxy's to answer, in order; the editor receives
  the proxy's own answers and the server's messages, each group in its order and complete up to
  what has been read.\<close>

theorem proxy_end_to_end:
  assumes "\<And>v. json_text_ok ser par v"
    and "list_all (\<lambda>m. length (ser m) < 2 ^ 63) ms" and "list_all lossless evs"
    and "proxy_run par ser px evs (proxy_start (editor_bytes ser ms)
        (stream_bytes ser (runtime_task (px_lease_id px) 1 es))) = (r, st')"
  shows "\<exists>k n outs.
    inbound_loop par (\<lambda>_. Inr ()) (px_lease_id px) (px_sent st') =
      (filter (forwards px) (take k ms), Inr ()) \<and>
    outs \<in> shuffles (concat (map (editor_answers px) (take k ms)))
      (take n (map lm_payload (accepted_messages es))) \<and>
    px_stdout st' = editor_bytes ser outs \<and>
    (r = None \<longrightarrow> k + n = length evs \<and> k \<le> length ms \<and> n \<le> length (accepted_messages es))"
proof -
  obtain k n outs where
    "px_sent st' = stream_bytes ser (lsp_in_frames (px_lease_id px) 1 (filter (forwards px) (take k ms)))"
    "outs \<in> shuffles (concat (map (editor_answers px) (take k ms)))
      (take n (map lm_payload (accepted_messages es)))"
    "px_stdout st' = editor_bytes ser outs"
    "r = None \<longrightarrow> k + n = length evs \<and> k \<le> length ms \<and> n \<le> length (accepted_messages es)"
    using proxy_run_streams [OF assms] .
  then show ?thesis using inbound_loop_lsp_in [OF assms(1), where send = "\<lambda>_. Inr ()"] by auto
qed

definition demo_proxy :: proxy_session where
  "demo_proxy = \<lparr>px_lease_id = ''lease_1'', px_initialize_result = JNull, px_endpoint = ''/w/s.sock''\<rparr>"

definition demo_initialize :: json where
  "demo_initialize = jobj [(''id'', JInt 1), (''method'', JStr ''initialize'')]"

definition demo_change :: json where
  "demo_change = jobj [(''method'', JStr ''textDocument/didChange'')]"

text \<open>Two messages of the editor and one of the server, in an order of turns that mixes them.\<close>

definition demo_turns :: "proxy_event list" where
  "demo_turns = [EditorReady True, StreamReady 0 True, EditorReady True]"

definition demo_bus :: "(bus_event \<times> bool) list" where
  "demo_bus = [(BusLagged 1, True), (BusMessage (message_from_json (JBool True)), True)]"

theorem proxy_end_to_end_witness:
  "\<exists>r st' k n outs.
    proxy_run parse_text text_of demo_proxy demo_turns
      (proxy_start (editor_bytes text_of [demo_initialize, demo_change])
        (stream_bytes text_of (runtime_task (px_lease_id demo_proxy) 1 demo_bus))) = (r, st') \<and>
    inbound_loop parse_text (\<lambda>_. Inr ()) (px_lease_id demo_proxy) (px_sent st') =
      (filter (forwards demo_proxy) (take k [demo_initialize, demo_change]), Inr ()) \<and>
    outs \<in> shuffles (concat (map (editor_answers demo_proxy) (take k [demo_initialize, demo_change])))
      (take n (map lm_payload (accepted_messages demo_bus))) \<and>
    px_stdout st' = editor_bytes text_of outs"
proof -
  let ?run = "proxy_run parse_text text_of demo_proxy demo_turns
      (proxy_start (editor_bytes text_of [demo_initialize, demo_change])
        (stream_bytes text_of (runtime_task (px_lease_id demo_proxy) 1 demo_bus)))"
  obtain r st' where run: "?run = (r, st')" by (cases ?run)
  have "length (text_of demo_initialize) < 1000" "length (text_of demo_change) < 1000" by code_simp+
  then have "list_all (\<lambda>m. length (text_of m) < 2 ^ 63) [demo_initialize, demo_change]" by simp
  moreover have "list_all lossless demo_turns" by (simp add: demo_turns_def)
  ultimately show ?thesis
    using proxy_end_to_end [OF text_of_ok _ _ run] run by blast
qed

lemma read_headers_no_LF:
  assumes "LF \<notin> set s" "CR \<notin> set s"
  shows "\<not> (\<exists>p. read_headers cl s = Inr (Some p))"
proof -
  have t: "take_line s = (s, [])"
    using assms(1) by (induction s) auto
  have "trim_crlf s = s"
    using assms by (cases s rule: rev_cases) (auto simp: trim_crlf_def)
  moreover have e: "read_headers c [] = Inr None" for c
    by (subst read_headers.simps) simp
  ultimately show ?thesis
    using t by (subst read_headers.simps) (auto simp: Let_def split: option.splits)
qed

text \<open>C37: when a line of the stream arrives while the editor's frame is being read, \<open>select!\<close> drops
  the read with the bytes it has taken. If these are the header, the message is lost: the rest of
  the input is no frame, the loop ends, and nothing has been sent. Had the read taken nothing,
  the message would have been forwarded.\<close>

theorem proxy_cancel_loses:
  assumes "\<And>v. json_text_ok ser par v" and "length (ser m) < 2 ^ 63" and "forwards px m"
    and f: "sf_frame_type f = LspOut"
    and h: "h = length (encode_lsp_frame ser m) - length (ser m)"
  shows "(\<exists>r st'. proxy_run par ser px [StreamReady h True, EditorReady True]
        (proxy_start (encode_lsp_frame ser m) (stream_bytes ser [f])) = (Some r, st') \<and>
      px_sent st' = []) \<and>
    (\<exists>st'. proxy_run par ser px [StreamReady 0 True, EditorReady True]
        (proxy_start (encode_lsp_frame ser m) (stream_bytes ser [f])) = (None, st') \<and>
      px_sent st' = line_frame ser (to_value_stream_frame (lsp_in_frame (px_lease_id px) 1 m)))"
proof (rule conjI)
  note tx = json_text_okD [OF assms(1)]
  obtain hd where "encode_lsp_frame ser m = hd @ ser m"
    by (simp add: encode_lsp_frame_def)
  then have dropped: "drop h (encode_lsp_frame ser m) = ser m" by (simp add: h)
  have "\<not> (\<exists>v t. read_lsp_frame par (ser m) = LspFrame v t)"
    using read_headers_no_LF [OF tx(3,4), of None m]
    by (auto simp: read_lsp_frame_def split: sum.splits option.splits)
  then show "\<exists>r st'. proxy_run par ser px [StreamReady h True, EditorReady True]
        (proxy_start (encode_lsp_frame ser m) (stream_bytes ser [f])) = (Some r, st') \<and> px_sent st' = []"
    using tx f
    by (simp add: proxy_run.simps proxy_step.simps proxy_start_def dropped line_frame_def next_line_text
        handle_stream_frame_def write_lsp_message_def split: lsp_read.splits)
  have "read_lsp_frame par (encode_lsp_frame ser m) = LspFrame m []"
    using read_encode [OF assms(1,2), of "[]"] by simp
  then show "\<exists>st'. proxy_run par ser px [StreamReady 0 True, EditorReady True]
        (proxy_start (encode_lsp_frame ser m) (stream_bytes ser [f])) = (None, st') \<and>
      px_sent st' = line_frame ser (to_value_stream_frame (lsp_in_frame (px_lease_id px) 1 m))"
    using tx f assms(3)
    by (simp add: proxy_run.simps proxy_step.simps proxy_start_def line_frame_def next_line_text
        handle_stream_frame_def write_lsp_message_def handle_editor_message_def forwards_def)
qed

theorem proxy_cancel_loses_witness:
  "\<exists>h r st'. proxy_run parse_text text_of demo_proxy [StreamReady h True, EditorReady True]
        (proxy_start (encode_lsp_frame text_of JNull)
          (stream_bytes text_of [lsp_out_frame ''lease_1'' 1 (JBool True)])) = (Some r, st') \<and>
      px_sent st' = []"
proof -
  have "length (text_of JNull) < 2 ^ 63" by simp
  moreover have "forwards demo_proxy JNull"
    by (simp add: forwards_def editor_action_def jget_str_def)
  moreover have "sf_frame_type (lsp_out_frame ''lease_1'' 1 (JBool True)) = LspOut"
    by (simp add: lsp_out_frame_def)
  ultimately show ?thesis
    using proxy_cancel_loses [OF text_of_ok _ _ _ refl] by blast
qed

text \<open>
  The proxy reads back what the daemon puts into an \<open>AttachOk\<close>: the lease, the stored initialize
  answer, and the path behind \<open>unix://\<close>.
\<close>

lemma proxy_attached_reads:
  assumes "st_endpoint (ao_stream ok) = Some (''unix://'' @ p)"
  shows "proxy_attached (to_value_attach_ok ok) = Inr
    \<lparr>px_lease_id = ao_lease_id ok,
     px_initialize_result = unwrap_or (ao_initialize_result ok) JNull, px_endpoint = p\<rparr>"
  using assms
  by (simp add: proxy_attached_def attach_lease_id_def proxy_endpoint_def jget_str_def
      to_value_attach_ok_def to_value_stream_info_def split: option.splits)

end
