(* ===== verification/Lspee_Commands.thy ===== *)
theory Lspee_Commands
  imports Lspee_Client
begin

section \<open>Commands that show something\<close>

text \<open>
  \<open>crates/lspee_cli/src/commands/capabilities.rs\<close>, \<open>lsps.rs\<close>, \<open>lsp.rs\<close>, \<open>doctor.rs\<close>, the
  \<open>show\<close> part of \<open>config.rs\<close>, and what \<open>serve.rs\<close> builds before it runs the daemon. What a
  command prints is the list of its lines. The \<open>{:?}\<close> of a list of strings and the pretty TOML
  printer are parameters.
\<close>

subsection \<open>\<open>lspee capabilities\<close>\<close>

definition capability_table :: "(string \<times> string) list" where
  "capability_table =
     [(''textDocument/completion'', ''completionProvider''),
      (''textDocument/hover'', ''hoverProvider''),
      (''textDocument/signatureHelp'', ''signatureHelpProvider''),
      (''textDocument/declaration'', ''declarationProvider''),
      (''textDocument/definition'', ''definitionProvider''),
      (''textDocument/typeDefinition'', ''typeDefinitionProvider''),
      (''textDocument/implementation'', ''implementationProvider''),
      (''textDocument/references'', ''referencesProvider''),
      (''textDocument/documentHighlight'', ''documentHighlightProvider''),
      (''textDocument/documentSymbol'', ''documentSymbolProvider''),
      (''textDocument/codeAction'', ''codeActionProvider''),
      (''textDocument/codeLens'', ''codeLensProvider''),
      (''textDocument/documentLink'', ''documentLinkProvider''),
      (''textDocument/colorPresentation'', ''colorProvider''),
      (''textDocument/formatting'', ''documentFormattingProvider''),
      (''textDocument/rangeFormatting'', ''documentRangeFormattingProvider''),
      (''textDocument/onTypeFormatting'', ''documentOnTypeFormattingProvider''),
      (''textDocument/rename'', ''renameProvider''),
      (''textDocument/foldingRange'', ''foldingRangeProvider''),
      (''textDocument/selectionRange'', ''selectionRangeProvider''),
      (''textDocument/linkedEditingRange'', ''linkedEditingRangeProvider''),
      (''textDocument/prepareCallHierarchy'', ''callHierarchyProvider''),
      (''textDocument/prepareTypeHierarchy'', ''typeHierarchyProvider''),
      (''textDocument/semanticTokens'', ''semanticTokensProvider''),
      (''textDocument/moniker'', ''monikerProvider''),
      (''textDocument/inlayHint'', ''inlayHintProvider''),
      (''textDocument/inlineValue'', ''inlineValueProvider''),
      (''textDocument/diagnostic'', ''diagnosticProvider''),
      (''workspace/symbol'', ''workspaceSymbolProvider'')]"

definition has_capability :: "json \<Rightarrow> string \<Rightarrow> bool" where
  "has_capability caps key =
     (case jget caps key of
        None \<Rightarrow> False
      | Some JNull \<Rightarrow> False
      | Some (JBool b) \<Rightarrow> b
      | Some _ \<Rightarrow> True)"

text \<open>A field of the result of an initialize answer, or of the answer itself.\<close>

definition init_field :: "json \<Rightarrow> string \<Rightarrow> json option" where
  "init_field init key =
     opt_or (Option.bind (jget init ''result'') (\<lambda>r. jget r key)) (jget init key)"

definition capability_methods :: "json \<Rightarrow> json" where
  "capability_methods caps = jobj (map (\<lambda>(m, key). (m, JBool (has_capability caps key))) capability_table)"

definition extract_capabilities :: "string \<Rightarrow> json option \<Rightarrow> json" where
  "extract_capabilities lsp_id initialize_result =
     (case initialize_result of
        None \<Rightarrow> jobj
          [(''lsp_id'', JStr lsp_id), (''error'', JStr ''no initialize_result available''),
           (''methods'', jobj []), (''raw'', JNull)]
      | Some init \<Rightarrow>
          (case init_field init ''capabilities'' of
             None \<Rightarrow> jobj
               [(''lsp_id'', JStr lsp_id), (''error'', JStr ''no capabilities field in initialize result''),
                (''methods'', jobj []), (''raw'', init)]
           | Some caps \<Rightarrow> jobj
               [(''lsp_id'', JStr lsp_id),
                (''server_info'', unwrap_or (init_field init ''serverInfo'') JNull),
                (''methods'', capability_methods caps), (''raw_capabilities'', caps)]))"

definition server_line :: "json \<Rightarrow> string list" where
  "server_line capabilities =
     (case Option.bind (jget capabilities ''server_info'') (\<lambda>info. map_option (Pair info) (jget_str info ''name'')) of
        None \<Rightarrow> []
      | Some (info, name) \<Rightarrow>
          [''server='' @ name @
           (case jget_str info ''version'' of None \<Rightarrow> [] | Some version \<Rightarrow> '' v'' @ version)])"

definition available :: "json \<Rightarrow> bool" where
  "available v = unwrap_or (as_bool v) False"

text \<open>The methods of the object whose value passes, ascending.\<close>

definition methods_where :: "(json \<Rightarrow> bool) \<Rightarrow> (string, json) fmap \<Rightarrow> string list" where
  "methods_where p methods = sort (map fst (filter (\<lambda>(_, v). p v) (sorted_list_of_fmap methods)))"

definition print_human :: "string \<Rightarrow> json \<Rightarrow> string list" where
  "print_human lsp_id capabilities =
     [''lsp_id='' @ lsp_id] @ server_line capabilities @
     (case jget_str capabilities ''error'' of
        Some error \<Rightarrow> [''error='' @ error]
      | None \<Rightarrow>
          (case jget capabilities ''methods'' of
             Some (JObj methods) \<Rightarrow>
               (let supported = methods_where available methods;
                    unsupported = methods_where (\<lambda>v. \<not> available v) methods
                in [''supported_methods='' @ nat_str (length supported)] @
                   map (\<lambda>m. ''  + '' @ m) supported @
                   (if unsupported = [] then []
                    else [''unsupported_methods='' @ nat_str (length unsupported)] @
                         map (\<lambda>m. ''  - '' @ m) unsupported))
           | _ \<Rightarrow> []))"

definition decode_attach_ok :: "json \<Rightarrow> attach_ok result" where
  "decode_attach_ok payload =
     (case from_value_attach_ok payload of
        None \<Rightarrow> Inl ''invalid AttachOk payload'' | Some ok \<Rightarrow> Inr ok)"

definition capabilities_conversation ::
  "'s wire \<Rightarrow> client_ident \<Rightarrow> resolved_config \<Rightarrow> string \<Rightarrow> ('s, json) client" where
  "capabilities_conversation w ident resolved lsp =
     bind_client (request_ok w ''attach'' TYPE_ATTACH
        (to_value_attach (attach_payload ident Agent MuxControl resolved lsp)) TYPE_ATTACH_OK ''Attach'')
       (\<lambda>payload. bind_client (lift_res (decode_attach_ok payload))
          (\<lambda>ok c. let capabilities = extract_capabilities lsp (ao_initialize_result ok);
                      (_, c1) = release_lease w (ao_lease_id ok) c
                  in (Inr capabilities, c1)))"

definition run_capabilities ::
  "'s cli_env \<Rightarrow> string \<Rightarrow> path option \<Rightarrow> bool \<Rightarrow> bool \<Rightarrow> string list result \<times> 's conn option" where
  "run_capabilities e lsp root no_start_daemon human =
     (case bind_res (resolve_root e root) (\<lambda>resolved.
           bind_res (cl_connect e (rv_project_root resolved) (\<not> no_start_daemon)) (\<lambda>c.
             Inr (resolved, c))) of
        Inl error \<Rightarrow> (Inl error, None)
      | Inr (resolved, c) \<Rightarrow>
          (case capabilities_conversation (cl_wire e) (cl_ident e) resolved lsp c of
             (Inl error, c1) \<Rightarrow> (Inl error, Some c1)
           | (Inr capabilities, c1) \<Rightarrow>
               (Inr (if human then print_human lsp capabilities
                     else [wi_ser (cl_wire e) capabilities]), Some c1)))"

subsection \<open>\<open>lspee lsps\<close>\<close>

definition selection_json :: "lsp_selection \<Rightarrow> json" where
  "selection_json s = jobj
     [(''id'', JStr (ls_id s)), (''command'', JStr (ls_command s)),
      (''args'', JArr (map JStr (ls_args s))), (''root_markers'', JArr (map JStr (ls_root_markers s))),
      (''executable_found'', JBool (ls_executable_found s))]"

definition user_config_option :: "config_env \<Rightarrow> path option" where
  "user_config_option env = map_option (\<lambda>h. path_join (path_of h) ''.config/lspee/config.toml'') (cv_home env)"

text \<open>The project file is looked for in the directory of the source file only.\<close>

definition project_config_beside :: "(path \<Rightarrow> bool) \<Rightarrow> path \<Rightarrow> path option" where
  "project_config_beside path_exists file =
     Option.bind (path_parent file) (\<lambda>d.
       let p = path_join d ''lspee.toml'' in if path_exists p then Some p else None)"

text \<open>What the commands see of the machine beside \<open>config_env\<close>.\<close>

record show_env =
  sv_paths :: path_env
  sv_catalog :: "language_registry option"
  sv_exists :: "path \<Rightarrow> bool"
  sv_debug :: "string list \<Rightarrow> string"
  sv_toml_pretty :: "effective_config \<Rightarrow> string option"

definition lsps_beside :: "'s cli_env \<Rightarrow> show_env \<Rightarrow> path \<Rightarrow> lsp_selection list result" where
  "lsps_beside e sv file =
     map_error (cl_error_text e)
       (lsps_for_file (cl_config e) (sv_paths sv) (sv_catalog sv) file
          (user_config_option (cl_config e)) (project_config_beside (sv_exists sv) file))"

definition lsps_line :: "show_env \<Rightarrow> lsp_selection \<Rightarrow> string" where
  "lsps_line sv s =
     ''lsp='' @ ls_id s @ '' command='' @ ls_command s @ '' args='' @ sv_debug sv (ls_args s) @
     '' health='' @ (if ls_executable_found s then ''ok'' else ''missing'') @
     '' root_markers='' @ sv_debug sv (ls_root_markers s)"

definition lsps_hint :: string where
  "lsps_hint = ''pass --file <path> to query language registry''"

definition run_lsps_command :: "'s cli_env \<Rightarrow> show_env \<Rightarrow> path option \<Rightarrow> bool \<Rightarrow> string list result" where
  "run_lsps_command e sv file human =
     (case file of
        None \<Rightarrow> Inr (if human then [''lsps=none'', ''hint='' @ lsps_hint]
          else [wi_ser (cl_wire e) (jobj [(''file'', JNull), (''lsps'', JArr []), (''hint'', JStr lsps_hint)])])
      | Some f \<Rightarrow>
          bind_res (lsps_beside e sv f) (\<lambda>matches.
            Inr (if human then (''file='' @ path_display f) # map (lsps_line sv) matches
                 else [wi_ser (cl_wire e) (jobj [(''file'', JStr (path_display f)),
                   (''lsps'', JArr (map selection_json matches))])])))"

subsection \<open>\<open>lspee lsp\<close> and \<open>lspee config show\<close>\<close>

definition string_map_json :: "(string \<times> string) list \<Rightarrow> json" where
  "string_map_json m = jobj (map (map_prod id JStr) m)"

definition lsp_config_json :: "lsp_config \<Rightarrow> json" where
  "lsp_config_json l = jobj
     [(''id'', JStr (lc_id l)), (''command'', JStr (lc_command l)), (''args'', JArr (map JStr (lc_args l))),
      (''env'', string_map_json (lc_env l)),
      (''initialization_options'', toml_to_json (TTable (lc_initialization_options l)))]"

definition option_json :: "u64 option \<Rightarrow> json" where
  "option_json o' = (case o' of None \<Rightarrow> JNull | Some n \<Rightarrow> ju64 n)"

definition memory_config_json :: "memory_config \<Rightarrow> json" where
  "memory_config_json m = jobj
     [(''max_session_mb'', option_json (mc_max_session_mb m)),
      (''max_total_mb'', option_json (mc_max_total_mb m)),
      (''check_interval_ms'', ju64 (mc_check_interval_ms m))]"

definition session_config_json :: "session_config \<Rightarrow> json" where
  "session_config_json s = jobj
     [(''idle_ttl_secs'', ju64 (sc_idle_ttl_secs s)),
      (''daemon_idle_ttl_secs'', option_json (sc_daemon_idle_ttl_secs s))]"

definition lsps_json :: "effective_config \<Rightarrow> json" where
  "lsps_json c = jobj (map (map_prod id lsp_config_json) (ec_lsps c))"

definition effective_config_json :: "effective_config \<Rightarrow> json" where
  "effective_config_json c = jobj
     [(''lsps'', lsps_json c), (''root_markers'', JArr (map JStr (ec_root_markers c))),
      (''workspace_mode'', JStr (ec_workspace_mode c)),
      (''transport_flags'', string_map_json (ec_transport_flags c)),
      (''memory'', memory_config_json (ec_memory c)), (''session'', session_config_json (ec_session c))]"

definition config_show_json :: "resolved_config \<Rightarrow> json" where
  "config_show_json resolved = jobj
     [(''project_root'', JStr (path_display (rv_project_root resolved))),
      (''config_hash'', JStr (rv_config_hash resolved)),
      (''config'', effective_config_json (rv_merged resolved))]"

definition run_show :: "'s cli_env \<Rightarrow> show_env \<Rightarrow> path option \<Rightarrow> bool \<Rightarrow> string list result" where
  "run_show e sv root human =
     bind_res (resolve_root e root) (\<lambda>resolved.
       if human then
         (case sv_toml_pretty sv (rv_merged resolved) of
            None \<Rightarrow> Inl ''cannot print the configuration''
          | Some t \<Rightarrow> Inr [''project_root='' @ path_display (rv_project_root resolved),
              ''config_hash='' @ rv_config_hash resolved, [], t])
       else Inr [wi_ser (cl_wire e) (config_show_json resolved)])"

definition run_lsp_command :: "'s cli_env \<Rightarrow> show_env \<Rightarrow> path option \<Rightarrow> bool \<Rightarrow> string list result" where
  "run_lsp_command e sv root human =
     bind_res (resolve_root e root) (\<lambda>resolved.
       let lsps = ec_lsps (rv_merged resolved);
           top = [''project_root='' @ path_display (rv_project_root resolved),
             ''config_hash='' @ rv_config_hash resolved]
       in Inr (if human then
              top @
              (if lsps = [] then [''configured_lsps=none (using catalog defaults)'']
               else (''configured_lsps='' @ join_with '', '' (map fst lsps)) #
                    map (\<lambda>(i, l). ''  '' @ i @ '': command='' @ lc_command l @ '' args='' @ sv_debug sv (lc_args l)) lsps)
            else [wi_ser (cl_wire e) (jobj
              [(''project_root'', JStr (path_display (rv_project_root resolved))),
               (''config_hash'', JStr (rv_config_hash resolved)),
               (''configured_lsps'', lsps_json (rv_merged resolved))])]))"

subsection \<open>\<open>lspee doctor\<close> and \<open>lspee serve\<close>\<close>

definition sample_ids :: "string list" where
  "sample_ids = [''rust-analyzer'', ''pyright'', ''gopls'', ''taplo'']"

text \<open>The first catalog error ends the command.\<close>

fun lsp_health :: "'s cli_env \<Rightarrow> show_env \<Rightarrow> path \<Rightarrow> string list \<Rightarrow> lsp_selection list result" where
  "lsp_health e sv project_cfg [] = Inr []"
| "lsp_health e sv project_cfg (i # is) =
     bind_res (map_error (cl_error_text e)
         (lsp_for_id (cl_config e) (sv_paths sv) (sv_catalog sv) i
            (user_config_option (cl_config e)) (Some project_cfg))) (\<lambda>selection.
     bind_res (lsp_health e sv project_cfg is) (\<lambda>health.
       Inr (case selection of None \<Rightarrow> health | Some s \<Rightarrow> s # health)))"

definition health_json :: "lsp_selection \<Rightarrow> json" where
  "health_json s = jobj
     [(''id'', JStr (ls_id s)), (''command'', JStr (ls_command s)),
      (''executable_found'', JBool (ls_executable_found s))]"

definition health_line :: "lsp_selection \<Rightarrow> string" where
  "health_line s =
     ''check=lsp_binary:'' @ ls_id s @ '':'' @ (if ls_executable_found s then ''ok'' else ''missing'') @
     '' ('' @ ls_command s @ '')''"

definition run_doctor :: "'s cli_env \<Rightarrow> show_env \<Rightarrow> path option \<Rightarrow> bool \<Rightarrow> string list result" where
  "run_doctor e sv root human =
     bind_res (resolve_root e root) (\<lambda>resolved.
       let project_root = rv_project_root resolved;
           status = (if is_ok (cl_connect e project_root False) then ''ok'' else ''not_running'');
           socket = path_display (daemon_socket_path project_root)
       in bind_res (lsp_health e sv (path_join project_root ''lspee.toml'') sample_ids) (\<lambda>health.
            Inr (if human then
              [''doctor=ok'', ''project_root='' @ path_display project_root, ''check=config_resolution:ok'',
               ''check=daemon_socket:'' @ status @ '' ('' @ socket @ '')''] @ map health_line health
            else [wi_ser (cl_wire e) (jobj
              [(''doctor'', JStr ''ok''), (''project_root'', JStr (path_display project_root)),
               (''checks'', jobj
                  [(''config_resolution'', JStr ''ok''),
                   (''daemon_socket'', jobj [(''status'', JStr status), (''path'', JStr socket)]),
                   (''lsp_binaries'', JArr (map health_json health))])])])))"

definition serve_daemon :: "config_env \<Rightarrow> instant \<Rightarrow> path option \<Rightarrow> config_error + daemon" where
  "serve_daemon env now root =
     bind_res (resolve env root) (\<lambda>resolved. Inr (daemon_new now (rv_project_root resolved) resolved))"

subsection \<open>Properties\<close>

lemma sort_distinct: "distinct xs \<Longrightarrow> sort xs = sorted_list_of_set (set xs)"
  by (simp add: sorted_list_of_set_sort_remdups distinct_remdups_id)

lemma methods_where_table:
  assumes "distinct (map fst l)"
  shows "methods_where p (fmap_of_list l) = sort (map fst (filter (\<lambda>(_, v). p v) l))"
proof -
  let ?s = "sorted_list_of_fmap (fmap_of_list l)"
  have d: "distinct (map fst ?s)"
    by (simp add: sorted_list_of_fmap_def comp_def sorted_list_of_fset.rep_eq)
  have mem: "kv \<in> set ?s \<longleftrightarrow> kv \<in> set l" for kv
  proof -
    obtain k v where kv: "kv = (k, v)" by (cases kv)
    have "kv \<in> set ?s \<longleftrightarrow> map_of ?s k = Some v"
      unfolding kv by (rule map_of_eq_Some_iff [OF d, symmetric])
    also have "\<dots> \<longleftrightarrow> map_of l k = Some v"
      by (simp add: fmlookup_of_list)
    also have "\<dots> \<longleftrightarrow> kv \<in> set l"
      unfolding kv by (rule map_of_eq_Some_iff [OF assms])
    finally show ?thesis .
  qed
  have "distinct (map fst (filter q xs))" if "distinct (map fst xs)" for q and xs :: "(string \<times> json) list"
    using that by (induction xs) auto
  with d assms have "sort (map fst (filter (\<lambda>(_, v). p v) ?s)) =
      sorted_list_of_set (fst ` {kv \<in> set ?s. case kv of (_, v) \<Rightarrow> p v})"
    "sort (map fst (filter (\<lambda>(_, v). p v) l)) =
      sorted_list_of_set (fst ` {kv \<in> set l. case kv of (_, v) \<Rightarrow> p v})"
    by (simp_all add: sort_distinct)
  then show ?thesis by (simp add: methods_where_def mem)
qed

definition advertised :: "json \<Rightarrow> string list" where
  "advertised caps = sort (map fst (filter (\<lambda>(_, key). has_capability caps key) capability_table))"

definition not_advertised :: "json \<Rightarrow> string list" where
  "not_advertised caps = sort (map fst (filter (\<lambda>(_, key). \<not> has_capability caps key) capability_table))"

lemma capability_table_distinct: "distinct (map fst capability_table)"
  by code_simp

lemma capability_methods_where:
  "\<exists>m. capability_methods caps = JObj m \<and> methods_where available m = advertised caps \<and>
     methods_where (\<lambda>v. \<not> available v) m = not_advertised caps"
proof -
  let ?l = "map (\<lambda>(m, key). (m, JBool (has_capability caps key))) capability_table"
  have "distinct (map fst ?l)"
    using capability_table_distinct by (simp add: comp_def split_def)
  from methods_where_table [OF this] show ?thesis
    by (simp add: capability_methods_def jobj_def advertised_def not_advertised_def filter_map comp_def
        split_def available_def)
qed

lemma has_capability_iff:
  "has_capability caps key \<longleftrightarrow> (\<exists>v. jget caps key = Some v \<and> v \<noteq> JNull \<and> v \<noteq> JBool False)"
  by (auto simp: has_capability_def split: option.splits json.splits)

text \<open>C38: the report of a server that sent capabilities lists every method of the table exactly once,
  in ascending order: as supported exactly when the capability is there and neither null nor
  false, else as unsupported.\<close>

theorem capabilities_report_exact:
  assumes "init_field init ''capabilities'' = Some caps"
  shows "print_human lsp_id (extract_capabilities lsp_id (Some init)) =
    [''lsp_id='' @ lsp_id] @ server_line (extract_capabilities lsp_id (Some init)) @
    [''supported_methods='' @ nat_str (length (advertised caps))] @ map (\<lambda>m. ''  + '' @ m) (advertised caps) @
    (if not_advertised caps = [] then []
     else [''unsupported_methods='' @ nat_str (length (not_advertised caps))] @
       map (\<lambda>m. ''  - '' @ m) (not_advertised caps)) \<and>
    mset (advertised caps) + mset (not_advertised caps) = mset (map fst capability_table) \<and>
    set (advertised caps) = {m. \<exists>key v. (m, key) \<in> set capability_table \<and>
      jget caps key = Some v \<and> v \<noteq> JNull \<and> v \<noteq> JBool False}"
proof -
  have "print_human lsp_id (extract_capabilities lsp_id (Some init)) =
    [''lsp_id='' @ lsp_id] @ server_line (extract_capabilities lsp_id (Some init)) @
    [''supported_methods='' @ nat_str (length (advertised caps))] @ map (\<lambda>m. ''  + '' @ m) (advertised caps) @
    (if not_advertised caps = [] then []
     else [''unsupported_methods='' @ nat_str (length (not_advertised caps))] @
       map (\<lambda>m. ''  - '' @ m) (not_advertised caps))"
    using capability_methods_where [of caps] assms
    by (auto simp: print_human_def extract_capabilities_def Let_def)
  moreover have "mset (advertised caps) + mset (not_advertised caps) = mset (map fst capability_table)"
  proof -
    have "mset (map fst (filter p l)) + mset (map fst (filter (\<lambda>x. \<not> p x) l)) = mset (map fst l)"
      for p and l :: "(string \<times> string) list" by (induction l) auto
    from this [of "\<lambda>(_, key). has_capability caps key" capability_table] show ?thesis
      by (simp add: advertised_def not_advertised_def split_def)
  qed
  moreover have "set (advertised caps) = {m. \<exists>key v. (m, key) \<in> set capability_table \<and>
      jget caps key = Some v \<and> v \<noteq> JNull \<and> v \<noteq> JBool False}"
  proof -
    have "set (advertised caps) = {m. \<exists>key. (m, key) \<in> set capability_table \<and> has_capability caps key}"
      unfolding advertised_def set_sort set_map set_filter by force
    then show ?thesis by (simp add: has_capability_iff)
  qed
  ultimately show ?thesis by (intro conjI)
qed

definition demo_init :: json where
  "demo_init = jobj [(''result'', jobj [(''capabilities'', jobj [(''hoverProvider'', JBool True),
     (''renameProvider'', JBool False)])])]"

theorem capabilities_report_exact_witness:
  "set (advertised (jobj [(''hoverProvider'', JBool True), (''renameProvider'', JBool False)])) =
     {''textDocument/hover''} \<and>
   hd (drop 1 (print_human ''x'' (extract_capabilities ''x'' (Some demo_init)))) = ''supported_methods=1''"
proof -
  let ?caps = "jobj [(''hoverProvider'', JBool True), (''renameProvider'', JBool False)]"
  have i: "init_field demo_init ''capabilities'' = Some ?caps"
    by (simp add: init_field_def demo_init_def)
  have "advertised ?caps = [''textDocument/hover'']" "nat_str 1 = ''1''"
    "server_line (extract_capabilities ''x'' (Some demo_init)) = []" by code_simp+
  with capabilities_report_exact [OF i, of "''x''"] show ?thesis by simp
qed

text \<open>
  Looking at capabilities takes no lease for longer than it lasts: once the answer to the attach
  has been decoded, one release of its lease is attempted.
\<close>

lemma capabilities_release:
  assumes "capabilities_conversation w ident resolved lsp c = (Inr v, c')"
  shows "\<exists>payload ok c1 j sent. request_ok w ''attach'' TYPE_ATTACH
        (to_value_attach (attach_payload ident Agent MuxControl resolved lsp)) TYPE_ATTACH_OK ''Attach'' c =
        (Inr payload, c1) \<and>
      from_value_attach_ok payload = Some ok \<and> v = extract_capabilities lsp (ao_initialize_result ok) \<and>
      cn_sent c' = cn_sent c1 @ [(release_frame j (ao_lease_id ok), sent)]"
proof -
  obtain r c1 where a: "request_ok w ''attach'' TYPE_ATTACH
        (to_value_attach (attach_payload ident Agent MuxControl resolved lsp)) TYPE_ATTACH_OK ''Attach'' c =
        (r, c1)" by fastforce
  with assms obtain payload ok where p: "r = Inr payload" "from_value_attach_ok payload = Some ok"
    "v = extract_capabilities lsp (ao_initialize_result ok)"
    "snd (release_lease w (ao_lease_id ok) c1) = c'"
    by (auto simp: capabilities_conversation_def bind_client_def lift_res_def decode_attach_ok_def Let_def
        split: sum.splits option.splits prod.splits)
  with release_lease_sent [of w "ao_lease_id ok" c1 _ c'] a show ?thesis
    by (cases "release_lease w (ao_lease_id ok) c1") auto
qed

end
