(* ===== verification/Lspee_Mcp_Client.thy ===== *)
theory Lspee_Mcp_Client
  imports Lspee_Commands
begin

section \<open>The MCP server's own client\<close>

text \<open>
  \<open>crates/lspee_mcp/src/daemon_helpers.rs\<close> repeats the client code of the command line
  (\<open>commands/client.rs\<close> and the table of \<open>capabilities.rs\<close>) in private functions. They are
  modelled here from their own text, and shown to be the same functions: \<open>mcp_mirrors_cli\<close> fails
  when the two copies drift apart.
\<close>

subsection \<open>Connecting\<close>

abbreviation MCP_CONNECT_ATTEMPTS :: nat where "MCP_CONNECT_ATTEMPTS \<equiv> 40"
abbreviation MCP_CONNECT_BACKOFF_MS :: nat where "MCP_CONNECT_BACKOFF_MS \<equiv> 100"

definition mcp_socket_path :: "path \<Rightarrow> path" where
  "mcp_socket_path project_root = path_join (path_join project_root ''.lspee'') ''daemon.sock''"

primrec mcp_retry ::
  "(nat \<Rightarrow> connect_outcome) \<Rightarrow> nat \<Rightarrow> nat \<Rightarrow> duration \<Rightarrow> nat option \<times> duration" where
  "mcp_retry attempt 0 i slept = (None, slept)"
| "mcp_retry attempt (Suc n) i slept =
     (case attempt i of
        Connected \<Rightarrow> (Some i, slept)
      | Refused _ \<Rightarrow> mcp_retry attempt n (Suc i) (slept + from_millis MCP_CONNECT_BACKOFF_MS))"

text \<open>The arms of the match in the order of the code.\<close>

definition mcp_connect ::
  "(nat \<Rightarrow> connect_outcome) \<Rightarrow> unit result \<Rightarrow> path \<Rightarrow> bool \<Rightarrow> connecting" where
  "mcp_connect attempt spawn project_root auto_start =
     (let failed = (\<lambda>suffix. ''failed to connect to daemon socket '' @
             path_display (mcp_socket_path project_root) @ suffix);
          early = (\<lambda>r. \<lparr>co_stream = r, co_spawned = False, co_slept = 0\<rparr>);
          start = (case spawn of
             Inl e \<Rightarrow> early (Inl e)
           | Inr _ \<Rightarrow>
               (case mcp_retry attempt MCP_CONNECT_ATTEMPTS 1 0 of
                  (Some i, slept) \<Rightarrow> \<lparr>co_stream = Inr i, co_spawned = True, co_slept = slept\<rparr>
                | (None, slept) \<Rightarrow>
                    \<lparr>co_stream = Inl (failed '' after auto-start''), co_spawned = True, co_slept = slept\<rparr>))
      in case attempt 0 of
           Connected \<Rightarrow> early (Inr 0)
         | Refused kind \<Rightarrow>
             (if \<not> auto_start then early (Inl (failed ''''))
              else case kind of
                     NotFound \<Rightarrow> start
                   | ConnectionRefused \<Rightarrow> start
                   | ConnectionReset \<Rightarrow> start
                   | OtherKind \<Rightarrow> early (Inl (failed ''''))))"

definition mcp_spawn_args :: "path \<Rightarrow> string list" where
  "mcp_spawn_args project_root =
     (let log_dir = path_join project_root ''.lspee'';
          log_file = path_join log_dir ''daemon.log''
      in [''serve'', ''--project-root'', path_display project_root, ''--log-file'', path_display log_file])"

definition mcp_spawn_vars :: "(string \<Rightarrow> string option) \<Rightarrow> (string \<times> string) list" where
  "mcp_spawn_vars var =
     (case var ''LSPEE_LOG'' of None \<Rightarrow> [] | Some log_filter \<Rightarrow> [(''LSPEE_LOG'', log_filter)]) @
     (case var ''LSPEE_LOG_FORMAT'' of None \<Rightarrow> [] | Some log_format \<Rightarrow> [(''LSPEE_LOG_FORMAT'', log_format)])"

definition mcp_spawn_daemon :: "string option \<Rightarrow> bool \<Rightarrow> unit result" where
  "mcp_spawn_daemon current_exe spawned =
     (case current_exe of
        None \<Rightarrow> Inl ''failed to resolve current executable''
      | Some _ \<Rightarrow> if spawned then Inr () else Inl ''failed to spawn background daemon process'')"

subsection \<open>Frames\<close>

definition mcp_new_request_id :: "string \<Rightarrow> 's conn \<Rightarrow> string \<times> 's conn" where
  "mcp_new_request_id prefix c =
     (case cn_clock c of
        [] \<Rightarrow> (prefix @ ''-'' @ nat_str 0, c)
      | nanos # clock \<Rightarrow> (prefix @ ''-'' @ nat_str nanos, c\<lparr>cn_clock := clock\<rparr>))"

definition build_attach_envelope ::
  "client_ident \<Rightarrow> string \<Rightarrow> resolved_config \<Rightarrow> string \<Rightarrow> control_envelope" where
  "build_attach_envelope ident i resolved lsp_id =
     \<lparr>ce_v = PROTOCOL_VERSION, ce_id = Some i, ce_type = TYPE_ATTACH,
      ce_payload = to_value_attach
        \<lparr>at_session_key = \<lparr>skw_project_root = path_display (rv_project_root resolved),
           skw_config_hash = rv_config_hash resolved, skw_lsp_id = lsp_id\<rparr>,
         at_client_meta = \<lparr>cm_client_name = id_name ident, cm_client_version = id_version ident,
           cm_client_kind = Some Agent, cm_pid = Some (id_pid ident), cm_cwd = id_cwd ident\<rparr>,
         at_capabilities = Some \<lparr>ac_stream_mode = [MuxControl]\<rparr>\<rparr>\<rparr>"

definition mcp_write_frame :: "'s wire \<Rightarrow> control_envelope \<Rightarrow> ('s, unit) client" where
  "mcp_write_frame w envelope c =
     (let bytes = wi_ser w (to_value_envelope envelope) @ [LF]
      in case wi_peer w (cn_peer c) bytes of
           None \<Rightarrow> (Inl ''write failed'', c\<lparr>cn_sent := cn_sent c @ [(envelope, False)]\<rparr>)
         | Some (peer, answer) \<Rightarrow>
             (Inr (), c\<lparr>cn_peer := peer, cn_inbound := cn_inbound c @ answer,
                        cn_sent := cn_sent c @ [(envelope, True)]\<rparr>))"

function mcp_response_for_id ::
  "(string \<Rightarrow> json option) \<Rightarrow> string \<Rightarrow> string \<Rightarrow> control_envelope result \<times> string" where
  "mcp_response_for_id par expected_id input =
     (case next_line input of
        Inl e \<Rightarrow> (Inl e, snd (take_line input))
      | Inr None \<Rightarrow> (Inl (''daemon socket closed before response for id='' @ expected_id), input)
      | Inr (Some (line, rest)) \<Rightarrow>
          (case par line of
             None \<Rightarrow> (Inl ''invalid daemon response JSON'', rest)
           | Some v \<Rightarrow>
               (case from_value_envelope v of
                  None \<Rightarrow> (Inl ''invalid daemon response JSON'', rest)
                | Some response \<Rightarrow>
                    (if ce_id response = Some expected_id then (Inr response, rest)
                     else mcp_response_for_id par expected_id rest))))"
  by pat_completeness auto

termination
  by (relation "measure (\<lambda>(_, _, input). length input)") (auto dest: next_line_shorter)

declare mcp_response_for_id.simps [simp del]

definition mcp_read_response_for_id :: "'s wire \<Rightarrow> string \<Rightarrow> ('s, control_envelope) client" where
  "mcp_read_response_for_id w expected_id c =
     (case mcp_response_for_id (wi_par w) expected_id (cn_inbound c) of
        (r, rest) \<Rightarrow> (r, c\<lparr>cn_inbound := rest\<rparr>))"

definition mcp_ensure_not_error :: "control_envelope \<Rightarrow> unit result" where
  "mcp_ensure_not_error response =
     (if ce_type response \<noteq> TYPE_ERROR then Inr ()
      else let code = unwrap_or (jget_str (ce_payload response) ''code'') ''E_UNKNOWN'';
               message = unwrap_or (jget_str (ce_payload response) ''message'') ''Unknown daemon error''
           in Inl (''daemon error '' @ code @ '': '' @ message))"

subsection \<open>Capabilities\<close>

definition mcp_has_capability :: "json \<Rightarrow> string \<Rightarrow> bool" where
  "mcp_has_capability caps key =
     (case jget caps key of
        None \<Rightarrow> False
      | Some JNull \<Rightarrow> False
      | Some (JBool b) \<Rightarrow> b
      | Some _ \<Rightarrow> True)"

definition mcp_capability_table :: "(string \<times> string) list" where
  "mcp_capability_table =
     [(''textDocument/completion'', ''completionProvider''),
      (''textDocument/hover'', ''hoverProvider''),
      (''textDocument/signatureHelp'', ''signatureHelpProvider''),
      (''textDocument/declaration'', ''declarationProvider''),
      (''textDocument/definition'', ''definitionProvider''),
      (''textDocument/typeDefinition'', ''typeDefinitionProvider''),
      (''textDocument/implementation'', ''implementationProvider''),
      (''textDocument/references'', ''referencesProvider''),
      (''textDocument/documentHighlight'', ''documentHighlightProvider''),
      (''textDocument/documentSymbol'', ''documentSymbolProvider''),
      (''textDocument/codeAction'', ''codeActionProvider''),
      (''textDocument/codeLens'', ''codeLensProvider''),
      (''textDocument/documentLink'', ''documentLinkProvider''),
      (''textDocument/colorPresentation'', ''colorProvider''),
      (''textDocument/formatting'', ''documentFormattingProvider''),
      (''textDocument/rangeFormatting'', ''documentRangeFormattingProvider''),
      (''textDocument/onTypeFormatting'', ''documentOnTypeFormattingProvider''),
      (''textDocument/rename'', ''renameProvider''),
      (''textDocument/foldingRange'', ''foldingRangeProvider''),
      (''textDocument/selectionRange'', ''selectionRangeProvider''),
      (''textDocument/linkedEditingRange'', ''linkedEditingRangeProvider''),
      (''textDocument/prepareCallHierarchy'', ''callHierarchyProvider''),
      (''textDocument/prepareTypeHierarchy'', ''typeHierarchyProvider''),
      (''textDocument/semanticTokens'', ''semanticTokensProvider''),
      (''textDocument/moniker'', ''monikerProvider''),
      (''textDocument/inlayHint'', ''inlayHintProvider''),
      (''textDocument/inlineValue'', ''inlineValueProvider''),
      (''textDocument/diagnostic'', ''diagnosticProvider''),
      (''workspace/symbol'', ''workspaceSymbolProvider'')]"

definition mcp_extract_capabilities :: "string \<Rightarrow> json option \<Rightarrow> json" where
  "mcp_extract_capabilities lsp_id initialize_result =
     (case initialize_result of
        None \<Rightarrow> jobj
          [(''lsp_id'', JStr lsp_id), (''error'', JStr ''no initialize_result available''),
           (''methods'', jobj []), (''raw'', JNull)]
      | Some init \<Rightarrow>
          (let in_result = (\<lambda>key. Option.bind (jget init ''result'') (\<lambda>r. jget r key))
           in case opt_or (in_result ''capabilities'') (jget init ''capabilities'') of
                None \<Rightarrow> jobj
                  [(''lsp_id'', JStr lsp_id), (''error'', JStr ''no capabilities field in initialize result''),
                   (''methods'', jobj []), (''raw'', init)]
              | Some caps \<Rightarrow>
                  (let methods = jobj (map (\<lambda>(m, key). (m, JBool (mcp_has_capability caps key)))
                         mcp_capability_table);
                       server_info = opt_or (in_result ''serverInfo'') (jget init ''serverInfo'')
                   in jobj [(''lsp_id'', JStr lsp_id), (''server_info'', unwrap_or server_info JNull),
                        (''methods'', methods), (''raw_capabilities'', caps)])))"

subsection \<open>The two copies agree\<close>

lemma mcp_retry_same: "mcp_retry attempt n i slept = retry_connect attempt i n slept"
  by (induction n arbitrary: i slept) (simp_all split: connect_outcome.splits)

lemma mcp_connect_same: "mcp_connect attempt spawn root auto_start = connect attempt spawn root auto_start"
proof (cases "attempt 0")
  case Connected
  then show ?thesis by (simp add: mcp_connect_def connect_def Let_def)
next
  case (Refused kind)
  obtain found slept where "retry_connect attempt 1 DAEMON_CONNECT_ATTEMPTS 0 = (found, slept)"
    by fastforce
  with Refused show ?thesis
    by (cases auto_start; cases kind; cases spawn; cases found)
      (simp_all add: mcp_connect_def connect_def Let_def mcp_retry_same connect_error_def
        mcp_socket_path_def daemon_socket_path_def)
qed

lemma mcp_spawn_same:
  "mcp_spawn_args root = spawn_daemon_args root" "mcp_spawn_vars var = spawn_daemon_vars var"
  "mcp_spawn_daemon exe spawned = spawn_daemon exe spawned"
  by (auto simp: mcp_spawn_args_def spawn_daemon_args_def mcp_spawn_vars_def spawn_daemon_vars_def
      mcp_spawn_daemon_def spawn_daemon_def List.map_filter_def split: option.splits)

lemma mcp_new_request_id_same: "mcp_new_request_id prefix c = new_request_id prefix c"
  by (cases c) (simp add: mcp_new_request_id_def new_request_id_def Let_def split: list.splits)

lemma mcp_attach_envelope_same:
  "build_attach_envelope ident i resolved lsp =
     request_envelope i TYPE_ATTACH (to_value_attach (attach_payload ident Agent MuxControl resolved lsp))"
  by (simp add: build_attach_envelope_def request_envelope_def attach_payload_def)

lemma mcp_write_frame_same: "mcp_write_frame w e c = write_frame w e c"
  by (simp add: mcp_write_frame_def write_frame_def line_frame_def split: option.splits)

lemma mcp_response_same: "mcp_response_for_id par i input = response_for_id par i input"
proof (induction par i input rule: mcp_response_for_id.induct)
  case (1 par i input)
  then show ?case
    by (subst mcp_response_for_id.simps, subst response_for_id.simps)
      (auto split: sum.splits option.splits)
qed

lemma mcp_read_same: "mcp_read_response_for_id w i c = read_response_for_id w i c"
  by (simp add: mcp_read_response_for_id_def read_response_for_id_def mcp_response_same)

lemma mcp_ensure_same: "mcp_ensure_not_error e = ensure_not_error e"
  by (simp add: mcp_ensure_not_error_def ensure_not_error_def render_error_payload_def)

lemma mcp_has_capability_same: "mcp_has_capability caps key = has_capability caps key"
  by (simp add: mcp_has_capability_def has_capability_def)

lemma mcp_table_same: "mcp_capability_table = capability_table"
  by (simp only: mcp_capability_table_def capability_table_def)

lemma mcp_extract_same: "mcp_extract_capabilities lsp init = extract_capabilities lsp init"
  by (simp add: mcp_extract_capabilities_def extract_capabilities_def init_field_def capability_methods_def
      mcp_table_same mcp_has_capability_same Let_def split: option.splits)

lemmas mcp_same = mcp_connect_same mcp_spawn_same mcp_new_request_id_same mcp_attach_envelope_same
  mcp_write_frame_same mcp_read_same mcp_ensure_same mcp_extract_same


end
