(* ===== verification/Lspee_Mcp.thy ===== *)
theory Lspee_Mcp
  imports Lspee_Mcp_Client Lspee_Text
begin

section \<open>The MCP server\<close>

text \<open>
  \<open>crates/lspee_mcp\<close>: the five tools and, in \<open>daemon_helpers.rs\<close>, their conversations with the
  daemon, on the client of \<open>Lspee_Mcp_Client\<close>. The order of the steps differs from the commands'.
  The MCP library that calls the tools is outside.
\<close>

subsection \<open>Conversations\<close>

text \<open>The checks every conversation makes on an answer, and one request with its checked answer.\<close>

definition mcp_expect_type :: "string \<Rightarrow> string \<Rightarrow> control_envelope \<Rightarrow> json result" where
  "mcp_expect_type ok_type what response =
     bind_res (mcp_ensure_not_error response) (\<lambda>_.
       if ce_type response \<noteq> ok_type
       then Inl (''unexpected response type for '' @ what @ '': '' @ ce_type response)
       else Inr (ce_payload response))"

definition mcp_exchange ::
  "'s wire \<Rightarrow> control_envelope \<Rightarrow> string \<Rightarrow> string \<Rightarrow> string \<Rightarrow> ('s, json) client" where
  "mcp_exchange w envelope rid ok_type what =
     bind_client (mcp_write_frame w envelope) (\<lambda>_.
     bind_client (mcp_read_response_for_id w rid) (\<lambda>response.
       lift_res (mcp_expect_type ok_type what response)))"

definition mcp_attach :: "'s wire \<Rightarrow> client_ident \<Rightarrow> resolved_config \<Rightarrow> string \<Rightarrow> ('s, json) client" where
  "mcp_attach w ident resolved lsp c =
     (let (attach_id, c1) = mcp_new_request_id ''mcp-attach'' c
      in mcp_exchange w (build_attach_envelope ident attach_id resolved lsp) attach_id
           TYPE_ATTACH_OK ''Attach'' c1)"

definition mcp_release_lease :: "'s wire \<Rightarrow> string \<Rightarrow> ('s, unit) client" where
  "mcp_release_lease w lease_id c =
     (let (release_id, c1) = mcp_new_request_id ''mcp-release'' c
      in bind_client (mcp_exchange w
             \<lparr>ce_v = PROTOCOL_VERSION, ce_id = Some release_id, ce_type = TYPE_RELEASE,
              ce_payload = to_value_release \<lparr>rl_lease_id = lease_id, rl_reason = None\<rparr>\<rparr>
             release_id TYPE_RELEASE_OK ''Release'')
           (\<lambda>_. lift_res (Inr ())) c1)"

definition mcp_capabilities :: "'s wire \<Rightarrow> client_ident \<Rightarrow> resolved_config \<Rightarrow> string \<Rightarrow> ('s, json) client" where
  "mcp_capabilities w ident resolved lsp =
     bind_client (mcp_attach w ident resolved lsp)
       (\<lambda>payload. bind_client (lift_res (decode_attach_ok payload))
          (\<lambda>ok c. let capabilities = mcp_extract_capabilities lsp (ao_initialize_result ok);
                      (_, c1) = mcp_release_lease w (ao_lease_id ok) c
                  in (Inr capabilities, c1)))"

text \<open>An error of the read leaves by \<open>?\<close>, before the release.\<close>

definition mcp_call ::
  "'s wire \<Rightarrow> client_ident \<Rightarrow> resolved_config \<Rightarrow> string \<Rightarrow> json \<Rightarrow> ('s, call_ok) client" where
  "mcp_call w ident resolved lsp request =
     bind_client (mcp_attach w ident resolved lsp) (\<lambda>payload.
     bind_client (lift_res (attach_lease_id payload)) (\<lambda>lease_id c.
       let (call_id, c1) = mcp_new_request_id ''mcp-call'' c
       in bind_client (mcp_write_frame w
              \<lparr>ce_v = PROTOCOL_VERSION, ce_id = Some call_id, ce_type = TYPE_CALL,
               ce_payload = to_value_call \<lparr>ca_lease_id = lease_id, ca_request = request\<rparr>\<rparr>)
            (\<lambda>_. bind_client (mcp_read_response_for_id w call_id)
               (\<lambda>response c2. let (_, c3) = mcp_release_lease w lease_id c2
                  in (bind_res (mcp_expect_type TYPE_CALL_OK ''Call'' response) decode_call_ok, c3))) c1))"

definition mcp_stats :: "'s wire \<Rightarrow> ('s, stats_ok) client" where
  "mcp_stats w c =
     (let (req_id, c1) = mcp_new_request_id ''mcp-stats'' c
      in bind_client (mcp_exchange w
             \<lparr>ce_v = PROTOCOL_VERSION, ce_id = Some req_id, ce_type = TYPE_STATS,
              ce_payload = to_value_stats ()\<rparr> req_id TYPE_STATS_OK ''Stats'')
           (\<lambda>payload. lift_res (case from_value_stats_ok payload of
              None \<Rightarrow> Inl ''invalid StatsOk payload'' | Some stats \<Rightarrow> Inr stats)) c1)"

text \<open>The same, in the terms of the command line's client.\<close>

lemma mcp_write_frame_eq [simp]: "mcp_write_frame = write_frame"
  by (simp add: fun_eq_iff mcp_write_frame_same)

lemma mcp_read_eq [simp]: "mcp_read_response_for_id = read_response_for_id"
  by (simp add: fun_eq_iff mcp_read_same)

lemma mcp_request_id_eq [simp]: "mcp_new_request_id = new_request_id"
  by (simp add: fun_eq_iff mcp_new_request_id_same)

lemma mcp_expect_eq [simp]: "mcp_expect_type t what e = expect_type t what e"
  by (simp add: mcp_expect_type_def expect_type_def mcp_ensure_same)

lemma mcp_exchange_request:
  "request_ok w prefix t payload okt what c =
     (case new_request_id prefix c of
        (i, c1) \<Rightarrow> mcp_exchange w (request_envelope i t payload) i okt what c1)"
  by (simp add: request_ok_def mcp_exchange_def split: prod.splits)

lemma mcp_attach_request:
  "mcp_attach w ident resolved lsp =
     request_ok w ''mcp-attach'' TYPE_ATTACH
       (to_value_attach (attach_payload ident Agent MuxControl resolved lsp)) TYPE_ATTACH_OK ''Attach''"
  by (simp add: fun_eq_iff mcp_attach_def mcp_exchange_request mcp_attach_envelope_same)

lemma mcp_release_request:
  "mcp_release_lease w lease_id =
     bind_client (request_ok w ''mcp-release'' TYPE_RELEASE
        (to_value_release \<lparr>rl_lease_id = lease_id, rl_reason = None\<rparr>) TYPE_RELEASE_OK ''Release'')
       (\<lambda>_. lift_res (Inr ()))"
  by (simp add: fun_eq_iff mcp_release_lease_def bind_client_def mcp_exchange_request request_envelope_def
      split: prod.splits)

subsection \<open>Helpers and tools\<close>

type_synonym 's tool = "string result \<times> 's conn option"

definition with_daemon ::
  "'s cli_env \<Rightarrow> path option \<Rightarrow> (resolved_config \<Rightarrow> ('s, 'a) client) \<Rightarrow> (resolved_config \<Rightarrow> 'a \<Rightarrow> json)
     \<Rightarrow> 's tool" where
  "with_daemon e root talk show =
     (case bind_res (resolve_root e root) (\<lambda>resolved.
           bind_res (cl_connect e (rv_project_root resolved) True) (\<lambda>c. Inr (resolved, c))) of
        Inl error \<Rightarrow> (Inl error, None)
      | Inr (resolved, c) \<Rightarrow>
          (case talk resolved c of
             (Inl error, c1) \<Rightarrow> (Inl error, Some c1)
           | (Inr x, c1) \<Rightarrow> (Inr (cl_pretty e (show resolved x)), Some c1)))"

definition query_capabilities :: "'s cli_env \<Rightarrow> string \<Rightarrow> path option \<Rightarrow> 's tool" where
  "query_capabilities e lsp_id root =
     with_daemon e root (\<lambda>resolved. mcp_capabilities (cl_wire e) (cl_ident e) resolved lsp_id) (\<lambda>_ v. v)"

definition raw_call :: "'s cli_env \<Rightarrow> string \<Rightarrow> string \<Rightarrow> path option \<Rightarrow> 's tool" where
  "raw_call e lsp_id request_json root =
     (case wi_par (cl_wire e) request_json of
        None \<Rightarrow> (Inl ''invalid JSON request payload'', None)
      | Some request \<Rightarrow>
          with_daemon e root (\<lambda>resolved. mcp_call (cl_wire e) (cl_ident e) resolved lsp_id request)
            (\<lambda>_ ok. co_response ok))"

definition query_status :: "'s cli_env \<Rightarrow> path option \<Rightarrow> 's tool" where
  "query_status e root =
     with_daemon e root (\<lambda>_. mcp_stats (cl_wire e)) (\<lambda>resolved stats. status_json (rv_project_root resolved) stats)"

definition run_lsps :: "'s cli_env \<Rightarrow> show_env \<Rightarrow> string \<Rightarrow> string result" where
  "run_lsps e sv file =
     bind_res (lsps_beside e sv (path_of file)) (\<lambda>matches.
       Inr (cl_pretty e (jobj [(''file'', JStr file), (''lsps'', JArr (map selection_json matches))])))"

definition run_config_show :: "'s cli_env \<Rightarrow> path option \<Rightarrow> string result" where
  "run_config_show e root =
     bind_res (resolve_root e root) (\<lambda>resolved. Inr (cl_pretty e (config_show_json resolved)))"

text \<open>The server: the root given at start, which a call can override.\<close>

definition effective_root :: "path option \<Rightarrow> string option \<Rightarrow> path option" where
  "effective_root default_root per_call = opt_or (map_option path_of per_call) default_root"

definition error_json :: "'s cli_env \<Rightarrow> string \<Rightarrow> string" where
  "error_json e message = wi_ser (cl_wire e) (jobj [(''error'', JStr message)])"

definition tool_text :: "'s cli_env \<Rightarrow> string result \<Rightarrow> string" where
  "tool_text e r = (case r of Inr t \<Rightarrow> t | Inl message \<Rightarrow> error_json e message)"

datatype tool_call =
    LspsTool string
  | CapabilitiesTool string "string option"
  | CallTool string string "string option"
  | StatusTool "string option"
  | ConfigShowTool "string option"

fun run_tool :: "'s cli_env \<Rightarrow> show_env \<Rightarrow> path option \<Rightarrow> tool_call \<Rightarrow> string \<times> 's conn option" where
  "run_tool e sv default_root (LspsTool file) = (tool_text e (run_lsps e sv file), None)"
| "run_tool e sv default_root (CapabilitiesTool lsp_id root) =
     map_prod (tool_text e) id (query_capabilities e lsp_id (effective_root default_root root))"
| "run_tool e sv default_root (CallTool lsp_id request root) =
     map_prod (tool_text e) id (raw_call e lsp_id request (effective_root default_root root))"
| "run_tool e sv default_root (StatusTool root) =
     map_prod (tool_text e) id (query_status e (effective_root default_root root))"
| "run_tool e sv default_root (ConfigShowTool root) =
     (tool_text e (run_config_show e (effective_root default_root root)), None)"

subsection \<open>Properties\<close>

lemma tool_text_json:
  assumes "\<And>t. r = Inr t \<Longrightarrow> \<exists>v. t = cl_pretty e v"
  shows "\<exists>v. tool_text e r = cl_pretty e v \<or> tool_text e r = wi_ser (cl_wire e) v"
  using assms by (cases r) (auto simp: tool_text_def error_json_def)

lemma with_daemon_text: "fst (with_daemon e root talk show) = Inr t \<Longrightarrow> \<exists>v. t = cl_pretty e v"
  by (auto simp: with_daemon_def split: sum.splits prod.splits)

lemma raw_call_text: "fst (raw_call e lsp_id request root) = Inr t \<Longrightarrow> \<exists>v. t = cl_pretty e v"
  by (auto simp: raw_call_def intro: with_daemon_text split: option.splits)

lemma run_tool_text:
  "\<exists>v. fst (run_tool e sv default_root call) = cl_pretty e v \<or>
     fst (run_tool e sv default_root call) = wi_ser (cl_wire e) v"
proof (cases call)
  case (LspsTool x)
  then show ?thesis by simp (rule tool_text_json, auto simp: run_lsps_def bind_res_Inr_iff)
next
  case (CapabilitiesTool x y)
  then show ?thesis
    by simp (rule tool_text_json, auto simp: query_capabilities_def intro: with_daemon_text)
next
  case (CallTool x y z)
  then show ?thesis by simp (rule tool_text_json, auto intro: raw_call_text)
next
  case (StatusTool x)
  then show ?thesis by simp (rule tool_text_json, auto simp: query_status_def intro: with_daemon_text)
next
  case (ConfigShowTool x)
  then show ?thesis by simp (rule tool_text_json, auto simp: run_config_show_def bind_res_Inr_iff)
qed

text \<open>Whatever a tool is asked and whatever the daemon answers, its text is JSON: the result, or an
  object with the error's message.\<close>

theorem mcp_tools_answer_json:
  assumes "\<And>v. json_text_ok (wi_ser (cl_wire e)) (wi_par (cl_wire e)) v"
    and "\<And>v. wi_par (cl_wire e) (cl_pretty e v) = Some v"
  shows "\<exists>v. wi_par (cl_wire e) (fst (run_tool e sv default_root call)) = Some v"
proof -
  obtain v where "fst (run_tool e sv default_root call) = cl_pretty e v \<or>
      fst (run_tool e sv default_root call) = wi_ser (cl_wire e) v"
    using run_tool_text [of e sv default_root call] by blast
  with assms(2) [of v] json_text_okD(1) [OF assms(1), of v] show ?thesis by auto
qed

definition demo_wire :: "unit wire" where
  "demo_wire = \<lparr>wi_ser = text_of, wi_par = parse_text, wi_peer = (\<lambda>_ _. Some ((), []))\<rparr>"

definition demo_conn :: "unit conn" where
  "demo_conn = \<lparr>cn_peer = (), cn_inbound = [], cn_clock = [], cn_sent = []\<rparr>"

definition demo_cli :: "unit cli_env" where
  "demo_cli =
     \<lparr>cl_config = demo_env, cl_error_text = (\<lambda>_. ''config''), cl_connect = (\<lambda>_ _. Inr demo_conn),
      cl_wire = demo_wire, cl_pretty = text_of,
      cl_ident = \<lparr>id_name = ''lspee_mcp'', id_version = ''0'', id_pid = 1, id_cwd = None\<rparr>\<rparr>"

definition demo_show :: show_env where
  "demo_show =
     \<lparr>sv_paths = \<lparr>pe_paths = None, pe_is_file = (\<lambda>_. False)\<rparr>, sv_catalog = Some [],
      sv_exists = (\<lambda>_. False), sv_debug = (\<lambda>_. []), sv_toml_pretty = (\<lambda>_. None)\<rparr>"

lemma demo_cli_text:
  "json_text_ok (wi_ser (cl_wire demo_cli)) (wi_par (cl_wire demo_cli)) v"
  "wi_par (cl_wire demo_cli) (cl_pretty demo_cli v) = Some v"
  using json_text_okD(1) [OF text_of_ok] by (simp_all add: demo_cli_def demo_wire_def)

theorem mcp_tools_answer_json_witness:
  "\<exists>v. wi_par (cl_wire demo_cli) (fst (run_tool demo_cli demo_show None (StatusTool None))) = Some v"
  by (rule mcp_tools_answer_json [OF demo_cli_text])

text \<open>
  The frames of a raw call. Unlike \<open>lspee call\<close>, which gives the lease back whatever the reading of
  the answer brings, the tool leaves when the answer cannot be read.
\<close>

lemma mcp_release_sent:
  assumes "mcp_release_lease w lease_id c = (r, c')"
  shows "\<exists>i ok. cn_sent c' = cn_sent c @ [(release_frame i lease_id, ok)]"
proof -
  obtain q where "request_ok w ''mcp-release'' TYPE_RELEASE
        (to_value_release \<lparr>rl_lease_id = lease_id, rl_reason = None\<rparr>) TYPE_RELEASE_OK ''Release'' c = (q, c')"
    using assms by (auto simp: mcp_release_request bind_client_lift split: prod.splits)
  then show ?thesis by (rule request_ok_sent) (auto simp: release_frame_def)
qed

text \<open>C40: once a raw call of the MCP server holds a lease it sends the call, and then attempts to give
  the lease back exactly when the call's answer could be read; an answer that cannot be read (a
  line that is no envelope, or the end of the input) leaves the lease with the daemon.\<close>

theorem mcp_call_lifecycle:
  "case mcp_attach w ident resolved lsp c of
     (Inl e, c1) \<Rightarrow> mcp_call w ident resolved lsp request c = (Inl e, c1)
   | (Inr payload, c1) \<Rightarrow>
  (case attach_lease_id payload of
     Inl e \<Rightarrow> mcp_call w ident resolved lsp request c = (Inl e, c1)
   | Inr lease_id \<Rightarrow>
  (case new_request_id ''mcp-call'' c1 of (i, c2) \<Rightarrow>
  (case write_frame w (call_frame i lease_id request) c2 of
     (Inl e, c3) \<Rightarrow> mcp_call w ident resolved lsp request c = (Inl e, c3) \<and>
       cn_sent c3 = cn_sent c1 @ [(call_frame i lease_id request, False)]
   | (Inr _, c3) \<Rightarrow>
  (case read_response_for_id w i c3 of
     (Inl e, c4) \<Rightarrow> mcp_call w ident resolved lsp request c = (Inl e, c4) \<and>
       cn_sent c4 = cn_sent c1 @ [(call_frame i lease_id request, True)]
   | (Inr response, c4) \<Rightarrow> \<exists>j ok c5.
       mcp_call w ident resolved lsp request c =
         (bind_res (expect_type TYPE_CALL_OK ''Call'' response) decode_call_ok, c5) \<and>
       cn_sent c5 = cn_sent c1 @ [(call_frame i lease_id request, True), (release_frame j lease_id, ok)]))))"
proof (cases "mcp_attach w ident resolved lsp c")
  case at: (Pair a c1)
  show ?thesis
  proof (cases a)
    case (Inl e)
    with at show ?thesis by (simp add: mcp_call_def bind_client_def)
  next
    case a: (Inr payload)
    show ?thesis
    proof (cases "attach_lease_id payload")
      case (Inl e)
      with at a show ?thesis by (simp add: mcp_call_def bind_client_def lift_res_def)
    next
      case l: (Inr lease_id)
      obtain i c2 where i: "new_request_id ''mcp-call'' c1 = (i, c2)" by (cases "new_request_id ''mcp-call'' c1")
      obtain wr c3 where wf: "write_frame w (call_frame i lease_id request) c2 = (wr, c3)"
        by (cases "write_frame w (call_frame i lease_id request) c2")
      obtain r c4 where rd: "read_response_for_id w i c3 = (r, c4)"
        by (cases "read_response_for_id w i c3")
      obtain q c5 where rl: "mcp_release_lease w lease_id c4 = (q, c5)"
        by (cases "mcp_release_lease w lease_id c4")
      note run = at a l i wf rd rl mcp_call_def bind_client_def lift_res_def
      note sent = write_frame_sent [OF wf] new_request_id_same [OF i] read_response_same [OF rd]
      show ?thesis
      proof (cases wr)
        case (Inl e)
        with sent show ?thesis by (simp add: run) (simp add: wf [unfolded call_frame_def request_envelope_def] Inl)
      next
        case w: (Inr u)
        show ?thesis
        proof (cases r)
          case (Inl e)
          with w sent show ?thesis by (simp add: run) (simp add: wf [unfolded call_frame_def request_envelope_def] rd w Inl bind_client_def)
        next
          case (Inr response)
          with w sent mcp_release_sent [OF rl] show ?thesis
            by (simp add: run) (simp add: wf [unfolded call_frame_def request_envelope_def] rd rl w Inr bind_client_def)
        qed
      qed
    qed
  qed
qed

end
