(* ===== verification/Lspee_Cli.thy ===== *)
theory Lspee_Cli
  imports Lspee_Do Lspee_Config_Edit Lspee_Proxy Lspee_Mcp
begin

section \<open>The binary\<close>

text \<open>
  \<open>crates/lspee_cli/src/commands/mod.rs\<close> and the argument structs of the command files: a parsed
  command line, and which function it runs. Parsing (\<open>clap\<close>) comes before, the exit code after.
  \<open>output\<close> fields are whether the human output was asked for.
\<close>

subsection \<open>Commands\<close>

record lsp_command =
  lp_project_root :: "path option"
  lp_human :: bool

record capabilities_command =
  cp_lsp :: string
  cp_root :: "path option"
  cp_no_start_daemon :: bool
  cp_human :: bool

record status_command =
  su_project_root :: "path option"
  su_no_start_daemon :: bool
  su_human :: bool

record proxy_command =
  px_lsp :: string
  px_root :: "path option"
  px_no_start_daemon :: bool

record lsps_command =
  ll_file :: "path option"
  ll_human :: bool

record doctor_command =
  dr_project_root :: "path option"
  dr_human :: bool

datatype config_action =
    ConfigShow "path option" bool
  | ConfigInit "path option" bool
  | ConfigAddLsp string string "string list option" "path option"
  | ConfigRemoveLsp string "path option"
  | ConfigSet string string "path option"

datatype command =
    CmdLsp lsp_command
  | CmdCall call_command
  | CmdCapabilities capabilities_command
  | CmdStatus status_command
  | CmdServe "path option"
  | CmdProxy proxy_command
  | CmdStop "path option"
  | CmdRestart "path option"
  | CmdLsps lsps_command
  | CmdDoctor doctor_command
  | CmdConfig config_action
  | CmdMcp "path option"
  | CmdDo do_method

subsection \<open>Running one\<close>

text \<open>What a command finds around it, and what it leaves.\<close>

record 's world =
  wo_cli :: "'s cli_env"
  wo_show :: show_env
  wo_edit :: edit_env
  wo_files :: file_env
  wo_reconnect :: "'s conn option \<Rightarrow> path \<Rightarrow> 's conn result"
  wo_now :: instant
  wo_elapsed_ms :: u64
  wo_dial :: "string \<Rightarrow> string option"
  wo_stdin :: string
  wo_events :: "proxy_event list"

datatype 's effect =
    Printed "string list result" "'s conn option"
  | Edited edit
  | Proxied "unit result option" "proxy_state option" "'s conn option"
  | Serves "config_error + daemon"
  | ServesMcp "path option"

definition printed_one :: "string result \<times> 's conn option \<Rightarrow> 's effect" where
  "printed_one r = Printed (bind_res (fst r) (\<lambda>line. Inr [line])) (snd r)"

definition printed :: "string list result \<times> 's conn option \<Rightarrow> 's effect" where
  "printed r = Printed (fst r) (snd r)"

fun run_config :: "'s world \<Rightarrow> config_action \<Rightarrow> 's effect" where
  "run_config w (ConfigShow root human) = Printed (run_show (wo_cli w) (wo_show w) root human) None"
| "run_config w (ConfigInit root force) = Edited (run_init (wo_edit w) root force)"
| "run_config w (ConfigAddLsp i command args root) = Edited (run_add_lsp (wo_edit w) root i command args)"
| "run_config w (ConfigRemoveLsp i root) = Edited (run_remove_lsp (wo_edit w) root i)"
| "run_config w (ConfigSet key v root) = Edited (run_set (wo_edit w) root key v)"

fun run_command :: "'s world \<Rightarrow> command \<Rightarrow> 's effect" where
  "run_command w (CmdLsp cmd) =
     Printed (run_lsp_command (wo_cli w) (wo_show w) (lp_project_root cmd) (lp_human cmd)) None"
| "run_command w (CmdCall cmd) = printed_one (run_call (wo_cli w) cmd)"
| "run_command w (CmdCapabilities cmd) =
     printed (run_capabilities (wo_cli w) (cp_lsp cmd) (cp_root cmd) (cp_no_start_daemon cmd) (cp_human cmd))"
| "run_command w (CmdStatus cmd) =
     printed (run_status (wo_cli w) (su_project_root cmd) (su_no_start_daemon cmd) (su_human cmd))"
| "run_command w (CmdServe project_root) =
     Serves (serve_daemon (cl_config (wo_cli w)) (wo_now w) project_root)"
| "run_command w (CmdProxy cmd) =
     (case run_proxy (wo_cli w) (wo_dial w) (wo_stdin w) (wo_events w) (px_lsp cmd) (px_root cmd)
             (px_no_start_daemon cmd) of
        (r, st, c) \<Rightarrow> Proxied r st c)"
| "run_command w (CmdStop project_root) = printed (run_stop (wo_cli w) project_root)"
| "run_command w (CmdRestart project_root) =
     printed (run_restart (wo_cli w) (wo_reconnect w) project_root)"
| "run_command w (CmdLsps cmd) =
     Printed (run_lsps_command (wo_cli w) (wo_show w) (ll_file cmd) (ll_human cmd)) None"
| "run_command w (CmdDoctor cmd) =
     Printed (run_doctor (wo_cli w) (wo_show w) (dr_project_root cmd) (dr_human cmd)) None"
| "run_command w (CmdConfig action) = run_config w action"
| "run_command w (CmdMcp project_root) = ServesMcp project_root"
| "run_command w (CmdDo cmd) =
     printed_one (run_do (wo_cli w) (sv_paths (wo_show w)) (sv_catalog (wo_show w)) (wo_files w)
       (wo_elapsed_ms w) cmd)"

subsection \<open>Who starts a daemon\<close>

text \<open>The commands whose connection may start a daemon.\<close>

fun may_start_daemon :: "command \<Rightarrow> bool" where
  "may_start_daemon (CmdCall cmd) = (\<not> cc_no_start_daemon cmd)"
| "may_start_daemon (CmdCapabilities cmd) = (\<not> cp_no_start_daemon cmd)"
| "may_start_daemon (CmdStatus cmd) = (\<not> su_no_start_daemon cmd)"
| "may_start_daemon (CmdProxy cmd) = (\<not> px_no_start_daemon cmd)"
| "may_start_daemon (CmdDo cmd) = (\<not> sa_no_start_daemon (shared_args_of cmd))"
| "may_start_daemon (CmdRestart _) = True"
| "may_start_daemon _ = False"

text \<open>Another outcome for the connections that are allowed to start one.\<close>

definition with_auto_start :: "(path \<Rightarrow> 's conn result) \<Rightarrow> 's cli_env \<Rightarrow> 's cli_env" where
  "with_auto_start started e =
     e\<lparr>cl_connect := (\<lambda>root auto_start. if auto_start then started root else cl_connect e root False)\<rparr>"

lemma with_auto_start_simps [simp]:
  "cl_config (with_auto_start f e) = cl_config e" "cl_error_text (with_auto_start f e) = cl_error_text e"
  "cl_wire (with_auto_start f e) = cl_wire e" "cl_pretty (with_auto_start f e) = cl_pretty e"
  "cl_ident (with_auto_start f e) = cl_ident e"
  "cl_connect (with_auto_start f e) root False = cl_connect e root False"
  by (simp_all add: with_auto_start_def)

lemma with_auto_start_shared [simp]:
  "resolve_root (with_auto_start f e) = resolve_root e"
  "show_json (with_auto_start f e) = show_json e"
  "lsps_beside (with_auto_start f e) = lsps_beside e"
  "format_do_output (with_auto_start f e) = format_do_output e"
  by (simp_all add: fun_eq_iff resolve_root_def show_json_def lsps_beside_def format_do_output_def)

lemma lsp_health_auto_start [simp]: "lsp_health (with_auto_start f e) sv cfg is = lsp_health e sv cfg is"
  by (induction "is") simp_all

lemma run_config_auto_start [simp]:
  "run_config (w\<lparr>wo_cli := with_auto_start f (wo_cli w)\<rparr>) action = run_config w action"
  by (cases action) (simp_all add: run_show_def cong: if_cong option.case_cong)

text \<open>No command starts a daemon that was told not to, and \<open>stop\<close>, \<open>doctor\<close> and the commands
  that only read or edit files never do: what a connection with auto-start would have brought makes no
  difference to them.\<close>

theorem no_unwanted_daemon:
  assumes "\<not> may_start_daemon cmd"
  shows "run_command (w\<lparr>wo_cli := with_auto_start started (wo_cli w)\<rparr>) cmd = run_command w cmd"
  using assms
  by (cases cmd)
    (simp_all add: run_lsp_command_def run_call_def run_capabilities_def run_status_def run_proxy_def
      run_stop_def run_lsps_command_def run_doctor_def run_do_def Let_def cong: if_cong option.case_cong sum.case_cong prod.case_cong)

definition demo_world :: "unit world" where
  "demo_world =
     \<lparr>wo_cli = demo_cli, wo_show = demo_show, wo_edit = demo_edit_env [], wo_files = demo_files,
      wo_reconnect = (\<lambda>_ _. Inl ''down''), wo_now = 0, wo_elapsed_ms = 0, wo_dial = (\<lambda>_. None),
      wo_stdin = [], wo_events = []\<rparr>"

theorem no_unwanted_daemon_witness:
  "run_command (demo_world\<lparr>wo_cli := with_auto_start (\<lambda>_. Inl ''never'') (wo_cli demo_world)\<rparr>) (CmdStop None) =
     run_command demo_world (CmdStop None)"
  by (rule no_unwanted_daemon) simp

end
