(* ===== verification/Lspee_System.thy ===== *)
theory Lspee_System
  imports Lspee_Client Lspee_Text
begin

section \<open>A command against the daemon\<close>

text \<open>
  The client of \<open>Lspee_Client\<close> talking to the daemon of \<open>Lspee_Dispatch\<close>: the other end of the
  client's socket is the daemon's connection handler on the registry. The daemon's clock is a list
  of readings, one per request.
\<close>

definition daemon_peer ::
  "(json \<Rightarrow> string) \<Rightarrow> (string \<Rightarrow> json option) \<Rightarrow> daemon_env \<Rightarrow> instant \<Rightarrow> memory_budget_settings
     \<Rightarrow> instant list \<times> registry \<Rightarrow> string \<Rightarrow> ((instant list \<times> registry) \<times> string) option" where
  "daemon_peer ser par dn t0 st s bytes =
     (let (clock, r) = s;
          now = (case clock of [] \<Rightarrow> t0 | t # _ \<Rightarrow> t);
          (es, r1, _, _) = handle_control_connection par dn t0 st [(now, True)] bytes r
      in Some ((tl clock, r1), concat (map (write_envelope ser) es)))"

definition daemon_wire ::
  "(json \<Rightarrow> string) \<Rightarrow> (string \<Rightarrow> json option) \<Rightarrow> daemon_env \<Rightarrow> instant \<Rightarrow> memory_budget_settings
     \<Rightarrow> (instant list \<times> registry) wire" where
  "daemon_wire ser par dn t0 st =
     \<lparr>wi_ser = ser, wi_par = par, wi_peer = daemon_peer ser par dn t0 st\<rparr>"

definition fits :: "(json \<Rightarrow> string) \<Rightarrow> control_envelope \<Rightarrow> bool" where
  "fits ser e = (length (ser (to_value_envelope e)) \<le> MAX_FRAME_SIZE_BYTES)"

lemma request_version_envelope [simp]: "request_version (to_value_envelope e) = Some (ce_v e)"
proof -
  have "uint (ce_v e) < 2 ^ 64" using uint_bounded [of "ce_v e"] by simp
  then have "as_u64 (ju32 (ce_v e)) = Some (ucast (ce_v e))"
    by (simp add: as_u64_def ju32_def)
  moreover have "ucast (ucast v :: u64) = v" for v :: u32
    by (rule bit_word_eqI) (simp add: bit_ucast_iff)
  ultimately show ?thesis
    by (simp add: request_version_def to_value_envelope_def)
qed

lemma daemon_answers:
  assumes "json_text_ok ser par (to_value_envelope e)" "fits ser e" "ce_v e = PROTOCOL_VERSION"
    and "dispatch_control_request dn now t0 st e r = Some (out, r1)" "\<not> do_shutdown_requested out"
  shows "daemon_peer ser par dn t0 st (now # clock, r) (line_frame ser (to_value_envelope e)) =
    Some ((clock, r1), write_envelope ser (do_response out))"
proof -
  note tx = json_text_okD [OF assms(1)]
  have "handle_line par dn now t0 st (ser (to_value_envelope e)) r =
      Some (\<lparr>lo_response = do_response out, lo_continue = True, lo_shutdown = False\<rparr>, r1)"
    using assms(2-5) tx(1) by (simp add: handle_line_def fits_def envelope_roundtrip)
  moreover have "handle_control_connection par dn t0 st [] [] r1 = ([], r1, False, Closed)"
    by (subst handle_control_connection.simps) (simp add: next_line_def)
  ultimately have "handle_control_connection par dn t0 st [(now, True)]
      (ser (to_value_envelope e) @ [LF]) r = ([do_response out], r1, False, Closed)"
    using tx by (subst handle_control_connection.simps) (simp add: next_line_text conn_cons_def)
  then show ?thesis by (simp add: daemon_peer_def line_frame_def)
qed

text \<open>One request to the daemon and its answer.\<close>

lemma exchange:
  assumes "\<And>v. json_text_ok ser par v" and "cn_inbound c = []" "cn_peer c = (now # clock, r)"
    and "cn_clock c = n # ns" and i: "i = prefix @ ''-'' @ nat_str n"
    and "fits ser (request_envelope i t payload)"
    and "dispatch_control_request dn now t0 st (request_envelope i t payload) r = Some (out, r1)"
    and "\<not> do_shutdown_requested out" "ce_id (do_response out) = Some i"
  obtains c1 c2 c3 where "new_request_id prefix c = (i, c1)"
    "write_frame (daemon_wire ser par dn t0 st) (request_envelope i t payload) c1 = (Inr (), c2)"
    "read_response_for_id (daemon_wire ser par dn t0 st) i c2 = (Inr (do_response out), c3)"
    "cn_inbound c3 = []" "cn_peer c3 = (clock, r1)" "cn_clock c3 = ns"
proof -
  let ?e = "request_envelope i t payload"
  let ?w = "daemon_wire ser par dn t0 st"
  let ?c1 = "c\<lparr>cn_clock := ns\<rparr>"
  let ?bytes = "write_envelope ser (do_response out)"
  let ?c2 = "?c1\<lparr>cn_peer := (clock, r1), cn_inbound := ?bytes, cn_sent := cn_sent c @ [(?e, True)]\<rparr>"
  have "new_request_id prefix c = (i, ?c1)"
    using assms(4,5) by (simp add: new_request_id_def)
  moreover have "write_frame ?w ?e ?c1 = (Inr (), ?c2)"
    using daemon_answers [OF assms(1,6) _ assms(7,8), of clock] assms(2,3)
    by (simp add: write_frame_def daemon_wire_def request_envelope_def)
  moreover have "read_response_for_id ?w i ?c2 = (Inr (do_response out), ?c2\<lparr>cn_inbound := []\<rparr>)"
    using json_text_okD [OF assms(1)] assms(9)
    by (simp add: read_response_for_id_def daemon_wire_def response_for_id.simps write_envelope_def
        line_frame_def next_line_text envelope_roundtrip)
  ultimately show ?thesis by (rule that) simp_all
qed

lemma request_reply:
  assumes "\<And>v. json_text_ok ser par v" and "cn_inbound c = []" "cn_peer c = (now # clock, r)"
    and "cn_clock c = n # ns" and "i = prefix @ ''-'' @ nat_str n"
    and "fits ser (request_envelope i t payload)"
    and "dispatch_control_request dn now t0 st (request_envelope i t payload) r = Some (out, r1)"
    and "\<not> do_shutdown_requested out" "ce_id (do_response out) = Some i"
  obtains c' where "request_ok (daemon_wire ser par dn t0 st) prefix t payload okt what c =
      (expect_type okt what (do_response out), c')"
    "cn_inbound c' = []" "cn_peer c' = (clock, r1)" "cn_clock c' = ns"
proof -
  obtain c1 c2 c3 where "new_request_id prefix c = (i, c1)"
    "write_frame (daemon_wire ser par dn t0 st) (request_envelope i t payload) c1 = (Inr (), c2)"
    "read_response_for_id (daemon_wire ser par dn t0 st) i c2 = (Inr (do_response out), c3)"
    "cn_inbound c3 = []" "cn_peer c3 = (clock, r1)" "cn_clock c3 = ns"
    using exchange [OF assms] .
  then show ?thesis by (intro that) (simp_all add: request_ok_def bind_client_def lift_res_def)
qed

lemma spec_release_attach:
  assumes "\<And>k I. m k = Some I \<Longrightarrow> i \<notin> I"
  shows "spec_release i (spec_attach k i m) = m(k \<mapsto> case m k of None \<Rightarrow> {} | Some I \<Rightarrow> I)"
proof (rule ext)
  fix k'
  show "spec_release i (spec_attach k i m) k' =
      (m(k \<mapsto> case m k of None \<Rightarrow> {} | Some I \<Rightarrow> I)) k'"
    using assms [of k'] assms [of k]
    by (cases "m k'"; cases "m k") (auto simp: spec_release_def spec_attach_def)
qed

subsection \<open>\<open>lspee call\<close> from end to end\<close>

definition wire_key :: "resolved_config \<Rightarrow> string \<Rightarrow> session_key_wire" where
  "wire_key resolved lsp =
     \<lparr>skw_project_root = path_display (rv_project_root resolved),
      skw_config_hash = rv_config_hash resolved, skw_lsp_id = lsp\<rparr>"

text \<open>The key the daemon makes of it.\<close>

definition daemon_key :: "resolved_config \<Rightarrow> string \<Rightarrow> session_key" where
  "daemon_key resolved lsp =
     session_key_new (path_of (path_display (rv_project_root resolved))) lsp (rv_config_hash resolved)"

definition attach_frame :: "client_ident \<Rightarrow> client_kind \<Rightarrow> resolved_config \<Rightarrow> string \<Rightarrow> nat \<Rightarrow> control_envelope" where
  "attach_frame ident kind resolved lsp n =
     request_envelope (''attach-'' @ nat_str n) TYPE_ATTACH
       (to_value_attach (attach_payload ident kind MuxControl resolved lsp))"

text \<open>What the caller gets for what the runtime of the session answers.\<close>

definition call_outcome :: "string \<Rightarrow> json result \<Rightarrow> call_ok result" where
  "call_outcome lease_id res =
     (case res of
        Inr response \<Rightarrow> Inr \<lparr>co_lease_id = lease_id, co_response = response\<rparr>
      | Inl message \<Rightarrow> Inl (''daemon error '' @ call_error_code message @ '': '' @ message))"

text \<open>The attach of the registry behind it: a lease, and the session with its process.\<close>

definition attachable :: "daemon_env \<Rightarrow> resolved_config \<Rightarrow> string \<Rightarrow> registry \<Rightarrow> bool" where
  "attachable dn resolved lsp r =
     (session_refs r (daemon_key resolved lsp) \<noteq> None \<or>
      is_ok (spawn_session dn (path_of (path_display (rv_project_root resolved))) lsp (daemon_key resolved lsp)))"

lemma attach_acquires:
  assumes inv: "registry_inv r" and idle: "gates_idle r" and spawn: "attachable dn resolved lsp r"
  obtains l r1 h where
    "acquire_or_spawn now (daemon_key resolved lsp) ck
       (spawn_session dn (path_of (path_display (rv_project_root resolved))) lsp) r = Some (Inr l, r1)"
    "session_handle_of (daemon_key resolved lsp) r1 = Some h"
proof -
  let ?key = "daemon_key resolved lsp"
  let ?spawn = "spawn_session dn (path_of (path_display (rv_project_root resolved))) lsp"
  obtain res r1 where acq: "acquire_or_spawn now ?key ck ?spawn r = Some (res, r1)"
    using acquire_returns [OF _ idle] inv by (fastforce simp: registry_inv_def)
  show ?thesis
  proof (cases res)
    case (Inl e)
    have "?spawn ?key = Inl e" "session_refs r ?key = None"
      using acq inv Inl
      by (auto simp: registry_inv_def session_refs_def try_reuse_None_iff elim!: acquire_cases)
    with spawn show ?thesis by (simp add: attachable_def)
  next
    case (Inr l)
    from acquire_Inr(6) [OF inv acq [unfolded Inr]] obtain rec where
      "map_of (reg_sessions r1) ?key = Some rec" by blast
    with acq Inr that show ?thesis by (simp add: session_handle_of_def)
  qed
qed

lemma dispatch_attach_ok:
  assumes inv: "registry_inv r" and idle: "gates_idle r"
    and key: "validate_session_key (wire_key resolved lsp) = Inr ()"
    and spawn: "attachable dn resolved lsp r"
  obtains l r1 h out where
    "acquire_or_spawn now (daemon_key resolved lsp) (Some kind)
       (spawn_session dn (path_of (path_display (rv_project_root resolved))) lsp) r = Some (Inr l, r1)"
    "dispatch_attach dn now i (to_value_attach (attach_payload ident kind MuxControl resolved lsp)) r =
       Some (respond out, r1)"
    "ce_type out = TYPE_ATTACH_OK" "ce_id out = i" "jget_str (ce_payload out) ''lease_id'' = Some (le_id l)"
proof -
  obtain l r1 h where acq: "acquire_or_spawn now (daemon_key resolved lsp) (Some kind)
       (spawn_session dn (path_of (path_display (rv_project_root resolved))) lsp) r = Some (Inr l, r1)"
    and h: "session_handle_of (daemon_key resolved lsp) r1 = Some h"
    using attach_acquires [OF inv idle spawn] .
  from key have "validate_session_key (at_session_key (attach_payload ident kind MuxControl resolved lsp)) = Inr ()"
    by (simp add: attach_payload_def wire_key_def)
  with acq h show ?thesis
    by (intro that)
      (auto simp: dispatch_attach_def attach_roundtrip Let_def attach_payload_def daemon_key_def
        preferred_stream_mode_def to_value_attach_ok_def jget_str_def)
qed

lemma abs_registry_cong:
  assumes "clock_free r' = clock_free r" and "reg_leases r' = reg_leases r"
  shows "abs_registry r' = abs_registry r"
proof -
  have "session_refs s k = map_option (\<lambda>(_, n, _). n) (clock_free s k)" for s k
    by (simp add: session_refs_def clock_free_def option.map_comp comp_def)
  with assms show ?thesis
    by (simp add: abs_registry_def lease_owner_def fun_eq_iff)
qed

lemma handle_clock_free: "session_handle_of k r = map_option fst (clock_free r k)"
  by (simp add: session_handle_of_def clock_free_def option.map_comp comp_def)

lemma handle_release [simp]:
  "session_handle_of k (snd (release_by_lease_id now i r)) = session_handle_of k r"
  by (auto simp: release_by_lease_id_def take_lease_def drop_ref_def session_handle_of_def
      map_of_map_entry' option.map_comp comp_def split: option.splits)

lemma dispatch_call_ok:
  assumes inv: "registry_inv r" and owner: "lease_owner r l = Some key"
    and rec: "map_of (reg_sessions r) key = Some rec" "\<not> sr_terminating rec"
  obtains r' out where
    "dispatch_call dn now i (to_value_call \<lparr>ca_lease_id = l, ca_request = request\<rparr>) r = Some (respond out, r')"
    "ce_id out = i" "clock_free r' = clock_free r" "reg_leases r' = reg_leases r" "registry_inv r'"
    "bind_res (expect_type TYPE_CALL_OK ''Call'' out) decode_call_ok =
       call_outcome l (dn_call dn (sh_runtime (sr_handle rec)) request)"
proof -
  obtain lr where lr: "map_of (reg_leases r) l = Some lr" "lr_key lr = key"
    using owner by (auto simp: lease_owner_def)
  let ?r = "snd (call_by_lease_id now (dn_call dn) l request r)"
  have res: "fst (call_by_lease_id now (dn_call dn) l request r) =
      (case dn_call dn (sh_runtime (sr_handle rec)) request of
         Inl e \<Rightarrow> Inl e | Inr response \<Rightarrow> Inr (Some response))"
    and st: "clock_free ?r = clock_free r" "reg_leases ?r = reg_leases r"
    using call_by_lease_outcome [OF inv, of now "dn_call dn" l request] lr rec by (simp_all add: Let_def)
  have "registry_inv ?r" using inv by (rule inv_call)
  with res st show ?thesis
    by (cases "dn_call dn (sh_runtime (sr_handle rec)) request"; intro that)
      (auto simp: dispatch_call_def split_def Let_def expect_type_def ensure_not_error_def decode_call_ok_def
        call_outcome_def error_envelope_def render_error_payload_def to_value_error_response_def jget_str_def)
qed

lemma dispatch_release_ok:
  assumes inv: "registry_inv r" and owner: "lease_owner r l = Some key"
  obtains out where
    "dispatch_release now i (to_value_release \<lparr>rl_lease_id = l, rl_reason = None\<rparr>) r =
       Some (respond out, snd (release_by_lease_id now l r))"
    "ce_id out = i"
proof -
  obtain lr where "map_of (reg_leases r) l = Some lr" using owner by (auto simp: lease_owner_def)
  then obtain n where "fst (release_by_lease_id now l r) = Some n"
    using inv lease_session [OF inv] by (metis release_known fst_conv)
  then show ?thesis
    by (intro that) (auto simp: dispatch_release_def split_def prod_eq_iff split: prod.splits option.splits)
qed

definition frames_fit ::
  "(json \<Rightarrow> string) \<Rightarrow> client_ident \<Rightarrow> client_kind \<Rightarrow> resolved_config \<Rightarrow> string \<Rightarrow> string \<Rightarrow> json
     \<Rightarrow> nat list \<Rightarrow> bool" where
  "frames_fit ser ident kind resolved lsp lease_id request clock =
     (case clock of
        n1 # n2 # n3 # _ \<Rightarrow>
          fits ser (attach_frame ident kind resolved lsp n1) \<and>
          fits ser (call_frame (''call-'' @ nat_str n2) lease_id request) \<and>
          fits ser (release_frame (''release-'' @ nat_str n3) lease_id)
      | _ \<Rightarrow> False)"

lemma types_differ [simp]:
  "TYPE_ATTACH \<noteq> TYPE_CALL" "TYPE_ATTACH \<noteq> TYPE_RELEASE" "TYPE_CALL \<noteq> TYPE_RELEASE"
  by simp_all

lemma attach_over_wire:
  assumes codec: "\<And>v. json_text_ok ser par v"
    and c: "cn_inbound c = []" "cn_peer c = (now # clock, r)" "cn_clock c = n # ns"
    and fit: "fits ser (attach_frame ident kind resolved lsp n)"
    and inv: "registry_inv r" and idle: "gates_idle r"
    and key: "validate_session_key (wire_key resolved lsp) = Inr ()"
    and spawn: "attachable dn resolved lsp r"
  obtains l r1 c1 where
    "acquire_or_spawn now (daemon_key resolved lsp) (Some kind)
       (spawn_session dn (path_of (path_display (rv_project_root resolved))) lsp) r = Some (Inr l, r1)"
    "attach_session (daemon_wire ser par dn t0 st) ident kind resolved lsp c = (Inr (le_id l), c1)"
    "cn_inbound c1 = []" "cn_peer c1 = (clock, r1)" "cn_clock c1 = ns"
proof -
  let ?i = "''attach-'' @ nat_str n"
  let ?p = "to_value_attach (attach_payload ident kind MuxControl resolved lsp)"
  obtain l r1 h out where
    acq: "acquire_or_spawn now (daemon_key resolved lsp) (Some kind)
       (spawn_session dn (path_of (path_display (rv_project_root resolved))) lsp) r = Some (Inr l, r1)"
    and att: "dispatch_attach dn now (Some ?i) ?p r = Some (respond out, r1)"
    and out: "ce_type out = TYPE_ATTACH_OK" "ce_id out = Some ?i"
      "jget_str (ce_payload out) ''lease_id'' = Some (le_id l)"
    using dispatch_attach_ok [OF inv idle key spawn] .
  have disp: "dispatch_control_request dn now t0 st (request_envelope ?i TYPE_ATTACH ?p) r =
      Some (respond out, r1)"
    using att by (simp add: dispatch_control_request_def request_envelope_def)
  obtain c1 where c1: "request_ok (daemon_wire ser par dn t0 st) ''attach'' TYPE_ATTACH ?p
        TYPE_ATTACH_OK ''Attach'' c = (expect_type TYPE_ATTACH_OK ''Attach'' out, c1)"
    "cn_inbound c1 = []" "cn_peer c1 = (clock, r1)" "cn_clock c1 = ns"
    using request_reply [OF codec c _ fit [unfolded attach_frame_def] disp,
        of "''attach''" TYPE_ATTACH_OK "''Attach''"] out(2)
    by (auto simp: respond_def)
  have "attach_session (daemon_wire ser par dn t0 st) ident kind resolved lsp c = (Inr (le_id l), c1)"
    using c1(1) out
    by (simp add: attach_session_def bind_client_def lift_res_def expect_type_def ensure_not_error_def
        attach_lease_id_def)
  from that [OF acq this c1(2-4)] show ?thesis .
qed

lemma release_over_wire:
  assumes codec: "\<And>v. json_text_ok ser par v"
    and c: "cn_inbound c = []" "cn_peer c = (now # clock, r)" "cn_clock c = n # ns"
    and fit: "fits ser (release_frame (''release-'' @ nat_str n) lease_id)"
    and inv: "registry_inv r" and owner: "lease_owner r lease_id = Some key"
  obtains res c1 where "release_lease (daemon_wire ser par dn t0 st) lease_id c = (res, c1)"
    "cn_inbound c1 = []" "cn_peer c1 = (clock, snd (release_by_lease_id now lease_id r))" "cn_clock c1 = ns"
proof -
  let ?i = "''release-'' @ nat_str n"
  let ?p = "to_value_release \<lparr>rl_lease_id = lease_id, rl_reason = None\<rparr>"
  obtain out where rel: "dispatch_release now (Some ?i) ?p r =
      Some (respond out, snd (release_by_lease_id now lease_id r))" and out: "ce_id out = Some ?i"
    using dispatch_release_ok [OF inv owner] .
  have disp: "dispatch_control_request dn now t0 st (request_envelope ?i TYPE_RELEASE ?p) r =
      Some (respond out, snd (release_by_lease_id now lease_id r))"
    using rel by (simp add: dispatch_control_request_def request_envelope_def)
  obtain c1 where c1: "request_ok (daemon_wire ser par dn t0 st) ''release'' TYPE_RELEASE ?p
        TYPE_RELEASE_OK ''Release'' c = (expect_type TYPE_RELEASE_OK ''Release'' out, c1)"
    "cn_inbound c1 = []" "cn_peer c1 = (clock, snd (release_by_lease_id now lease_id r))" "cn_clock c1 = ns"
    using request_reply [OF codec c _ fit [unfolded release_frame_def] disp,
        of "''release''" TYPE_RELEASE_OK "''Release''"] out
    by (auto simp: respond_def)
  obtain res where "release_lease (daemon_wire ser par dn t0 st) lease_id c = (res, c1)"
    using c1(1) by (cases "expect_type TYPE_RELEASE_OK ''Release'' out")
      (simp_all add: release_lease_def bind_client_def lift_res_def)
  from that [OF this c1(2-4)] show ?thesis .
qed

lemma call_over_wire:
  assumes codec: "\<And>v. json_text_ok ser par v"
    and c: "cn_inbound c = []" "cn_peer c = (now # clock, r)" "cn_clock c = n # ns"
    and fit: "fits ser (call_frame (''call-'' @ nat_str n) lease_id request)"
    and inv: "registry_inv r" and owner: "lease_owner r lease_id = Some key"
    and rec: "map_of (reg_sessions r) key = Some rec" "\<not> sr_terminating rec"
  obtains r1 out c1 c2 c3 where
    "new_request_id ''call'' c = (''call-'' @ nat_str n, c1)"
    "write_frame (daemon_wire ser par dn t0 st) (call_frame (''call-'' @ nat_str n) lease_id request) c1 = (Inr (), c2)"
    "read_response_for_id (daemon_wire ser par dn t0 st) (''call-'' @ nat_str n) c2 = (Inr out, c3)"
    "cn_inbound c3 = []" "cn_peer c3 = (clock, r1)" "cn_clock c3 = ns"
    "clock_free r1 = clock_free r" "reg_leases r1 = reg_leases r" "registry_inv r1"
    "bind_res (expect_type TYPE_CALL_OK ''Call'' out) decode_call_ok =
       call_outcome lease_id (dn_call dn (sh_runtime (sr_handle rec)) request)"
proof -
  let ?i = "''call-'' @ nat_str n"
  let ?p = "to_value_call \<lparr>ca_lease_id = lease_id, ca_request = request\<rparr>"
  obtain r1 out where
    cal: "dispatch_call dn now (Some ?i) ?p r = Some (respond out, r1)" and out: "ce_id out = Some ?i"
    and st: "clock_free r1 = clock_free r" "reg_leases r1 = reg_leases r" "registry_inv r1"
    and res: "bind_res (expect_type TYPE_CALL_OK ''Call'' out) decode_call_ok =
       call_outcome lease_id (dn_call dn (sh_runtime (sr_handle rec)) request)"
    using dispatch_call_ok [OF inv owner rec] .
  have disp: "dispatch_control_request dn now t0 st (request_envelope ?i TYPE_CALL ?p) r =
      Some (respond out, r1)"
    using cal by (simp add: dispatch_control_request_def request_envelope_def)
  have id: "ce_id (do_response (respond out)) = Some ?i" "\<not> do_shutdown_requested (respond out)"
    using out by (simp_all add: respond_def)
  have pre: "?i = ''call'' @ ''-'' @ nat_str n" by simp
  obtain c1 c2 c3 where ex: "new_request_id ''call'' c = (?i, c1)"
    "write_frame (daemon_wire ser par dn t0 st) (request_envelope ?i TYPE_CALL ?p) c1 = (Inr (), c2)"
    "read_response_for_id (daemon_wire ser par dn t0 st) ?i c2 = (Inr (do_response (respond out)), c3)"
    "cn_inbound c3 = []" "cn_peer c3 = (clock, r1)" "cn_clock c3 = ns"
    using exchange [OF codec c pre fit [unfolded call_frame_def] disp id(2,1)] .
  have "do_response (respond out) = out" by (simp add: respond_def)
  with that [OF ex(1) ex(2) [folded call_frame_def] ex(3) [unfolded this] ex(4-6) st res] show ?thesis
    by blast
qed

lemma handle_insert_lease [simp]:
  "session_handle_of k (snd (insert_lease key ck r)) = session_handle_of k r"
  by (simp add: insert_lease_def next_lease_id_def session_handle_of_def)

lemma handle_lease_on [simp]:
  "map_option sr_handle (map_of (AList.map_entry key (lease_on_record now) S) k) =
     map_option sr_handle (map_of S k)"
  by (auto simp: map_of_map_entry' option.map_comp comp_def)

lemma handle_try_reuse:
  assumes "try_reuse now key ck r = Some p"
  shows "session_handle_of k (snd p) = session_handle_of k r"
proof -
  from assms obtain r2 where "p = insert_lease key ck r2"
      "reg_sessions r2 = AList.map_entry key (lease_on_record now) (reg_sessions r)"
    unfolding try_reuse_def by (fastforce split: option.splits)
  then show ?thesis by simp (simp add: session_handle_of_def)
qed

text \<open>Attaching keeps the process of a session that exists, and installs the one it spawned otherwise.\<close>

lemma acquire_handle:
  assumes acq: "acquire_or_spawn now key ck spawn r = Some (Inr l, r')" and "gates_ok r"
  shows "case session_handle_of key r of
      Some h \<Rightarrow> session_handle_of key r' = Some h
    | None \<Rightarrow> \<exists>h. spawn key = Inr h \<and> session_handle_of key r' = Some h"
  using assms
proof (cases rule: acquire_cases)
  case (reuse r1 l1)
  then obtain rec where "map_of (reg_sessions r) key = Some rec"
    by (auto simp: try_reuse_def same_but_gates_def split: option.splits)
  moreover have "session_handle_of key r' = session_handle_of key r"
    using handle_try_reuse [OF reuse(4)] reuse(1) by (simp add: same_but_gates_def session_handle_of_def)
  ultimately show ?thesis by (simp add: session_handle_of_def)
next
  case (spawned r1 h)
  then have "session_handle_of key r' = Some h"
    by (simp add: install_def Let_def same_but_gates_def) (simp add: session_handle_of_def update_conv'
        session_record_new_def)
  with spawned show ?thesis by (simp add: session_handle_of_def)
qed simp

text \<open>
  Attaching, a request that changes clocks only, and giving the lease back: the session is there with
  the process it had or got, and the lease map is as before on top of it.
\<close>

lemma lease_and_return:
  fixes t3 :: instant
  assumes inv: "registry_inv r" and acq: "acquire_or_spawn t1 key ck spawn r = Some (Inr l, r1)"
    and r2: "clock_free r2 = clock_free r1" "reg_leases r2 = reg_leases r1" "registry_inv r2"
    and h: "session_handle_of key r1 = Some h"
  defines "r3 \<equiv> snd (release_by_lease_id t3 (lease_name (reg_lease_seq r)) r2)"
  shows "case session_handle_of key r of Some h0 \<Rightarrow> h = h0 | None \<Rightarrow> spawn key = Inr h"
    and "session_handle_of key r3 = Some h" and "registry_inv r3"
    and "abs_registry r3 = (abs_registry r)(key \<mapsto> case abs_registry r key of None \<Rightarrow> {} | Some I \<Rightarrow> I)"
proof -
  note new = acquire_Inr [OF inv acq]
  show "case session_handle_of key r of Some h0 \<Rightarrow> h = h0 | None \<Rightarrow> spawn key = Inr h"
    using acquire_handle [OF acq] inv h by (auto simp: registry_inv_def split: option.splits)
  show "session_handle_of key r3 = Some h"
    using h unfolding r3_def handle_release unfolding handle_clock_free r2(1) .
  show "registry_inv r3" unfolding r3_def using r2(3) by (rule inv_release)
  have "abs_registry r1 = spec_attach key (lease_name (reg_lease_seq r)) (abs_registry r)"
    by (rule abs_attach [OF inv new(4) [unfolded new(2)] lease_owner_fresh [OF inv] new(5)])
  moreover have "lease_name (reg_lease_seq r) \<notin> I" if "abs_registry r k = Some I" for k I
    using that lease_owner_fresh [OF inv] by (auto simp: abs_registry_def split: if_splits)
  ultimately show "abs_registry r3 = (abs_registry r)(key \<mapsto> case abs_registry r key of None \<Rightarrow> {} | Some I \<Rightarrow> I)"
    by (simp only: r3_def abs_release [OF r2(3)] abs_registry_cong [OF r2(1,2)]) (rule spec_release_attach)
qed

text \<open>C11: a call over the wire. The client and the daemon agree on a codec and on the frame size, the
  registry is well formed with room for a lease, and the session exists or its server starts. Then
  \<open>lspee call\<close> gets the answer of the server process of exactly the session that its resolved
  configuration names, an error of the server as the error of the daemon; and it leaves the registry
  with that session, a well-formed state, and not one lease more than before.\<close>

theorem call_reaches_server:
  assumes codec: "\<And>v. json_text_ok ser par v"
    and c: "cn_inbound c = []" "cn_peer c = (t1 # t2 # t3 # ts, r)"
    and fit: "frames_fit ser ident kind resolved lsp (lease_name (reg_lease_seq r)) request (cn_clock c)"
    and inv: "registry_inv r" and idle: "gates_idle r" and room: "lease_room r"
    and key: "validate_session_key (wire_key resolved lsp) = Inr ()"
    and spawn: "attachable dn resolved lsp r"
  shows "\<exists>h c' r'.
    call_conversation (daemon_wire ser par dn t0 st) ident kind resolved lsp request c =
      (call_outcome (lease_name (reg_lease_seq r)) (dn_call dn (sh_runtime h) request), c') \<and>
    cn_inbound c' = [] \<and> cn_peer c' = (ts, r') \<and>
    (case session_handle_of (daemon_key resolved lsp) r of
       Some h0 \<Rightarrow> h = h0
     | None \<Rightarrow> spawn_session dn (path_of (path_display (rv_project_root resolved))) lsp
         (daemon_key resolved lsp) = Inr h) \<and>
    session_handle_of (daemon_key resolved lsp) r' = Some h \<and> registry_inv r' \<and>
    abs_registry r' = (abs_registry r)(daemon_key resolved lsp \<mapsto>
      case abs_registry r (daemon_key resolved lsp) of None \<Rightarrow> {} | Some I \<Rightarrow> I)"
proof -
  let ?key = "daemon_key resolved lsp"
  let ?lease = "lease_name (reg_lease_seq r)"
  let ?spawn = "spawn_session dn (path_of (path_display (rv_project_root resolved))) lsp"
  let ?w = "daemon_wire ser par dn t0 st"
  obtain n1 n2 n3 ns where clock: "cn_clock c = n1 # n2 # n3 # ns"
      and fit1: "fits ser (attach_frame ident kind resolved lsp n1)"
      and fit2: "fits ser (call_frame (''call-'' @ nat_str n2) ?lease request)"
      and fit3: "fits ser (release_frame (''release-'' @ nat_str n3) ?lease)"
    using fit by (auto simp: frames_fit_def split: list.splits)
  obtain l r1 c1 where acq: "acquire_or_spawn t1 ?key (Some kind) ?spawn r = Some (Inr l, r1)"
    and att: "attach_session ?w ident kind resolved lsp c = (Inr (le_id l), c1)"
    and c1: "cn_inbound c1 = []" "cn_peer c1 = (t2 # t3 # ts, r1)" "cn_clock c1 = n2 # n3 # ns"
    using attach_over_wire [OF codec c clock fit1 inv idle key spawn] .
  note new = acquire_Inr [OF inv acq]
  have inv1: "registry_inv r1"
    by (rule inv_acquire [OF inv _ _ acq]) (use room in \<open>simp_all add: lease_room_def\<close>)
  have owner1: "lease_owner r1 ?lease = Some ?key" using new(2,4) by simp
  obtain rec where rec: "map_of (reg_sessions r1) ?key = Some rec" "\<not> sr_terminating rec"
    using new(6) by blast
  then have h1: "session_handle_of ?key r1 = Some (sr_handle rec)" by (simp add: session_handle_of_def)
  obtain r2 out c2 c3 c4 where
    call: "new_request_id ''call'' c1 = (''call-'' @ nat_str n2, c2)"
      "write_frame ?w (call_frame (''call-'' @ nat_str n2) ?lease request) c2 = (Inr (), c3)"
      "read_response_for_id ?w (''call-'' @ nat_str n2) c3 = (Inr out, c4)"
    and c4: "cn_inbound c4 = []" "cn_peer c4 = (t3 # ts, r2)" "cn_clock c4 = n3 # ns"
    and r2: "clock_free r2 = clock_free r1" "reg_leases r2 = reg_leases r1" "registry_inv r2"
    and res: "bind_res (expect_type TYPE_CALL_OK ''Call'' out) decode_call_ok =
       call_outcome ?lease (dn_call dn (sh_runtime (sr_handle rec)) request)"
    using call_over_wire [OF codec c1 fit2 inv1 owner1 rec] .
  have "lease_owner r2 ?lease = Some ?key" using owner1 r2(2) by (simp add: lease_owner_def)
  then obtain rl c5 where rel: "release_lease ?w ?lease c4 = (rl, c5)"
    and c5: "cn_inbound c5 = []" "cn_peer c5 = (ts, snd (release_by_lease_id t3 ?lease r2))" "cn_clock c5 = ns"
    using release_over_wire [OF codec c4 fit3 r2(3)] by blast
  have "call_conversation ?w ident kind resolved lsp request c =
      (call_outcome ?lease (dn_call dn (sh_runtime (sr_handle rec)) request), c5)"
    using att call rel res new(2)
    by (simp add: call_conversation_def call_and_release_def bind_client_def call_frame_def)
  with c5 lease_and_return [OF inv acq r2 h1] show ?thesis by blast
qed

definition demo_target :: resolved_config where
  "demo_target = \<lparr>rv_project_root = [''/'', ''w''], rv_merged = default_config, rv_config_hash = ''h''\<rparr>"

definition demo_ident :: client_ident where
  "demo_ident = \<lparr>id_name = ''lspee_cli'', id_version = ''0.1.0'', id_pid = 9, id_cwd = None\<rparr>"

definition demo_client :: "(instant list \<times> registry) conn" where
  "demo_client = \<lparr>cn_peer = ([7, 8, 9], demo_registry), cn_inbound = [], cn_clock = [1, 2, 3], cn_sent = []\<rparr>"

lemma demo_frames_fit:
  "frames_fit text_of demo_ident Agent demo_target ''rust-analyzer'' (lease_name 3) JNull [1, 2, 3]"
proof -
  have len: "length (text_of (to_value_envelope (attach_frame demo_ident Agent demo_target ''rust-analyzer'' 1))) < 8000"
    "length (text_of (to_value_envelope (call_frame (''call-'' @ nat_str 2) (lease_name 3) JNull))) < 8000"
    "length (text_of (to_value_envelope (release_frame (''release-'' @ nat_str 3) (lease_name 3)))) < 8000"
    by code_simp+
  have fits: "fits text_of e" if "length (text_of (to_value_envelope e)) < 8000" for e
    using that by (simp add: fits_def MAX_FRAME_SIZE_BYTES_def)
  show ?thesis by (simp only: frames_fit_def list.case fits [OF len(1)] fits [OF len(2)] fits [OF len(3)])
qed

theorem call_reaches_server_witness:
  "\<exists>h c' r'.
    call_conversation (daemon_wire text_of parse_text demo_daemon_env 0 demo_settings)
        demo_ident Agent demo_target ''rust-analyzer'' JNull demo_client =
      (call_outcome (lease_name (reg_lease_seq demo_registry)) (Inr JNull), c') \<and>
    cn_inbound c' = [] \<and> cn_peer c' = ([], r') \<and>
    session_handle_of demo_key r' = Some h \<and> registry_inv r' \<and>
    abs_registry r' demo_key = abs_registry demo_registry demo_key"
proof -
  have key: "daemon_key demo_target ''rust-analyzer'' = demo_key"
    "validate_session_key (wire_key demo_target ''rust-analyzer'') = Inr ()"
    "session_refs demo_registry demo_key = Some 2" "reg_lease_seq demo_registry = 3"
    by code_simp+
  have idle: "gates_idle demo_registry"
    by code_simp
  have fit: "frames_fit text_of demo_ident Agent demo_target ''rust-analyzer''
      (lease_name (reg_lease_seq demo_registry)) JNull (cn_clock demo_client)"
    using demo_frames_fit by (simp add: key(4) demo_client_def)
  have room: "lease_room demo_registry" by (simp add: lease_room_def key(4))
  have abs: "abs_registry demo_registry demo_key \<noteq> None" using key(3) by (simp add: abs_registry_def)
  obtain h c' r' where
    "call_conversation (daemon_wire text_of parse_text demo_daemon_env 0 demo_settings)
        demo_ident Agent demo_target ''rust-analyzer'' JNull demo_client =
      (call_outcome (lease_name (reg_lease_seq demo_registry))
        (dn_call demo_daemon_env (sh_runtime h) JNull), c')"
    "cn_inbound c' = []" "cn_peer c' = ([], r')"
    "session_handle_of demo_key r' = Some h" "registry_inv r'"
    "abs_registry r' = (abs_registry demo_registry)(demo_key \<mapsto>
      case abs_registry demo_registry demo_key of None \<Rightarrow> {} | Some I \<Rightarrow> I)"
    using call_reaches_server [OF text_of_ok _ _ fit demo_registry_inv idle room key(2),
        of 7 8 9 "[]" demo_daemon_env 0 demo_settings] key(1,3)
    by (auto simp: demo_client_def attachable_def)
  moreover have "dn_call demo_daemon_env (sh_runtime h) JNull = Inr JNull" by (simp add: demo_daemon_env_def)
  ultimately show ?thesis using abs by (auto split: option.splits)
qed

end
