(* ===== verification/Lspee_Isolation.thy ===== *)
theory Lspee_Isolation
  imports Lspee_System
begin

section \<open>Many clients of one daemon\<close>

text \<open>
  The daemon runs a task per connection, and the eviction loop and the memory monitor beside them
  (\<open>crates/lspee_daemon/src/lib.rs\<close>, \<open>eviction.rs\<close>, \<open>memory.rs\<close>), so the requests of all clients and
  the ticks of both loops reach the registry in some interleaving. Here that interleaving is a list of events, each
  with the clock at its turn, and the lemmas follow one lease through it. A request or a tick is one event: the
  interleaving inside an attach is the subject of \<open>Lspee_Registry_Conc\<close>.
\<close>

text \<open>A memory tick comes with the sizes it reads.\<close>

datatype daemon_event =
    Request instant control_envelope
  | IdleTick instant instant
  | MemoryTick instant "nat \<Rightarrow> u64 option result"

text \<open>The answers, the state of the eviction loop, and whether the loop has asked for the shutdown.\<close>

fun serve_events ::
  "daemon_env \<Rightarrow> instant \<Rightarrow> memory_budget_settings \<Rightarrow> (nat \<Rightarrow> unit result) \<Rightarrow> duration option
     \<Rightarrow> daemon_event list \<Rightarrow> eviction_state \<Rightarrow> (control_envelope list \<times> eviction_state \<times> bool) option" where
  "serve_events dn t0 st shutdown ttl [] s = Some ([], s, False)"
| "serve_events dn t0 st shutdown ttl (Request now req # evs) s =
     (case dispatch_control_request dn now t0 st req (es_registry s) of
        None \<Rightarrow> None
      | Some (out, r1) \<Rightarrow>
          map_option (map_prod (Cons (do_response out)) id)
            (serve_events dn t0 st shutdown ttl evs (s\<lparr>es_registry := r1\<rparr>)))"
| "serve_events dn t0 st shutdown ttl (IdleTick now now' # evs) s =
     (case eviction_tick now now' shutdown ttl s of
        (s1, _, True) \<Rightarrow> Some ([], s1, True)
      | (s1, _, False) \<Rightarrow> serve_events dn t0 st shutdown ttl evs s1)"
| "serve_events dn t0 st shutdown ttl (MemoryTick now rss # evs) s =
     serve_events dn t0 st shutdown ttl evs
       (s\<lparr>es_registry := fst (memory_tick now rss shutdown st (es_registry s))\<rparr>)"

primrec event_releases :: "(control_envelope \<Rightarrow> bool) \<Rightarrow> daemon_event \<Rightarrow> bool" where
  "event_releases p (Request now req) = p req"
| "event_releases p (IdleTick now now') = False"
| "event_releases p (MemoryTick now rss) = False"

text \<open>A memory tick that finds a process within the limits; no other event looks at its size.\<close>

primrec event_spares :: "memory_budget_settings \<Rightarrow> nat \<Rightarrow> daemon_event \<Rightarrow> bool" where
  "event_spares st rt (Request now req) = True"
| "event_spares st rt (IdleTick now now') = True"
| "event_spares st rt (MemoryTick now rss) = within_limits st (rss rt)"

text \<open>A request that gives back a given lease.\<close>

definition releases :: "string \<Rightarrow> control_envelope \<Rightarrow> bool" where
  "releases i req =
     (ce_type req = TYPE_RELEASE \<and> map_option rl_lease_id (from_value_release (ce_payload req)) = Some i)"

text \<open>A lease on a session that is not about to end.\<close>

definition holds :: "string \<Rightarrow> session_key \<Rightarrow> session_handle \<Rightarrow> registry \<Rightarrow> bool" where
  "holds i k h r = (lease_owner r i = Some k \<and> (\<exists>n. clock_free r k = Some (h, n, False)))"

lemma holds_cong:
  "clock_free r' = clock_free r \<Longrightarrow> reg_leases r' = reg_leases r \<Longrightarrow> holds i k h r' = holds i k h r"
  by (simp add: holds_def lease_owner_def)

lemma clock_free_release:
  assumes "clock_free r k = Some (h, n, b)"
  shows "\<exists>m. clock_free (snd (release_by_lease_id now j r)) k = Some (h, m, b)"
  using assms
  by (auto simp: clock_free_def release_by_lease_id_def take_lease_def drop_ref_def map_of_map_entry'
      split: option.splits)

lemma holds_release:
  assumes "registry_inv r" "holds i k h r" "j \<noteq> i"
  shows "holds i k h (snd (release_by_lease_id now j r))"
  using assms clock_free_release [of r k h _ False now j]
  by (auto simp: holds_def reg.release_owner)

lemma clock_free_insert_lease [simp]: "clock_free (snd (insert_lease key ck r)) = clock_free r"
  by (simp add: insert_lease_def next_lease_id_def clock_free_def fun_eq_iff)

lemma clock_free_lease_on:
  assumes "map_of S k = Some rec" "\<not> sr_terminating rec"
  shows "\<exists>rec'. map_of (AList.map_entry key (lease_on_record now) S) k = Some rec' \<and>
    sr_handle rec' = sr_handle rec \<and> \<not> sr_terminating rec'"
  using assms by (auto simp: map_of_map_entry')

lemma clock_free_try_reuse:
  assumes "try_reuse now key ck r = Some p" "clock_free r k = Some (h, n, False)"
  shows "\<exists>m. clock_free (snd p) k = Some (h, m, False)"
proof -
  from assms(1) obtain r2 where p: "p = insert_lease key ck r2"
      "reg_sessions r2 = AList.map_entry key (lease_on_record now) (reg_sessions r)"
    unfolding try_reuse_def by (fastforce split: option.splits)
  from assms(2) obtain rec where "map_of (reg_sessions r) k = Some rec" "\<not> sr_terminating rec" "sr_handle rec = h"
    by (auto simp: clock_free_def)
  with clock_free_lease_on [OF this(1,2), of key now] show ?thesis by (auto simp: p clock_free_def)
qed

lemma clock_free_install:
  assumes "map_of (reg_sessions r) key = None" "clock_free r k = Some (h, n, False)"
  shows "\<exists>m. clock_free (snd (install now key ck h' r)) k = Some (h, m, False)"
proof -
  from assms(2) obtain rec where rec: "map_of (reg_sessions r) k = Some rec" "\<not> sr_terminating rec" "sr_handle rec = h"
    by (auto simp: clock_free_def)
  with assms(1) have "map_of (AList.update key (session_record_new now h') (reg_sessions r)) k = Some rec"
    by (auto simp: update_conv')
  from clock_free_lease_on [OF this rec(2), of key now] rec(3) assms(1) show ?thesis
    by (auto simp: install_def Let_def clock_free_def)
qed

lemma holds_acquire:
  assumes inv: "registry_inv r" and held: "holds i k h r"
    and acq: "acquire_or_spawn now key ck spawn r = Some (res, r')"
  shows "holds i k h r'"
proof -
  have gates: "gates_ok r" using inv by (simp add: registry_inv_def)
  have "lease_owner r' i = Some k"
  proof (cases res)
    case (Inl e)
    with acq gates held show ?thesis
      by (auto simp: holds_def lease_owner_def same_but_gates_def elim!: acquire_cases)
  next
    case (Inr l)
    have "le_id l \<noteq> i"
      using acquire_Inr(2) [OF inv acq [unfolded Inr]] lease_owner_fresh [OF inv] held
      by (auto simp: holds_def)
    then show ?thesis using acquire_Inr(4) [OF inv acq [unfolded Inr]] held by (simp add: holds_def)
  qed
  moreover have "\<exists>n. clock_free r' k = Some (h, n, False)"
    using acq gates
  proof (cases rule: acquire_cases)
    case (reuse r1 l)
    then have "clock_free r1 = clock_free r" by (simp add: same_but_gates_def clock_free_def fun_eq_iff)
    with held clock_free_try_reuse [OF reuse(4)] show ?thesis by (auto simp: holds_def)
  next
    case (spawned r1 h')
    then have "clock_free r1 = clock_free r" "map_of (reg_sessions r1) key = None"
      by (simp_all add: same_but_gates_def clock_free_def fun_eq_iff)
    with held clock_free_install [of r1 key k h] spawned(7) show ?thesis by (auto simp: holds_def)
  next
    case (failed e)
    with held show ?thesis by (simp add: holds_def clock_free_def same_but_gates_def)
  qed
  ultimately show ?thesis by (simp add: holds_def)
qed

lemma notify_state:
  assumes "registry_inv r"
  shows "clock_free (snd (notify_by_lease_id now g i msg r)) = clock_free r"
    "reg_leases (snd (notify_by_lease_id now g i msg r)) = reg_leases r"
  using assms
  by (simp_all add: notify_by_lease_id_def runtime_for_lease_state Let_def clock_free_touch
      split: option.splits sum.splits)

text \<open>What a request of any client leaves of a lease that it does not release.\<close>

lemma holds_attach:
  assumes "registry_inv r" "lease_room r" "holds i k h r" "dispatch_attach dn now rid p r = Some (out, r')"
  shows "holds i k h r'"
proof (cases "from_value_attach p")
  case None
  with assms show ?thesis by (simp add: dispatch_attach_def)
next
  case (Some a)
  show ?thesis
  proof (cases "validate_session_key (at_session_key a)")
    case (Inl e)
    with assms Some show ?thesis by (simp add: dispatch_attach_def)
  next
    case (Inr u)
    let ?root = "path_of (skw_project_root (at_session_key a))"
    let ?key = "session_key_new ?root (skw_lsp_id (at_session_key a))
      (skw_config_hash (at_session_key a))"
    obtain res r1 where
      acq: "acquire_or_spawn now ?key (cm_client_kind (at_client_meta a))
        (spawn_session dn ?root (skw_lsp_id (at_session_key a))) r = Some (res, r1)"
      using assms(4) Some Inr by (auto simp: dispatch_attach_def Let_def split: option.splits)
    have held: "holds i k h r1" by (rule holds_acquire [OF assms(1,3) acq])
    have inv: "registry_inv r1"
      by (rule inv_acquire [OF assms(1) _ spawn_session_keyed acq])
        (use assms(2) in \<open>simp add: lease_room_def\<close>)
    have "holds i k h (snd (release_by_lease_id now (le_id l) r1))" if "res = Inr l" for l
    proof (rule holds_release [OF inv held])
      show "le_id l \<noteq> i"
        using acquire_Inr(2) [OF assms(1) acq [unfolded that]] lease_owner_fresh [OF assms(1)] assms(3)
        by (auto simp: holds_def)
    qed
    with assms(4) Some Inr acq held show ?thesis
      by (auto simp: dispatch_attach_def Let_def split: sum.splits option.splits stream_mode.splits)
  qed
qed

lemma dispatch_release_state:
  assumes "dispatch_release now j p r = Some (out, r1)"
  obtains "r1 = r"
  | x where "from_value_release p = Some x" "r1 = snd (release_by_lease_id now (rl_lease_id x) r)"
proof (cases "from_value_release p")
  case None
  with assms that(1) show ?thesis by (simp add: dispatch_release_def)
next
  case (Some x)
  obtain n r2 where "release_by_lease_id now (rl_lease_id x) r = (n, r2)" by fastforce
  with assms Some that(2) show ?thesis by (cases n) (simp_all add: dispatch_release_def)
qed

lemma dispatch_call_state:
  assumes inv: "registry_inv r" and "dispatch_call dn now j p r = Some (out, r1)"
  shows "clock_free r1 = clock_free r \<and> reg_leases r1 = reg_leases r"
proof (cases "from_value_call p")
  case (Some x)
  with assms(2) have "r1 = snd (call_by_lease_id now (dn_call dn) (ca_lease_id x) (ca_request x) r)"
    by (simp add: dispatch_call_def split_def Let_def)
  then show ?thesis using call_by_lease_outcome [OF inv] by simp
qed (use assms(2) in \<open>simp add: dispatch_call_def\<close>)

lemma dispatch_notify_state:
  assumes inv: "registry_inv r" and "dispatch_notify dn now j p r = Some (out, r1)"
  shows "clock_free r1 = clock_free r \<and> reg_leases r1 = reg_leases r"
proof (cases "from_value_notify p")
  case (Some x)
  with assms(2) have "r1 = snd (notify_by_lease_id now (dn_send dn) (no_lease_id x) (no_message x) r)"
    by (simp add: dispatch_notify_def split_def Let_def)
  then show ?thesis using notify_state [OF inv] by simp
qed (use assms(2) in \<open>simp add: dispatch_notify_def\<close>)

text \<open>Which handler a request is dispatched to.\<close>

lemma request_cases:
  assumes "dispatch_control_request dn now t0 st req r = Some (out, r')"
  obtains (attach) j p where "dispatch_attach dn now j p r = Some (out, r')"
  | (release) j where "ce_type req = TYPE_RELEASE" "dispatch_release now j (ce_payload req) r = Some (out, r')"
  | (call) j p where "dispatch_call dn now j p r = Some (out, r')"
  | (notify) j p where "dispatch_notify dn now j p r = Some (out, r')"
  | (same) "r' = r"
  using assms unfolding dispatch_control_request_def
  by (auto simp: dispatch_stats_def dispatch_shutdown_def Let_def split: if_split_asm option.split_asm)

lemma holds_request:
  assumes inv: "registry_inv r" and room: "lease_room r" and held: "holds i k h r"
    and other: "\<not> releases i req"
    and "dispatch_control_request dn now t0 st req r = Some (out, r')"
  shows "holds i k h r'"
  using assms(5)
proof (cases rule: request_cases)
  case (attach j p)
  then show ?thesis by (rule holds_attach [OF inv room held])
next
  case (release j)
  from release(2) show ?thesis
  proof (cases rule: dispatch_release_state)
    case (2 x)
    with release(1) other have "rl_lease_id x \<noteq> i" by (simp add: releases_def)
    with 2 holds_release [OF inv held] show ?thesis by simp
  qed (simp add: held)
next
  case (call j p)
  then show ?thesis using dispatch_call_state [OF inv call] held holds_cong [of r' r] by blast
next
  case (notify j p)
  then show ?thesis using dispatch_notify_state [OF inv notify] held holds_cong [of r' r] by blast
next
  case same
  with held show ?thesis by simp
qed

lemma holds_tick:
  assumes q: "quiescent n (es_registry s)" and held: "holds i k h (es_registry s)"
    and tick: "eviction_tick now now' shutdown ttl s = (s', es, stop)"
  shows "quiescent n (es_registry s')" and "holds i k h (es_registry s')" and "\<not> stop"
proof -
  have inv: "registry_inv (es_registry s)" using q by (simp add: quiescent_def)
  have owner: "lease_owner (es_registry s) i = Some k" using held by (simp add: holds_def)
  note effect = eviction_tick_effect [OF inv tick] and same = eviction_tick_leased [OF inv tick owner]
  show "quiescent n (es_registry s')"
    using q effect(1) eviction_tick_gates [OF tick]
    by (simp add: quiescent_def same_gates_seq_def gates_idle_def)
  show held': "holds i k h (es_registry s')"
    using held effect(2) same by (simp add: holds_def clock_free_def)
  then have "session_count (es_registry s') \<noteq> 0"
    by (auto simp: holds_def clock_free_def session_count_def)
  with eviction_tick_registry [OF tick] show "\<not> stop"
    by (auto simp: daemon_idle_check_def split: option.splits)
qed

lemma holds_memory_tick:
  assumes q: "quiescent n r" and held: "holds i k h r"
    and limits: "within_limits st (rss (sh_runtime h))"
  shows "quiescent n (fst (memory_tick now rss shutdown st r))"
    and "holds i k h (fst (memory_tick now rss shutdown st r))"
proof -
  have inv: "registry_inv r" using q by (simp add: quiescent_def)
  obtain r' es where tick: "memory_tick now rss shutdown st r = (r', es)" by fastforce
  note keeps = memory_tick_keeps [OF inv tick]
  from held obtain rec where rec: "map_of (reg_sessions r) k = Some rec" "sr_handle rec = h"
    and owner: "lease_owner r i = Some k" by (auto simp: holds_def clock_free_def)
  have spared: "k \<notin> sm_key ` set (select_evictions (collect_samples now rss r) st)"
    by (rule within_limits_spared [OF inv rec(1)]) (simp add: rec(2) limits)
  then have "map_of (reg_sessions r') k = map_of (reg_sessions r) k" by (rule keeps(3))
  moreover have "lease_owner r' i = lease_owner r i" using spared owner by (intro keeps(4)) auto
  ultimately show "holds i k h (fst (memory_tick now rss shutdown st r))"
    using held by (simp add: tick holds_def clock_free_def)
  show "quiescent n (fst (memory_tick now rss shutdown st r))"
    using q keeps(1,2) by (simp add: tick quiescent_def same_gates_seq_def gates_idle_def)
qed

lemma serve_events_holds:
  "quiescent n (es_registry s) \<Longrightarrow> n + length evs < 2 ^ 64 \<Longrightarrow> holds i k h (es_registry s) \<Longrightarrow>
     list_all (\<lambda>ev. \<not> event_releases (releases i) ev \<and> event_spares st (sh_runtime h) ev) evs \<Longrightarrow>
     \<exists>es s'. serve_events dn t0 st shutdown ttl evs s = Some (es, s', False) \<and>
       quiescent (n + length evs) (es_registry s') \<and> holds i k h (es_registry s')"
proof (induction evs arbitrary: n s)
  case (Cons ev evs)
  from Cons.prems(2) have n: "n + 1 < 2 ^ 64" "n + 1 + length evs < 2 ^ 64" by simp_all
  show ?case
  proof (cases ev)
    case (Request now req)
    obtain out r1 where d: "dispatch_control_request dn now t0 st req (es_registry s) = Some (out, r1)"
        and q: "quiescent (n + 1) r1"
      using quiescent_request [OF Cons.prems(1) n(1)] by blast
    have room: "lease_room (es_registry s)" "registry_inv (es_registry s)"
      using Cons.prems(1) n(1) by (auto simp: quiescent_def lease_room_def)
    have "holds i k h r1"
      by (rule holds_request [OF room(2,1) Cons.prems(3) _ d]) (use Cons.prems(4) Request in simp)
    with Cons.IH [of "n + 1" "s\<lparr>es_registry := r1\<rparr>"] q n(2) Cons.prems(4) Request d show ?thesis by auto
  next
    case (IdleTick now now')
    obtain s1 es stop where tick: "eviction_tick now now' shutdown ttl s = (s1, es, stop)"
      by (metis surj_pair)
    note keep = holds_tick [OF Cons.prems(1,3) tick]
    then have "quiescent (n + 1) (es_registry s1)" by (auto intro: quiescent_mono)
    with Cons.IH [of "n + 1" s1] keep n(2) Cons.prems(4) IdleTick tick show ?thesis by auto
  next
    case (MemoryTick now rss)
    let ?s1 = "s\<lparr>es_registry := fst (memory_tick now rss shutdown st (es_registry s))\<rparr>"
    have "within_limits st (rss (sh_runtime h))" using Cons.prems(4) MemoryTick by simp
    note keep = holds_memory_tick [where rss = rss and now = now and shutdown = shutdown, OF Cons.prems(1,3) this]
    then have "quiescent (n + 1) (es_registry ?s1)" by (auto intro: quiescent_mono)
    with Cons.IH [of "n + 1" ?s1] keep(2) n(2) Cons.prems(4) MemoryTick show ?thesis by auto
  qed
qed auto


definition demo_limits :: memory_budget_settings where
  "demo_limits = \<lparr>mb_max_session_bytes = Some 4096, mb_max_total_bytes = None, mb_check_interval = 1\<rparr>"

definition demo_others :: "daemon_event list" where
  "demo_others =
     [Request 8 (release_frame ''release-1'' (lease_name 2)), IdleTick 4000 4001,
      MemoryTick 4002 (\<lambda>_. Inr (Some 1024)), Request 4009 (call_frame ''call-2'' (lease_name 2) JNull)]"


end
