(* ===== verification/Lspee_Payload.thy ===== *)
theory Lspee_Payload
  imports Lspee_Protocol
begin

section \<open>The typed payload\<close>

text \<open>
  The enum \<open>ControlPayload\<close> of \<open>crates/lspee_protocol/src/lib.rs\<close>, the sum of all control messages.
  Serde writes it as an object of a tag, the name of the variant, and a content, and reads it from any
  object with these two entries; so it reads a whole envelope. Nothing in the repository
  decodes it: the clients look at the type and decode the payload by hand. The lemmas show that both
  ways agree.
\<close>

text \<open>The decoder of \<open>Stats {}\<close>, which the daemon does not call: it ignores the payload.\<close>

definition from_value_stats :: "json \<Rightarrow> unit option" where
  "from_value_stats j = map_option (\<lambda>_. ()) (struct_fields [] j)"

lemma stats_roundtrip [simp]: "from_value_stats (to_value_stats x) = Some x"
  by (simp add: from_value_stats_def to_value_stats_def)

datatype control_payload =
    PAttach attach
  | PAttachOk attach_ok
  | PRelease release
  | PReleaseOk release_ok
  | PCall call
  | PCallOk call_ok
  | PNotify notify
  | PNotifyOk notify_ok
  | PPing ping
  | PPong pong
  | PShutdown unit
  | PShutdownOk shutdown_ok
  | PStats unit
  | PStatsOk stats_ok
  | PError error_response

fun payload_tag :: "control_payload \<Rightarrow> string" where
  "payload_tag (PAttach _) = ''Attach''"
| "payload_tag (PAttachOk _) = ''AttachOk''"
| "payload_tag (PRelease _) = ''Release''"
| "payload_tag (PReleaseOk _) = ''ReleaseOk''"
| "payload_tag (PCall _) = ''Call''"
| "payload_tag (PCallOk _) = ''CallOk''"
| "payload_tag (PNotify _) = ''Notify''"
| "payload_tag (PNotifyOk _) = ''NotifyOk''"
| "payload_tag (PPing _) = ''Ping''"
| "payload_tag (PPong _) = ''Pong''"
| "payload_tag (PShutdown _) = ''Shutdown''"
| "payload_tag (PShutdownOk _) = ''ShutdownOk''"
| "payload_tag (PStats _) = ''Stats''"
| "payload_tag (PStatsOk _) = ''StatsOk''"
| "payload_tag (PError _) = ''Error''"

fun payload_content :: "control_payload \<Rightarrow> json" where
  "payload_content (PAttach x) = to_value_attach x"
| "payload_content (PAttachOk x) = to_value_attach_ok x"
| "payload_content (PRelease x) = to_value_release x"
| "payload_content (PReleaseOk x) = to_value_release_ok x"
| "payload_content (PCall x) = to_value_call x"
| "payload_content (PCallOk x) = to_value_call_ok x"
| "payload_content (PNotify x) = to_value_notify x"
| "payload_content (PNotifyOk x) = to_value_notify_ok x"
| "payload_content (PPing x) = to_value_ping x"
| "payload_content (PPong x) = to_value_pong x"
| "payload_content (PShutdown x) = to_value_shutdown x"
| "payload_content (PShutdownOk x) = to_value_shutdown_ok x"
| "payload_content (PStats x) = to_value_stats x"
| "payload_content (PStatsOk x) = to_value_stats_ok x"
| "payload_content (PError x) = to_value_error_response x"

definition to_value_payload :: "control_payload \<Rightarrow> json" where
  "to_value_payload p =
     jstruct [(''type'', Some (JStr (payload_tag p))), (''payload'', Some (payload_content p))]"

definition payload_decoders :: "(string \<times> (json \<Rightarrow> control_payload option)) list" where
  "payload_decoders =
     [(''Attach'', map_option PAttach \<circ> from_value_attach),
      (''AttachOk'', map_option PAttachOk \<circ> from_value_attach_ok),
      (''Release'', map_option PRelease \<circ> from_value_release),
      (''ReleaseOk'', map_option PReleaseOk \<circ> from_value_release_ok),
      (''Call'', map_option PCall \<circ> from_value_call),
      (''CallOk'', map_option PCallOk \<circ> from_value_call_ok),
      (''Notify'', map_option PNotify \<circ> from_value_notify),
      (''NotifyOk'', map_option PNotifyOk \<circ> from_value_notify_ok),
      (''Ping'', map_option PPing \<circ> from_value_ping),
      (''Pong'', map_option PPong \<circ> from_value_pong),
      (''Shutdown'', map_option PShutdown \<circ> from_value_shutdown),
      (''ShutdownOk'', map_option PShutdownOk \<circ> from_value_shutdown_ok),
      (''Stats'', map_option PStats \<circ> from_value_stats),
      (''StatsOk'', map_option PStatsOk \<circ> from_value_stats_ok),
      (''Error'', map_option PError \<circ> from_value_error_response)]"

definition from_value_payload :: "json \<Rightarrow> control_payload option" where
  "from_value_payload j =
     Option.bind (struct_fields [''type'', ''payload''] j) (\<lambda>fld.
     Option.bind (de_req (de_enum payload_decoders) fld ''type'') (\<lambda>decode.
       de_req decode fld ''payload''))"

text \<open>An envelope reads as the payload that its type and its payload name.\<close>

lemma payload_of_envelope:
  "from_value_payload (to_value_envelope e) =
     Option.bind (map_of payload_decoders (ce_type e)) (\<lambda>decode. decode (ce_payload e))"
  by (simp add: from_value_payload_def to_value_envelope_def)

lemma payload_of_value:
  "from_value_payload (to_value_payload p) =
     Option.bind (map_of payload_decoders (payload_tag p)) (\<lambda>decode. decode (payload_content p))"
  by (simp add: from_value_payload_def to_value_payload_def)

text \<open>
  Two payloads hold a value that may be null, which the decoder reads as an absent one.
\<close>

fun null_free :: "control_payload \<Rightarrow> bool" where
  "null_free (PAttachOk x) = (ao_initialize_result x \<noteq> Some JNull)"
| "null_free (PError x) = (er_details x \<noteq> Some JNull)"
| "null_free _ = True"

lemma payload_decodes:
  assumes "null_free p"
  shows "Option.bind (map_of payload_decoders (payload_tag p)) (\<lambda>decode. decode (payload_content p)) = Some p"
  using assms
  by (cases p) (simp_all add: payload_decoders_def attach_roundtrip attach_ok_roundtrip error_response_roundtrip)

theorem payload_roundtrip:
  "null_free p \<Longrightarrow> from_value_payload (to_value_payload p) = Some p"
  by (simp only: payload_of_value payload_decodes)

theorem envelope_carries_payload:
  "null_free p \<Longrightarrow> ce_type e = payload_tag p \<Longrightarrow> ce_payload e = payload_content p \<Longrightarrow>
     from_value_payload (to_value_envelope e) = Some p"
  by (simp only: payload_of_envelope payload_decodes)

end
