(* ===== verification/Lspee_Answers.thy ===== *)
theory Lspee_Answers
  imports Lspee_Dispatch Lspee_Payload
begin

section \<open>The daemon's answers\<close>

text \<open>
  What the daemon of \<open>Lspee_Dispatch\<close> writes, typed by the protocol of
  \<open>crates/lspee_protocol/src/lib.rs\<close>: the type of each answer is the one that belongs to the
  request, or an error, and its payload is one the clients' decoder for that type accepts. The last
  part is what every client conversation relies on when it decodes.
\<close>

text \<open>The codes the daemon sends. The protocol document names more, which no answer carries.\<close>

definition error_codes :: "string list" where
  "error_codes =
     [ERROR_UNSUPPORTED_VERSION, ERROR_BAD_MESSAGE, ERROR_FRAME_TOO_LARGE, ERROR_UNKNOWN_TYPE, ERROR_TIMEOUT,
      ERROR_INTERNAL, ERROR_INVALID_SESSION_KEY, ERROR_SESSION_SPAWN_FAILED, ERROR_SESSION_RESTARTING,
      ERROR_LEASE_NOT_FOUND, ERROR_SESSION_EVICTED_MEMORY]"

text \<open>The answer to a request that is not an error.\<close>

definition answer_type :: "string \<Rightarrow> string option" where
  "answer_type t = map_of
     [(TYPE_ATTACH, TYPE_ATTACH_OK), (TYPE_RELEASE, TYPE_RELEASE_OK), (TYPE_CALL, TYPE_CALL_OK),
      (TYPE_NOTIFY, TYPE_NOTIFY_OK), (TYPE_STATS, TYPE_STATS_OK), (TYPE_SHUTDOWN, TYPE_SHUTDOWN_OK)] t"

text \<open>A payload that the decoder of its type accepts.\<close>

definition well_typed :: "control_envelope \<Rightarrow> bool" where
  "well_typed e =
     (let t = ce_type e; p = ce_payload e
      in if t = TYPE_ATTACH_OK then from_value_attach_ok p \<noteq> None
         else if t = TYPE_RELEASE_OK then from_value_release_ok p \<noteq> None
         else if t = TYPE_CALL_OK then from_value_call_ok p \<noteq> None
         else if t = TYPE_NOTIFY_OK then from_value_notify_ok p \<noteq> None
         else if t = TYPE_STATS_OK then from_value_stats_ok p \<noteq> None
         else if t = TYPE_SHUTDOWN_OK then from_value_shutdown_ok p \<noteq> None
         else t = TYPE_ERROR \<and>
           (case from_value_error_response p of None \<Rightarrow> False | Some er \<Rightarrow> er_code er \<in> set error_codes))"

definition answers_request :: "control_envelope \<Rightarrow> control_envelope \<Rightarrow> bool" where
  "answers_request req e =
     (well_typed e \<and> (ce_type e = TYPE_ERROR \<or> answer_type (ce_type req) = Some (ce_type e)))"

lemma attach_ok_decodes: "from_value_attach_ok (to_value_attach_ok x) \<noteq> None"
proof (cases "ao_initialize_result x = Some JNull")
  case True
  then show ?thesis
    by (simp add: from_value_attach_ok_def to_value_attach_ok_def de_opt_def de_option_def
        de_opt_simp [where f = JStr and x = "ao_session_id x", unfolded de_opt_def de_option_def]
        de_opt_simp [where f = to_value_server_info and x = "ao_server x", unfolded de_opt_def de_option_def]
        split: option.splits)
qed (simp add: attach_ok_roundtrip)

lemma well_typed_simps [simp]:
  "well_typed (ok_envelope i TYPE_ATTACH_OK (to_value_attach_ok a))"
  "well_typed (ok_envelope i TYPE_RELEASE_OK (to_value_release_ok b))"
  "well_typed (ok_envelope i TYPE_CALL_OK (to_value_call_ok c))"
  "well_typed (ok_envelope i TYPE_NOTIFY_OK (to_value_notify_ok d))"
  "well_typed (ok_envelope i TYPE_STATS_OK (to_value_stats_ok f))"
  "well_typed (ok_envelope i TYPE_SHUTDOWN_OK (to_value_shutdown_ok g))"
  by (simp_all add: well_typed_def ok_envelope_def attach_ok_decodes [simplified])

lemma well_typed_error [simp]:
  "well_typed (error_envelope i code message retryable None) = (code \<in> set error_codes)"
  by (simp add: well_typed_def error_envelope_def error_response_roundtrip)

lemma codes_known [simp]:
  "ERROR_UNSUPPORTED_VERSION \<in> set error_codes" "ERROR_BAD_MESSAGE \<in> set error_codes"
  "ERROR_FRAME_TOO_LARGE \<in> set error_codes" "ERROR_UNKNOWN_TYPE \<in> set error_codes"
  "ERROR_INTERNAL \<in> set error_codes" "ERROR_INVALID_SESSION_KEY \<in> set error_codes"
  "ERROR_SESSION_SPAWN_FAILED \<in> set error_codes" "ERROR_LEASE_NOT_FOUND \<in> set error_codes"
  "call_error_code message \<in> set error_codes" "notify_error_code message \<in> set error_codes"
  by (simp_all add: error_codes_def call_error_code_def notify_error_code_def)

text \<open>The type of an answer, and what it has to do with the handler.\<close>

definition answer_of :: "string \<Rightarrow> dispatch_outcome \<Rightarrow> bool" where
  "answer_of t out = (well_typed (do_response out) \<and> ce_type (do_response out) \<in> {TYPE_ERROR, t})"

lemma answer_of_respond [simp]:
  "answer_of t (respond (error_envelope i code message retryable None)) = (code \<in> set error_codes)"
  "answer_of t (respond (ok_envelope i t p)) = well_typed (ok_envelope i t p)"
  by (auto simp: answer_of_def respond_def error_envelope_def ok_envelope_def
      simp flip: error_envelope_def)

lemma attach_typed: "dispatch_attach dn now i p r = Some (out, r') \<Longrightarrow> answer_of TYPE_ATTACH_OK out"
  by (auto simp: dispatch_attach_def Let_def split: option.splits sum.splits stream_mode.splits)

lemma release_typed: "dispatch_release now i p r = Some (out, r') \<Longrightarrow> answer_of TYPE_RELEASE_OK out"
  by (auto simp: dispatch_release_def split: option.splits prod.splits)

lemma call_typed: "dispatch_call dn now i p r = Some (out, r') \<Longrightarrow> answer_of TYPE_CALL_OK out"
  by (auto simp: dispatch_call_def Let_def split: option.splits prod.splits sum.splits)

lemma notify_typed: "dispatch_notify dn now i p r = Some (out, r') \<Longrightarrow> answer_of TYPE_NOTIFY_OK out"
  by (auto simp: dispatch_notify_def Let_def split: option.splits prod.splits sum.splits)

lemma stats_typed: "dispatch_stats dn now t0 st i r = Some (out, r') \<Longrightarrow> answer_of TYPE_STATS_OK out"
  by (auto simp: dispatch_stats_def Let_def)

lemma shutdown_typed: "dispatch_shutdown i p r = Some (out, r') \<Longrightarrow> answer_of TYPE_SHUTDOWN_OK out"
  by (auto simp: dispatch_shutdown_def answer_of_def well_typed_simps split: option.splits)

lemmas handler_typed = attach_typed release_typed call_typed notify_typed stats_typed shutdown_typed

lemma request_typed:
  assumes "dispatch_control_request dn now t0 st req r = Some (out, r')"
  shows "answers_request req (do_response out)"
proof -
  consider t where "answer_type (ce_type req) = Some t" "answer_of t out"
    | "answer_of TYPE_ERROR out"
    using assms
    by (auto simp: dispatch_control_request_def answer_type_def dest: handler_typed split: if_splits)
  then show ?thesis by cases (auto simp: answers_request_def answer_of_def)
qed

lemma line_typed:
  assumes "handle_line par dn now t0 st line r = Some (out, r')"
  shows "well_typed (lo_response out)"
  using assms request_typed
  by (fastforce simp: handle_line_def answers_request_def reply_def split: if_splits option.splits)

lemma connection_typed: "list_all well_typed (fst (handle_control_connection par dn t0 st oks input r))"
proof (induction "length input" arbitrary: oks input r rule: less_induct)
  case less
  show ?case
  proof (cases "\<exists>line rest. next_line input = Inr (Some (line, rest))")
    case False
    then show ?thesis
      by (subst handle_control_connection.simps) (auto split: sum.splits option.splits)
  next
    case True
    then obtain line rest where line: "next_line input = Inr (Some (line, rest))" by blast
    have rec: "list_all well_typed (fst (handle_control_connection par dn t0 st (tl oks) rest r1))" for r1
      using line by (intro less) (rule next_line_shorter)
    obtain now ok where ok: "(case oks of [] \<Rightarrow> (t0, False) | ok # _ \<Rightarrow> ok) = (now, ok)"
      by fastforce
    show ?thesis
    proof (cases "handle_line par dn now t0 st line r")
      case None
      with line ok show ?thesis by (subst handle_control_connection.simps) simp
    next
      case (Some a)
      obtain out r1 where "a = (out, r1)" by (cases a)
      with line ok Some line_typed [of par dn now t0 st line r out r1] rec [of r1] show ?thesis
        by (subst handle_control_connection.simps) (simp add: conn_cons_def split_def)
    qed
  qed
qed

text \<open>A well-typed answer also decodes as a whole, into the enum of all messages.\<close>

lemma well_typed_payload: "well_typed e \<Longrightarrow> from_value_payload (to_value_envelope e) \<noteq> None"
  by (auto simp: well_typed_def Let_def payload_of_envelope payload_decoders_def
      split: if_splits option.splits)

lemma connection_payloads:
  "list_all (\<lambda>e. from_value_payload (to_value_envelope e) \<noteq> None)
     (fst (handle_control_connection par dn t0 st oks input r))"
  by (rule list.pred_mono_strong [OF connection_typed]) (rule well_typed_payload)

text \<open>C16: the daemon keeps to the protocol's types. Whatever bytes a connection brings, each answer
  has one of the protocol's types and a payload which the client's decoder for that type accepts, and it
  decodes as a whole into \<open>ControlPayload\<close>; an error carries one of eleven of the protocol's codes. And
  a request that is dispatched gets the answer that belongs to its type, or an error.\<close>

theorem answers_well_typed:
  "list_all well_typed (fst (handle_control_connection par dn t0 st oks input r)) \<and>
   list_all (\<lambda>e. from_value_payload (to_value_envelope e) \<noteq> None)
     (fst (handle_control_connection par dn t0 st oks input r)) \<and>
   (case dispatch_control_request dn now t0 st req r of
      None \<Rightarrow> True
    | Some (out, r') \<Rightarrow> answers_request req (do_response out))"
  using connection_typed connection_payloads request_typed by (auto split: option.splits)

end
