(* ===== verification/Lspee_System_Do.thy ===== *)
theory Lspee_System_Do
  imports Lspee_System Lspee_Do
begin

section \<open>\<open>lspee do\<close> against the daemon\<close>

text \<open>
  The five steps of \<open>lspee do\<close> (\<open>do_cmd.rs\<close>), attach, open, call, close, release, on the daemon of
  \<open>Lspee_Dispatch\<close>. \<open>linked\<close> is the state between two steps: nothing unread, the daemon's registry
  at the other end, and readings left on both clocks.
\<close>

definition linked :: "nat \<Rightarrow> nat set \<Rightarrow> registry \<Rightarrow> (instant list \<times> registry) conn \<Rightarrow> bool" where
  "linked k N r c =
     (cn_inbound c = [] \<and> snd (cn_peer c) = r \<and> k \<le> length (fst (cn_peer c)) \<and>
      k \<le> length (cn_clock c) \<and> set (cn_clock c) \<subseteq> N)"

lemma linked_mono: "linked k N r c \<Longrightarrow> j \<le> k \<Longrightarrow> linked j N r c"
  by (simp add: linked_def)

lemma linkedE:
  assumes "linked (Suc k) N r c"
  obtains now clock n ns where "cn_inbound c = []" "cn_peer c = (now # clock, r)" "cn_clock c = n # ns"
    "n \<in> N" "k \<le> length clock" "k \<le> length ns" "set ns \<subseteq> N"
  using assms
  by (cases "cn_peer c"; cases "fst (cn_peer c)"; cases "cn_clock c") (auto simp: linked_def)

lemma linkedI:
  "cn_inbound c = [] \<Longrightarrow> cn_peer c = (clock, r) \<Longrightarrow> cn_clock c = ns \<Longrightarrow> k \<le> length clock \<Longrightarrow>
     k \<le> length ns \<Longrightarrow> set ns \<subseteq> N \<Longrightarrow> linked k N r c"
  by (simp add: linked_def)

text \<open>The registries of one conversation differ in clocks only.\<close>

definition same_state :: "registry \<Rightarrow> registry \<Rightarrow> bool" where
  "same_state r r' = (clock_free r' = clock_free r \<and> reg_leases r' = reg_leases r \<and> registry_inv r')"

lemma same_state_trans: "same_state r r1 \<Longrightarrow> same_state r1 r2 \<Longrightarrow> same_state r r2"
  by (simp add: same_state_def)

text \<open>A live lease: its owner, and the process behind it.\<close>

definition lease_live :: "string \<Rightarrow> session_key \<Rightarrow> nat \<Rightarrow> registry \<Rightarrow> bool" where
  "lease_live l k rt r =
     (registry_inv r \<and> lease_owner r l = Some k \<and>
      (\<exists>h n. clock_free r k = Some (h, n, False) \<and> sh_runtime h = rt))"

lemma lease_live_same: "lease_live l k rt r \<Longrightarrow> same_state r r' \<Longrightarrow> lease_live l k rt r'"
  by (simp add: lease_live_def same_state_def lease_owner_def)

lemma lease_live_rec:
  assumes "lease_live l k rt r"
  obtains rec where "map_of (reg_sessions r) k = Some rec" "\<not> sr_terminating rec"
    "sh_runtime (sr_handle rec) = rt"
  using assms by (auto simp: lease_live_def clock_free_def)

text \<open>A notification on a live lease.\<close>

lemma dispatch_notify_ok:
  assumes live: "lease_live l k rt r"
  obtains r' out where
    "dispatch_notify dn now i (notify_payload l message) r = Some (respond out, r')"
    "ce_id out = i" "same_state r r'"
    "is_ok (expect_type TYPE_NOTIFY_OK what out) = is_ok (dn_send dn rt message)"
proof -
  from live have inv: "registry_inv r" and "lease_owner r l = Some k" by (simp_all add: lease_live_def)
  then obtain lr where lr: "map_of (reg_leases r) l = Some lr" "lr_key lr = k"
    by (auto simp: lease_owner_def)
  obtain rec where rec: "map_of (reg_sessions r) k = Some rec" "\<not> sr_terminating rec"
      "sh_runtime (sr_handle rec) = rt"
    using lease_live_rec [OF live] .
  let ?r = "snd (notify_by_lease_id now (dn_send dn) l message r)"
  have res: "fst (notify_by_lease_id now (dn_send dn) l message r) =
      (case dn_send dn rt message of Inl e \<Rightarrow> Inl e | Inr _ \<Rightarrow> Inr (Some ()))"
    and st: "clock_free ?r = clock_free r" "reg_leases ?r = reg_leases r"
    using lr rec by (simp_all add: notify_by_lease_id_def runtime_for_lease_state [OF inv] clock_free_touch
        split: sum.splits)
  have "same_state r ?r" using st inv_notify [OF inv] by (simp add: same_state_def)
  with res show ?thesis
    by (cases "dn_send dn rt message"; intro that)
      (auto simp: dispatch_notify_def notify_payload_def split_def Let_def expect_type_def
        ensure_not_error_def error_envelope_def)
qed

lemma notify_over_wire:
  assumes codec: "\<And>v. json_text_ok ser par v" and link: "linked (Suc k) N r c"
    and fit: "\<And>n. n \<in> N \<Longrightarrow> fits ser (notify_frame (prefix @ ''-'' @ nat_str n) l message)"
    and live: "lease_live l key rt r"
  obtains res r' c' where
    "request_ok (daemon_wire ser par dn t0 st) prefix TYPE_NOTIFY (notify_payload l message)
       TYPE_NOTIFY_OK what c = (res, c')"
    "is_ok res = is_ok (dn_send dn rt message)" "linked k N r' c'" "same_state r r'"
proof -
  obtain now clock n ns where c: "cn_inbound c = []" "cn_peer c = (now # clock, r)" "cn_clock c = n # ns"
    and k: "n \<in> N" "k \<le> length clock" "k \<le> length ns" "set ns \<subseteq> N"
    using link by (rule linkedE)
  let ?i = "prefix @ ''-'' @ nat_str n"
  obtain r' out where noti: "dispatch_notify dn now (Some ?i) (notify_payload l message) r = Some (respond out, r')"
    and out: "ce_id out = Some ?i" and same: "same_state r r'"
    and ok: "is_ok (expect_type TYPE_NOTIFY_OK what out) = is_ok (dn_send dn rt message)"
    using dispatch_notify_ok [OF live] .
  have disp: "dispatch_control_request dn now t0 st
      (request_envelope ?i TYPE_NOTIFY (notify_payload l message)) r = Some (respond out, r')"
    using noti by (simp add: dispatch_control_request_def request_envelope_def)
  obtain c' where "request_ok (daemon_wire ser par dn t0 st) prefix TYPE_NOTIFY (notify_payload l message)
      TYPE_NOTIFY_OK what c = (expect_type TYPE_NOTIFY_OK what out, c')"
    "cn_inbound c' = []" "cn_peer c' = (clock, r')" "cn_clock c' = ns"
    using request_reply [OF codec c refl fit [OF k(1), unfolded notify_frame_def] disp,
        of TYPE_NOTIFY_OK what] out
    by (auto simp: respond_def)
  with that ok same k show ?thesis by (blast intro: linkedI)
qed

text \<open>Opening and closing the document.\<close>

definition opened_uri :: "file_env \<Rightarrow> (json \<Rightarrow> unit result) \<Rightarrow> path option \<Rightarrow> string option" where
  "opened_uri fe send file =
     (case file of
        None \<Rightarrow> None
      | Some f \<Rightarrow>
          (case open_document fe f of
             Inl _ \<Rightarrow> None
           | Inr (uri, message) \<Rightarrow> if is_ok (send message) then Some uri else None))"

lemma open_over_wire:
  assumes codec: "\<And>v. json_text_ok ser par v" and link: "linked (Suc k) N r c"
    and fit: "\<And>n f uri message. n \<in> N \<Longrightarrow> file = Some f \<Longrightarrow> open_document fe f = Inr (uri, message) \<Longrightarrow>
      fits ser (notify_frame (''notify-open-'' @ nat_str n) l message)"
    and live: "lease_live l key rt r"
  obtains r' c' where
    "try_did_open (daemon_wire ser par dn t0 st) fe l file c = (opened_uri fe (dn_send dn rt) file, c')"
    "linked k N r' c'" "same_state r r'"
proof (cases "\<exists>f uri message. file = Some f \<and> open_document fe f = Inr (uri, message)")
  case True
  then obtain f uri message where f: "file = Some f" "open_document fe f = Inr (uri, message)" by blast
  have fit': "fits ser (notify_frame (''notify-open'' @ ''-'' @ nat_str n) l message)" if "n \<in> N" for n
    using fit [OF that f] by simp
  obtain res r' c' where
    "request_ok (daemon_wire ser par dn t0 st) ''notify-open'' TYPE_NOTIFY (notify_payload l message)
       TYPE_NOTIFY_OK ''Notify (didOpen)'' c = (res, c')"
    "is_ok res = is_ok (dn_send dn rt message)" "linked k N r' c'" "same_state r r'"
    using notify_over_wire [OF codec link fit' live] .
  with f that show ?thesis
    by (cases res) (simp_all add: try_did_open_def send_did_open_def bind_client_def lift_res_def opened_uri_def)
next
  case False
  have "same_state r r" using live by (simp add: same_state_def lease_live_def)
  moreover from False have "try_did_open (daemon_wire ser par dn t0 st) fe l file c =
      (opened_uri fe (dn_send dn rt) file, c)"
    by (cases "case file of None \<Rightarrow> None | Some f \<Rightarrow> Some (open_document fe f)")
      (auto simp: try_did_open_def send_did_open_def bind_client_def lift_res_def opened_uri_def
        split: option.splits sum.splits)
  ultimately show ?thesis using linked_mono [OF link, of k] by (intro that) simp_all
qed

lemma close_over_wire:
  assumes codec: "\<And>v. json_text_ok ser par v" and link: "linked (Suc k) N r c"
    and fit: "\<And>n u. n \<in> N \<Longrightarrow> uri = Some u \<Longrightarrow>
      fits ser (notify_frame (''notify-close-'' @ nat_str n) l (did_close_message u))"
    and live: "lease_live l key rt r"
  obtains r' where "linked k N r' (try_did_close (daemon_wire ser par dn t0 st) l uri c)" "same_state r r'"
proof (cases uri)
  case None
  have "same_state r r" using live by (simp add: same_state_def lease_live_def)
  with linked_mono [OF link, of k] None show ?thesis
    by (intro that) (simp_all add: try_did_close_def)
next
  case (Some u)
  have fit': "fits ser (notify_frame (''notify-close'' @ ''-'' @ nat_str n) l (did_close_message u))"
    if "n \<in> N" for n using fit [OF that Some] by simp
  obtain res r' c' where
    "request_ok (daemon_wire ser par dn t0 st) ''notify-close'' TYPE_NOTIFY
       (notify_payload l (did_close_message u)) TYPE_NOTIFY_OK ''Notify (didClose)'' c = (res, c')"
    "linked k N r' c'" "same_state r r'"
    using notify_over_wire [OF codec link fit' live] .
  then show ?thesis
    by (intro that) (cases res; simp add: try_did_close_def send_did_close_def bind_client_def lift_res_def Some)+
qed

text \<open>The attach, the call and the release on a link.\<close>

lemma linked_attach:
  assumes codec: "\<And>v. json_text_ok ser par v" and link: "linked (Suc k) N r c"
    and fit: "\<And>n. n \<in> N \<Longrightarrow> fits ser (attach_frame ident kind resolved lsp n)"
    and inv: "registry_inv r" and idle: "gates_idle r" and room: "lease_room r"
    and key: "validate_session_key (wire_key resolved lsp) = Inr ()"
    and spawn: "attachable dn resolved lsp r"
  obtains now l r1 c1 h where
    "acquire_or_spawn now (daemon_key resolved lsp) (Some kind)
       (spawn_session dn (path_of (path_display (rv_project_root resolved))) lsp) r = Some (Inr l, r1)"
    "attach_session (daemon_wire ser par dn t0 st) ident kind resolved lsp c =
       (Inr (lease_name (reg_lease_seq r)), c1)"
    "linked k N r1 c1" "session_handle_of (daemon_key resolved lsp) r1 = Some h"
    "lease_live (lease_name (reg_lease_seq r)) (daemon_key resolved lsp) (sh_runtime h) r1"
proof -
  obtain now clock n ns where c: "cn_inbound c = []" "cn_peer c = (now # clock, r)" "cn_clock c = n # ns"
    and k: "n \<in> N" "k \<le> length clock" "k \<le> length ns" "set ns \<subseteq> N"
    using link by (rule linkedE)
  obtain l r1 c1 where acq: "acquire_or_spawn now (daemon_key resolved lsp) (Some kind)
       (spawn_session dn (path_of (path_display (rv_project_root resolved))) lsp) r = Some (Inr l, r1)"
    and att: "attach_session (daemon_wire ser par dn t0 st) ident kind resolved lsp c = (Inr (le_id l), c1)"
    and c1: "cn_inbound c1 = []" "cn_peer c1 = (clock, r1)" "cn_clock c1 = ns"
    using attach_over_wire [OF codec c fit [OF k(1)] inv idle key spawn] .
  note new = acquire_Inr [OF inv acq]
  have "registry_inv r1"
    by (rule inv_acquire [OF inv _ _ acq]) (use room in \<open>simp_all add: lease_room_def\<close>)
  moreover obtain rec where "map_of (reg_sessions r1) (daemon_key resolved lsp) = Some rec" "\<not> sr_terminating rec"
    using new(6) by blast
  ultimately show ?thesis
    using new(2,4) att
    by (intro that [OF acq _ linkedI [OF c1 k(2-4)], of "sr_handle rec"])
      (simp_all add: session_handle_of_def lease_live_def clock_free_def)
qed

lemma linked_release:
  assumes codec: "\<And>v. json_text_ok ser par v" and link: "linked (Suc k) N r c"
    and fit: "\<And>n. n \<in> N \<Longrightarrow> fits ser (release_frame (''release-'' @ nat_str n) l)"
    and live: "lease_live l key rt r"
  obtains now res c1 where "release_lease (daemon_wire ser par dn t0 st) l c = (res, c1)"
    "linked k N (snd (release_by_lease_id now l r)) c1"
proof -
  obtain now clock n ns where c: "cn_inbound c = []" "cn_peer c = (now # clock, r)" "cn_clock c = n # ns"
    and k: "n \<in> N" "k \<le> length clock" "k \<le> length ns" "set ns \<subseteq> N"
    using link by (rule linkedE)
  from live have inv: "registry_inv r" and own: "lease_owner r l = Some key"
    by (simp_all add: lease_live_def)
  from release_over_wire [OF codec c fit [OF k(1)] inv own] show ?thesis
    using that linkedI [OF _ _ _ k(2-4)] by metis
qed

text \<open>The call with the closing of the document and the release behind it.\<close>

lemma do_call_over_wire:
  assumes codec: "\<And>v. json_text_ok ser par v" and link: "linked (Suc (Suc (Suc k))) N r c"
    and fit: "\<And>n. n \<in> N \<Longrightarrow> fits ser (call_frame (''call-'' @ nat_str n) l request)"
      "\<And>n u. n \<in> N \<Longrightarrow> uri = Some u \<Longrightarrow>
        fits ser (notify_frame (''notify-close-'' @ nat_str n) l (did_close_message u))"
      "\<And>n. n \<in> N \<Longrightarrow> fits ser (release_frame (''release-'' @ nat_str n) l)"
    and live: "lease_live l key rt r"
  obtains now r1 c1 where
    "do_call (daemon_wire ser par dn t0 st) l request uri c = (call_outcome l (dn_call dn rt request), c1)"
    "same_state r r1" "linked k N (snd (release_by_lease_id now l r1)) c1"
proof -
  let ?w = "daemon_wire ser par dn t0 st"
  obtain now clock n ns where c: "cn_inbound c = []" "cn_peer c = (now # clock, r)" "cn_clock c = n # ns"
    and k: "n \<in> N" "Suc (Suc k) \<le> length clock" "Suc (Suc k) \<le> length ns" "set ns \<subseteq> N"
    using link by (rule linkedE)
  from live have inv: "registry_inv r" and own: "lease_owner r l = Some key"
    by (simp_all add: lease_live_def)
  obtain rec where rec: "map_of (reg_sessions r) key = Some rec" "\<not> sr_terminating rec"
      "sh_runtime (sr_handle rec) = rt"
    using lease_live_rec [OF live] .
  obtain r1 out c1 c2 c3 where call: "new_request_id ''call'' c = (''call-'' @ nat_str n, c1)"
      "write_frame ?w (call_frame (''call-'' @ nat_str n) l request) c1 = (Inr (), c2)"
      "read_response_for_id ?w (''call-'' @ nat_str n) c2 = (Inr out, c3)"
    and c3: "cn_inbound c3 = []" "cn_peer c3 = (clock, r1)" "cn_clock c3 = ns"
    and st: "clock_free r1 = clock_free r" "reg_leases r1 = reg_leases r" "registry_inv r1"
    and res: "bind_res (expect_type TYPE_CALL_OK ''Call'' out) decode_call_ok =
       call_outcome l (dn_call dn rt request)"
    using call_over_wire [OF codec c fit(1) [OF k(1)] inv own rec(1,2)] unfolding rec(3) .
  have same: "same_state r r1" using st by (simp add: same_state_def)
  have link3: "linked (Suc (Suc k)) N r1 c3" using c3 k(2-4) by (rule linkedI)
  obtain r2 where cl: "linked (Suc k) N r2 (try_did_close ?w l uri c3)" "same_state r1 r2"
    using close_over_wire [OF codec link3 fit(2) lease_live_same [OF live same]] .
  have same2: "same_state r r2" using same cl(2) by (rule same_state_trans)
  obtain now' rl c4 where "release_lease ?w l (try_did_close ?w l uri c3) = (rl, c4)"
      "linked k N (snd (release_by_lease_id now' l r2)) c4"
    using linked_release [OF codec cl(1) fit(3) lease_live_same [OF live same2]] .
  with call res same2 that show ?thesis
    by (simp add: do_call_def bind_client_def Let_def call_frame_def)
qed

text \<open>Every frame of the command fits, whatever reading of the clock its id takes.\<close>

definition do_frames_fit ::
  "(json \<Rightarrow> string) \<Rightarrow> file_env \<Rightarrow> client_ident \<Rightarrow> resolved_config \<Rightarrow> string \<Rightarrow> string \<Rightarrow> path option \<Rightarrow> json
     \<Rightarrow> nat list \<Rightarrow> bool" where
  "do_frames_fit ser fe ident resolved lsp l file request clock =
     list_all (\<lambda>n.
       fits ser (attach_frame ident Agent resolved lsp n) \<and>
       fits ser (call_frame (''call-'' @ nat_str n) l request) \<and>
       fits ser (release_frame (''release-'' @ nat_str n) l) \<and>
       (case map_option (open_document fe) file of
          Some (Inr (uri, message)) \<Rightarrow>
            fits ser (notify_frame (''notify-open-'' @ nat_str n) l message) \<and>
            fits ser (notify_frame (''notify-close-'' @ nat_str n) l (did_close_message uri))
        | _ \<Rightarrow> True)) clock"

lemma opened_uriD:
  assumes "opened_uri fe send file = Some u"
  obtains f message where "file = Some f" "open_document fe f = Inr (u, message)"
  using assms by (auto simp: opened_uri_def split: option.splits sum.splits if_splits)

text \<open>C12: \<open>lspee do\<close> over the wire. As for \<open>lspee call\<close>: the client and the daemon agree on a codec and
  the frame size, nothing is left unread between them and both clocks have readings for five requests,
  the registry is well formed with room for a lease, and the session exists or its server starts. Then,
  whether the document can be read or not, and whether the server takes the notifications that open and
  close it or not, the command gets the server's answer to its request from the process of exactly the
  session its configuration names, and leaves the registry with that session, well formed, and without a
  lease of its own.\<close>

theorem do_reaches_server:
  assumes codec: "\<And>v. json_text_ok ser par v"
    and link: "linked 5 (set (cn_clock c)) r c"
    and fit: "do_frames_fit ser fe ident resolved lsp (lease_name (reg_lease_seq r)) file request (cn_clock c)"
    and inv: "registry_inv r" and idle: "gates_idle r" and room: "lease_room r"
    and key: "validate_session_key (wire_key resolved lsp) = Inr ()"
    and spawn: "attachable dn resolved lsp r"
  shows "\<exists>h c' r'.
    do_conversation (daemon_wire ser par dn t0 st) fe ident resolved lsp file request c =
      (call_outcome (lease_name (reg_lease_seq r)) (dn_call dn (sh_runtime h) request), c') \<and>
    cn_inbound c' = [] \<and> snd (cn_peer c') = r' \<and>
    (case session_handle_of (daemon_key resolved lsp) r of
       Some h0 \<Rightarrow> h = h0
     | None \<Rightarrow> spawn_session dn (path_of (path_display (rv_project_root resolved))) lsp
         (daemon_key resolved lsp) = Inr h) \<and>
    session_handle_of (daemon_key resolved lsp) r' = Some h \<and> registry_inv r' \<and>
    abs_registry r' = (abs_registry r)(daemon_key resolved lsp \<mapsto>
      case abs_registry r (daemon_key resolved lsp) of None \<Rightarrow> {} | Some I \<Rightarrow> I)"
proof -
  let ?key = "daemon_key resolved lsp"
  let ?l = "lease_name (reg_lease_seq r)"
  let ?w = "daemon_wire ser par dn t0 st"
  let ?N = "set (cn_clock c)"
  have fits: "fits ser (attach_frame ident Agent resolved lsp n)"
      "fits ser (call_frame (''call-'' @ nat_str n) ?l request)"
      "fits ser (release_frame (''release-'' @ nat_str n) ?l)"
      "file = Some f \<Longrightarrow> open_document fe f = Inr (u, m) \<Longrightarrow>
        fits ser (notify_frame (''notify-open-'' @ nat_str n) ?l m)"
      "file = Some f \<Longrightarrow> open_document fe f = Inr (u, m) \<Longrightarrow>
        fits ser (notify_frame (''notify-close-'' @ nat_str n) ?l (did_close_message u))"
    if "n \<in> ?N" for n f u m
    using fit that by (auto simp: do_frames_fit_def list_all_iff)
  have link: "linked (Suc 4) ?N r c" using link by simp
  obtain t1 lease r1 c1 h where
    acq: "acquire_or_spawn t1 ?key (Some Agent)
       (spawn_session dn (path_of (path_display (rv_project_root resolved))) lsp) r = Some (Inr lease, r1)"
    and att: "attach_session ?w ident Agent resolved lsp c = (Inr ?l, c1)"
    and l1: "linked 4 ?N r1 c1"
    and h1: "session_handle_of ?key r1 = Some h" and live: "lease_live ?l ?key (sh_runtime h) r1"
    using linked_attach [OF codec link fits(1) inv idle room key spawn] .
  have l1: "linked (Suc 3) ?N r1 c1" using l1 by simp
  obtain r2 c2 where op: "try_did_open ?w fe ?l file c1 = (opened_uri fe (dn_send dn (sh_runtime h)) file, c2)"
    and l2: "linked 3 ?N r2 c2" and same: "same_state r1 r2"
    using open_over_wire [OF codec l1 fits(4) live] .
  have close_fits: "fits ser (notify_frame (''notify-close-'' @ nat_str n) ?l (did_close_message u))"
    if "n \<in> ?N" "opened_uri fe (dn_send dn (sh_runtime h)) file = Some u" for n u
    using that(2) by (rule opened_uriD) (use fits(5) [OF that(1)] in blast)
  have l2: "linked (Suc (Suc (Suc 0))) ?N r2 c2" using l2 by (simp add: numeral_3_eq_3)
  obtain t r3 c3 where
    call: "do_call ?w ?l request (opened_uri fe (dn_send dn (sh_runtime h)) file) c2 =
      (call_outcome ?l (dn_call dn (sh_runtime h) request), c3)"
    and same2: "same_state r2 r3" and l3: "linked 0 ?N (snd (release_by_lease_id t ?l r3)) c3"
    using do_call_over_wire [OF codec l2 fits(2) close_fits fits(3) lease_live_same [OF live same]] .
  have "same_state r1 r3" using same same2 by (rule same_state_trans)
  then have r3: "clock_free r3 = clock_free r1" "reg_leases r3 = reg_leases r1" "registry_inv r3"
    by (simp_all add: same_state_def)
  have "do_conversation ?w fe ident resolved lsp file request c =
      (call_outcome ?l (dn_call dn (sh_runtime h) request), c3)"
    using att op call by (simp add: do_conversation_def bind_client_def)
  with l3 lease_and_return [OF inv acq r3 h1] show ?thesis
    unfolding linked_def by blast
qed

text \<open>A client whose clock stands still, so that one reading serves for all frames.\<close>

definition demo_do_client :: "(instant list \<times> registry) conn" where
  "demo_do_client = \<lparr>cn_peer = ([7, 8, 9, 10, 11], demo_registry), cn_inbound = [],
     cn_clock = replicate 5 4, cn_sent = []\<rparr>"

definition demo_source :: path where
  "demo_source = path_of ''/w/a.rs''"

lemma demo_do_frames_fit:
  "do_frames_fit text_of demo_files demo_ident demo_target ''rust-analyzer'' (lease_name 3) (Some demo_source)
     JNull (replicate k 4)"
proof -
  let ?len = "\<lambda>e. length (text_of (to_value_envelope e)) < 8000"
  have len: "?len (attach_frame demo_ident Agent demo_target ''rust-analyzer'' 4)"
    "?len (call_frame (''call-'' @ nat_str 4) (lease_name 3) JNull)"
    "?len (release_frame (''release-'' @ nat_str 4) (lease_name 3))"
    "case map_option (open_document demo_files) (Some demo_source) of
       Some (Inr (uri, message)) \<Rightarrow>
         ?len (notify_frame (''notify-open-'' @ nat_str 4) (lease_name 3) message) \<and>
         ?len (notify_frame (''notify-close-'' @ nat_str 4) (lease_name 3) (did_close_message uri))
     | _ \<Rightarrow> True"
    by code_simp+
  have fits: "fits text_of e" if "?len e" for e
    using that by (simp add: fits_def MAX_FRAME_SIZE_BYTES_def)
  have "do_frames_fit text_of demo_files demo_ident demo_target ''rust-analyzer'' (lease_name 3)
      (Some demo_source) JNull [4]"
    using len unfolding do_frames_fit_def
    by (auto split: option.splits sum.splits intro: fits)
  then show ?thesis unfolding do_frames_fit_def list_all_iff by (auto simp: in_set_replicate)
qed

theorem do_reaches_server_witness:
  "\<exists>h c' r'.
    do_conversation (daemon_wire text_of parse_text demo_daemon_env 0 demo_settings) demo_files
        demo_ident demo_target ''rust-analyzer'' (Some demo_source) JNull demo_do_client =
      (call_outcome (lease_name (reg_lease_seq demo_registry)) (Inr JNull), c') \<and>
    cn_inbound c' = [] \<and> snd (cn_peer c') = r' \<and>
    session_handle_of demo_key r' = Some h \<and> registry_inv r' \<and>
    abs_registry r' demo_key = abs_registry demo_registry demo_key"
proof -
  have key: "daemon_key demo_target ''rust-analyzer'' = demo_key"
    "validate_session_key (wire_key demo_target ''rust-analyzer'') = Inr ()"
    "session_refs demo_registry demo_key = Some 2" "reg_lease_seq demo_registry = 3"
    by code_simp+
  have idle: "gates_idle demo_registry"
    by code_simp
  have link: "linked 5 (set (cn_clock demo_do_client)) demo_registry demo_do_client"
    by (simp add: linked_def demo_do_client_def)
  have fit: "do_frames_fit text_of demo_files demo_ident demo_target ''rust-analyzer''
      (lease_name (reg_lease_seq demo_registry)) (Some demo_source) JNull (cn_clock demo_do_client)"
    using demo_do_frames_fit [of 5] by (simp only: key(4) demo_do_client_def conn.simps)
  have room: "lease_room demo_registry" by (simp add: lease_room_def key(4))
  have abs: "abs_registry demo_registry demo_key \<noteq> None" using key(3) by (simp add: abs_registry_def)
  have spawn: "attachable demo_daemon_env demo_target ''rust-analyzer'' demo_registry"
    by (simp add: attachable_def key(1,3))
  have call: "dn_call demo_daemon_env (sh_runtime h) JNull = Inr JNull" for h
    by (simp add: demo_daemon_env_def)
  from do_reaches_server [OF text_of_ok link fit demo_registry_inv idle room key(2) spawn,
      of 0 demo_settings] abs
  show ?thesis unfolding call key(1) by (auto split: option.splits)
qed

end
