(* ===== verification/Lspee_System_Proxy.thy ===== *)
theory Lspee_System_Proxy
  imports Lspee_System Lspee_Proxy
begin

section \<open>An editor session from end to end\<close>

text \<open>
  \<open>lspee proxy\<close> (\<open>proxy.rs\<close>) against the daemon: the attach over the control socket
  (\<open>lib.rs\<close>), the relay over the dedicated socket (\<open>stream.rs\<close>), and the release when the stream
  ends.
\<close>

definition proxy_attach_frame :: "client_ident \<Rightarrow> resolved_config \<Rightarrow> string \<Rightarrow> nat \<Rightarrow> control_envelope" where
  "proxy_attach_frame ident resolved lsp n =
     request_envelope (''attach-'' @ nat_str n) TYPE_ATTACH
       (to_value_attach (attach_payload ident Editor Dedicated resolved lsp))"

text \<open>The session that the proxy makes of the daemon's answer.\<close>

definition editor_session :: "string \<Rightarrow> session_handle \<Rightarrow> path \<Rightarrow> proxy_session" where
  "editor_session l h endpoint =
     \<lparr>px_lease_id = l, px_initialize_result = sh_initialize_result h, px_endpoint = path_display endpoint\<rparr>"

lemma dispatch_attach_dedicated:
  assumes key: "validate_session_key (wire_key resolved lsp) = Inr ()"
    and acq: "acquire_or_spawn now (daemon_key resolved lsp) (Some Editor)
       (spawn_session dn (path_of (path_display (rv_project_root resolved))) lsp) r = Some (Inr l, r1)"
    and h: "session_handle_of (daemon_key resolved lsp) r1 = Some h"
    and stream: "dn_stream dn (sk_root (daemon_key resolved lsp)) (le_id l) = Inr endpoint"
  obtains out where
    "dispatch_attach dn now i (to_value_attach (attach_payload ident Editor Dedicated resolved lsp)) r =
       Some (respond out, r1)"
    "ce_type out = TYPE_ATTACH_OK" "ce_id out = i"
    "proxy_attached (ce_payload out) = Inr (editor_session (le_id l) h endpoint)"
proof -
  from key have "validate_session_key (at_session_key (attach_payload ident Editor Dedicated resolved lsp)) = Inr ()"
    by (simp add: attach_payload_def wire_key_def)
  with acq h stream show ?thesis
    by (intro that)
      (auto simp: dispatch_attach_def attach_roundtrip Let_def attach_payload_def daemon_key_def
        preferred_stream_mode_def proxy_attached_reads editor_session_def)
qed

lemma proxy_attach_over_wire:
  assumes codec: "\<And>v. json_text_ok ser par v"
    and c: "cn_inbound c = []" "cn_peer c = (now # clock, r)" "cn_clock c = n # ns"
    and fit: "fits ser (proxy_attach_frame ident resolved lsp n)"
    and inv: "registry_inv r" and idle: "gates_idle r"
    and key: "validate_session_key (wire_key resolved lsp) = Inr ()"
    and spawn: "attachable dn resolved lsp r"
    and stream: "dn_stream dn (sk_root (daemon_key resolved lsp)) (lease_name (reg_lease_seq r)) = Inr endpoint"
  obtains l r1 h c1 where
    "acquire_or_spawn now (daemon_key resolved lsp) (Some Editor)
       (spawn_session dn (path_of (path_display (rv_project_root resolved))) lsp) r = Some (Inr l, r1)"
    "session_handle_of (daemon_key resolved lsp) r1 = Some h"
    "proxy_attach (daemon_wire ser par dn t0 st) ident resolved lsp c =
       (Inr (editor_session (lease_name (reg_lease_seq r)) h endpoint), c1)"
    "cn_inbound c1 = []" "cn_peer c1 = (clock, r1)" "cn_clock c1 = ns"
proof -
  let ?i = "''attach-'' @ nat_str n"
  let ?p = "to_value_attach (attach_payload ident Editor Dedicated resolved lsp)"
  obtain l r1 h where acq: "acquire_or_spawn now (daemon_key resolved lsp) (Some Editor)
       (spawn_session dn (path_of (path_display (rv_project_root resolved))) lsp) r = Some (Inr l, r1)"
    and h: "session_handle_of (daemon_key resolved lsp) r1 = Some h"
    using attach_acquires [OF inv idle spawn] .
  have l: "le_id l = lease_name (reg_lease_seq r)" by (rule acquire_Inr(2) [OF inv acq])
  obtain out where att: "dispatch_attach dn now (Some ?i) ?p r = Some (respond out, r1)"
    and out: "ce_type out = TYPE_ATTACH_OK" "ce_id out = Some ?i"
      "proxy_attached (ce_payload out) = Inr (editor_session (lease_name (reg_lease_seq r)) h endpoint)"
    using dispatch_attach_dedicated [OF key acq h, unfolded l, OF stream] .
  have disp: "dispatch_control_request dn now t0 st (request_envelope ?i TYPE_ATTACH ?p) r =
      Some (respond out, r1)"
    using att by (simp add: dispatch_control_request_def request_envelope_def)
  obtain c1 where c1: "request_ok (daemon_wire ser par dn t0 st) ''attach'' TYPE_ATTACH ?p
        TYPE_ATTACH_OK ''Attach'' c = (expect_type TYPE_ATTACH_OK ''Attach'' out, c1)"
    "cn_inbound c1 = []" "cn_peer c1 = (clock, r1)" "cn_clock c1 = ns"
    using request_reply [OF codec c _ fit [unfolded proxy_attach_frame_def] disp,
        of "''attach''" TYPE_ATTACH_OK "''Attach''"] out(2)
    by (auto simp: respond_def)
  have "proxy_attach (daemon_wire ser par dn t0 st) ident resolved lsp c =
      (Inr (editor_session (lease_name (reg_lease_seq r)) h endpoint), c1)"
    using c1(1) out
    by (simp add: proxy_attach_def bind_client_def lift_res_def expect_type_def ensure_not_error_def)
  from that [OF acq h this c1(2-4)] show ?thesis .
qed

text \<open>The relay between the two ends, with the daemon's half of the dedicated socket.\<close>

lemma relay_and_release:
  assumes codec: "\<And>v. json_text_ok ser par v"
    and small: "list_all (\<lambda>m. length (ser m) < 2 ^ 63) ms" and turns: "list_all lossless evs"
    and sends: "\<And>m. is_ok (send m)"
    and run: "proxy_run par ser px evs (proxy_start (editor_bytes ser ms)
        (stream_bytes ser (runtime_task (px_lease_id px) 1 es))) = (res, st')"
  obtains k n outs where
    "run_stream_connection par send t (px_lease_id px) (px_sent st') r =
       ((filter (forwards px) (take k ms), Inr ()), snd (release_by_lease_id t (px_lease_id px) r))"
    "outs \<in> shuffles (concat (map (editor_answers px) (take k ms)))
      (take n (map lm_payload (accepted_messages es)))"
    "px_stdout st' = editor_bytes ser outs"
    "res = None \<longrightarrow> k + n = length evs \<and> k \<le> length ms \<and> n \<le> length (accepted_messages es)"
proof -
  obtain k n outs where sent:
    "px_sent st' = stream_bytes ser (lsp_in_frames (px_lease_id px) 1 (filter (forwards px) (take k ms)))"
    and rest: "outs \<in> shuffles (concat (map (editor_answers px) (take k ms)))
      (take n (map lm_payload (accepted_messages es)))"
    "px_stdout st' = editor_bytes ser outs"
    "res = None \<longrightarrow> k + n = length evs \<and> k \<le> length ms \<and> n \<le> length (accepted_messages es)"
    using proxy_run_streams [OF codec small turns run] .
  have "inbound_loop par send (px_lease_id px) (px_sent st') = (filter (forwards px) (take k ms), Inr ())"
    unfolding sent by (rule inbound_loop_lsp_in [OF codec sends])
  with rest that show ?thesis by (simp add: run_stream_connection_def)
qed


lemma demo_proxy_frame_fits:
  "fits text_of (proxy_attach_frame demo_ident demo_target ''rust-analyzer'' 1)"
proof -
  have "length (text_of (to_value_envelope (proxy_attach_frame demo_ident demo_target ''rust-analyzer'' 1))) < 8000"
    by code_simp
  then show ?thesis by (simp add: fits_def MAX_FRAME_SIZE_BYTES_def)
qed


end
