(* ===== verification/Spec2Isabelle.thy ===== *)
theory Spec2Isabelle
  imports Lspee_Registry_Solo Lspee_Cli Lspee_Isolation Lspee_Answers Lspee_System_Do Lspee_System_Proxy
begin

text \<open>
  \<^bold>\<open>lspee\<close>, a broker for language servers. A daemon, one per project root, starts language
  servers and shares them among its clients. A client connects to the daemon's Unix socket,
  attaches to a session (project root, server, configuration hash) and gets a lease on it; with the
  lease it calls the server, or relays a whole editor session over a dedicated socket; then it gives
  the lease back. Sessions without leases are evicted after an idle time, sessions that use too much
  memory are evicted by a monitor, and a daemon without sessions ends itself. The clients are the
  commands of one binary and an MCP server.

  \<^bold>\<open>The parts and their theories\<close> (paths under \<open>src/crates\<close>). The definitions have the names of
  the functions and types they translate; where one function of the source is several definitions,
  the pieces are named after what they do, and the composition has the function's name.

  \<^item> \<open>Lspee_Prelude\<close>: integers at their width, results (\<open>string + 'a\<close>), the string, path and map
    operations of the Rust standard library that the program uses.
  \<^item> \<open>Lspee_Json\<close>: \<open>serde_json::Value\<close> and the combinators of derived codecs. The text form of
    JSON is a parameter (a printer and a parser); \<open>json_text_ok\<close> says what is relied on: the parser
    reads back what was printed, and the print has no line break. \<open>Lspee_Text\<close> has one concrete
    pair with this contract, which the witnesses use.
  \<^item> \<open>Lspee_Protocol\<close> (\<open>lspee_protocol/src/lib.rs\<close>): a record or datatype per message, its encoder
    and decoder, and the round trip of each pair. \<open>Lspee_Payload\<close> has the sum of them.
  \<^item> \<open>Lspee_Registry\<close> (\<open>lspee_daemon/src/registry.rs\<close>): the sessions, leases, spawn gates and
    counters of \<open>SessionRegistry\<close> in one record, an operation per method, run one at a time. The
    invariant \<open>registry_inv\<close> says that each session counts its leases, and that leases name existing
    sessions and are numbered below the counter. The abstract specification is a map from keys to
    sets of lease identifiers (\<open>spec_attach\<close>, \<open>spec_release\<close>), which the operations refine. The
    locales \<open>lease_store\<close> and \<open>lease_table\<close> state the laws the other parts use.
  \<^item> \<open>Lspee_Registry_Conc\<close>: attach, release, idle rounds and memory rounds as tasks which interleave
    where the source takes and drops its locks; safety of the gates, absence of deadlock, exact counts,
    and three schedules in which the code goes wrong. \<open>Lspee_Registry_Solo\<close>: a task that runs alone does
    what the operation does in one piece.
  \<^item> \<open>Lspee_Memory\<close>, \<open>Lspee_Eviction\<close> (\<open>memory.rs\<close>, \<open>eviction.rs\<close>, \<open>shutdown_all_sessions\<close> of
    \<open>lspee_daemon/src/lib.rs\<close>): the memory monitor's choice, with its sort against the library's
    stable sort; the idle loop; the end of all sessions. The locale \<open>session_evictor\<close> is their
    common contract, interpreted for each of the three.
  \<^item> \<open>Lspee_Lsp\<close> (\<open>lspee_lsp/src/lib.rs\<close>): frames, the reader and writer tasks, calls and the end of
    a server process. The locale \<open>frame_codec\<close> is interpreted for LSP frames and for the lines of the
    control protocol.
  \<^item> \<open>Lspee_Config\<close>, \<open>Lspee_Languages\<close> (\<open>lspee_config\<close>): layers of configuration and their identity;
    the catalog of servers. The locale \<open>overlay\<close> says that the later layer wins, and is interpreted
    for each field.
  \<^item> \<open>Lspee_Dispatch\<close> (\<open>lspee_daemon/src/lib.rs\<close>): from the bytes of a connection to the answers:
    the handler of each message, the start of a language server, and the run of the daemon.
    \<open>Lspee_Answers\<close> types what it answers.
  \<^item> \<open>Lspee_Stream\<close> (\<open>lspee_daemon/src/stream.rs\<close>): the dedicated socket of a lease.
  \<^item> \<open>Lspee_Client\<close>, \<open>Lspee_Do\<close>, \<open>Lspee_Config_Edit\<close>, \<open>Lspee_Commands\<close>, \<open>Lspee_Proxy\<close>
    (\<open>lspee_cli/src/commands\<close>): connecting to a daemon and talking to it, and the commands: \<open>call\<close>,
    \<open>status\<close>, \<open>stop\<close>, \<open>restart\<close>; \<open>do\<close>; \<open>config\<close>; \<open>capabilities\<close>, \<open>lsps\<close>, \<open>lsp\<close>, \<open>doctor\<close>,
    \<open>serve\<close>; \<open>proxy\<close>.
  \<^item> \<open>Lspee_Mcp_Client\<close>, \<open>Lspee_Mcp\<close> (\<open>lspee_mcp\<close>): the MCP server's own copy of the client, shown to be
    the same functions; its tools and their conversations. \<open>Lspee_Cli\<close>: the commands of the binary
    and what each runs.
  \<^item> \<open>Lspee_System\<close>, \<open>Lspee_System_Do\<close>, \<open>Lspee_System_Proxy\<close>: \<open>lspee call\<close>, \<open>lspee do\<close> and an editor
    behind \<open>lspee proxy\<close>, each on the daemon of \<open>Lspee_Dispatch\<close>. \<open>Lspee_Isolation\<close>: the requests of
    many clients and the ticks of the two loops in any order, seen from one lease.

  \<^bold>\<open>State and time.\<close> Mutable state is passed: a registry, a connection, a proxy with its three
  streams. A clock is a number of nanoseconds given to each operation that reads it. What the
  program asks of its surroundings (processes, sockets, files, the environment, the TOML library,
  SHA-256) is a field of a record (\<open>daemon_env\<close>, \<open>config_env\<close>, \<open>path_env\<close>, \<open>cli_env\<close>, ...) or an
  argument, and a property that relies on how it behaves says so in a hypothesis.

  \<^bold>\<open>What the lemmas show.\<close> The registry keeps its invariant under every operation, alone and
  interleaved, and implements the abstract lease map; a lease identifier is never given out twice as
  long as fewer than \<open>2 ^ 64\<close> leases have been (\<open>lease_room\<close>). The daemon answers each line it can
  read, with the answers and errors the protocol names, and leaves no session behind when it ends.
  The eviction and memory decisions are exactly those the settings ask for. What one side of a socket
  writes the other reads back. Configuration layers overlay field by field, and their identity text
  is injective. Each client gives its lease back, but for the early returns that the properties
  name; the proxy relays both directions in order. A client and the daemon together do what the
  client promises (\<open>Lspee_System\<close> and the two theories on it), and other clients do not get in the way
  (\<open>Lspee_Isolation\<close>).

  \<^bold>\<open>Bounds and fuel.\<close> Recursions are structural or have a measure. Two take a bound on their depth:
  \<open>strip_many\<close> under \<open>trim\<close>, bounded by the length of the string (\<open>strip_many_enough\<close>), and the parser
  of \<open>Lspee_Text\<close>, bounded by the length of the text (\<open>text_of_ok\<close>). The loops that
  wait for the outside (the select loops of proxy, stream and eviction) are runs over the list of
  what became ready, so every finite run is covered. Attaching returns \<open>None\<close> only where a waiter
  would block on a gate nobody opens; \<open>gates_idle\<close> excludes that, and the interleaved model proves
  it does not happen. \<open>u64\<close> counters are words and wrap as in a release build.

  \<^bold>\<open>Not modelled.\<close> The wording that libraries add to error messages; paths that are not UTF-8;
  logging (\<open>tracing\<close>, the set-up in \<open>serve.rs\<close>); the parsing of command lines (\<open>clap\<close>);
  process creation and socket set-up beyond their outcome; the \<open>rmcp\<close>
  library; the npm launchers; tests and fixtures. Connections of the daemon run one after the other
  in \<open>Lspee_Dispatch\<close>; what their interleaving can do to the registry is the subject of
  \<open>Lspee_Registry_Conc\<close>.
\<close>

end
